(* ===== verification/Prelude.thy ===== *)
theory Prelude
  imports Main "HOL-Library.Sublist" "HOL-Library.Multiset"
begin

text \<open>
  Shared vocabulary of the development: Go strings as byte sequences, the functions of Go's
  standard packages \<open>strings\<close>, \<open>bytes\<close> and \<open>unicode/utf8\<close> that the sources call, and the generic
  list lemmas that the components share.

  A Go \<open>string\<close> is a sequence of bytes, and Isabelle's \<^typ>\<open>char\<close> is exactly one byte, so a Go
  string is a \<^typ>\<open>char list\<close> and \<open>len\<close> is \<^const>\<open>length\<close>. Indexing and slicing out of range panic in
  Go; the components write these panics out as values wherever they can be reached.
  \<open>strings.EqualFold\<close> compares decoded runes; what the Unicode case tables say of two different
  non-ASCII runes is a parameter of every definition that calls it.
\<close>

type_synonym bytes = "char list"
type_synonym rune = nat

named_theorems go_defs \<open>definitions of the Go library functions\<close>

abbreviation slash :: char where "slash \<equiv> CHR ''/''"
abbreviation lbrace :: char where "lbrace \<equiv> CHR 0x7B"
abbreviation rbrace :: char where "rbrace \<equiv> CHR 0x7D"
abbreviation colon :: char where "colon \<equiv> CHR '':''"
abbreviation comma :: char where "comma \<equiv> CHR '',''"
abbreviation space :: char where "space \<equiv> CHR '' ''"
abbreviation qmark :: char where "qmark \<equiv> CHR ''?''"

section \<open>Package strings\<close>

definition HasPrefix :: "bytes \<Rightarrow> bytes \<Rightarrow> bool" where
  [go_defs]: "HasPrefix s p \<longleftrightarrow> take (length p) s = p"

definition HasSuffix :: "bytes \<Rightarrow> bytes \<Rightarrow> bool" where
  [go_defs]: "HasSuffix s p \<longleftrightarrow> length p \<le> length s \<and> drop (length s - length p) s = p"

definition TrimPrefix :: "bytes \<Rightarrow> bytes \<Rightarrow> bytes" where
  [go_defs]: "TrimPrefix s p = (if HasPrefix s p then drop (length p) s else s)"

definition TrimSuffix :: "bytes \<Rightarrow> bytes \<Rightarrow> bytes" where
  [go_defs]: "TrimSuffix s p = (if HasSuffix s p then take (length s - length p) s else s)"

text \<open>\<open>TrimLeft\<close>, \<open>TrimRight\<close> and \<open>Trim\<close>, always called with a one-byte cutset.\<close>

definition TrimLeft :: "bytes \<Rightarrow> char \<Rightarrow> bytes" where
  [go_defs]: "TrimLeft s c = dropWhile (\<lambda>x. x = c) s"

definition TrimRight :: "bytes \<Rightarrow> char \<Rightarrow> bytes" where
  [go_defs]: "TrimRight s c = rev (dropWhile (\<lambda>x. x = c) (rev s))"

definition Trim :: "bytes \<Rightarrow> char \<Rightarrow> bytes" where
  [go_defs]: "Trim s c = TrimRight (TrimLeft s c) c"

text \<open>\<open>Index\<close> and \<open>LastIndex\<close>: \<open>None\<close> stands for the result -1.\<close>

fun Index :: "bytes \<Rightarrow> bytes \<Rightarrow> nat option" where
  "Index [] sep = (if sep = [] then Some 0 else None)"
| "Index (c # cs) sep =
     (if HasPrefix (c # cs) sep then Some 0 else map_option Suc (Index cs sep))"

fun LastIndex :: "bytes \<Rightarrow> bytes \<Rightarrow> nat option" where
  "LastIndex [] sep = (if sep = [] then Some 0 else None)"
| "LastIndex (c # cs) sep =
     (case LastIndex cs sep of
        Some k \<Rightarrow> Some (Suc k)
      | None \<Rightarrow> if HasPrefix (c # cs) sep then Some 0 else None)"

text \<open>\<open>Cut\<close> returns the text before and after the separator and whether it was found.\<close>

definition Cut :: "bytes \<Rightarrow> bytes \<Rightarrow> bytes \<times> bytes \<times> bool" where
  [go_defs]: "Cut s sep =
     (case Index s sep of
        Some i \<Rightarrow> (take i s, drop (i + length sep) s, True)
      | None \<Rightarrow> (s, [], False))"

text \<open>\<open>Split\<close> at a one-byte separator and \<open>Join\<close>.\<close>

fun Split :: "bytes \<Rightarrow> char \<Rightarrow> bytes list" where
  "Split [] sep = [[]]"
| "Split (c # cs) sep =
     (if c = sep then [] # Split cs sep
      else (case Split cs sep of [] \<Rightarrow> [[c]] | w # ws \<Rightarrow> (c # w) # ws))"

fun Join :: "bytes list \<Rightarrow> bytes \<Rightarrow> bytes" where
  "Join [] sep = []"
| "Join [w] sep = w"
| "Join (w # ws) sep = w @ sep @ Join ws sep"

section \<open>Package unicode/utf8\<close>

text \<open>
  \<open>DecodeRuneInString\<close>: the first rune and its width. An invalid sequence is the rune U+FFFD of
  width 1, the empty string the same rune of width 0. The ranges are those of the accept table of
  the Go package: no overlong forms, no surrogates, nothing above U+10FFFF.
\<close>

definition RuneError :: rune where
  "RuneError = 65533"

definition is_cont :: "nat \<Rightarrow> bool" where
  "is_cont b \<longleftrightarrow> 128 \<le> b \<and> b \<le> 191"

definition lead_range :: "nat \<Rightarrow> nat \<times> nat" where
  "lead_range b = (if b = 224 then (160, 191) else if b = 237 then (128, 159)
     else if b = 240 then (144, 191) else if b = 244 then (128, 143) else (128, 191))"

fun DecodeRune :: "bytes \<Rightarrow> rune \<times> nat" where
  "DecodeRune [] = (RuneError, 0)"
| "DecodeRune (c # r) =
     (let b0 = of_char c; (lo, hi) = lead_range b0; bs = map of_char r in
      if b0 < 128 then (b0, 1)
      else if b0 < 194 \<or> 244 < b0 then (RuneError, 1)
      else if b0 < 224 then
        (case bs of b1 # _ \<Rightarrow>
           if lo \<le> b1 \<and> b1 \<le> hi then ((b0 mod 32) * 64 + b1 mod 64, 2) else (RuneError, 1)
         | _ \<Rightarrow> (RuneError, 1))
      else if b0 < 240 then
        (case bs of b1 # b2 # _ \<Rightarrow>
           if lo \<le> b1 \<and> b1 \<le> hi \<and> is_cont b2
           then ((b0 mod 16) * 4096 + (b1 mod 64) * 64 + b2 mod 64, 3) else (RuneError, 1)
         | _ \<Rightarrow> (RuneError, 1))
      else
        (case bs of b1 # b2 # b3 # _ \<Rightarrow>
           if lo \<le> b1 \<and> b1 \<le> hi \<and> is_cont b2 \<and> is_cont b3
           then ((b0 mod 8) * 262144 + (b1 mod 64) * 4096 + (b2 mod 64) * 64 + b3 mod 64, 4)
           else (RuneError, 1)
         | _ \<Rightarrow> (RuneError, 1)))"

lemma DecodeRune_width: "s \<noteq> [] \<Longrightarrow> 0 < snd (DecodeRune s)"
  by (cases s) (auto simp: Let_def split: list.splits if_splits prod.splits)

text \<open>The runes of a string with their widths, as a \<open>for range\<close> loop over the string visits them.\<close>

function decodeAll :: "bytes \<Rightarrow> (rune \<times> nat) list" where
  "decodeAll s =
     (if s = [] then [] else DecodeRune s # decodeAll (drop (snd (DecodeRune s)) s))"
  by pat_completeness auto
termination
  by (relation "measure length") (auto simp: DecodeRune_width)

declare decodeAll.simps [simp del]

lemma decodeAll_Nil [simp]: "decodeAll [] = []"
  by (simp add: decodeAll.simps)

definition RuneCount :: "bytes \<Rightarrow> nat" where
  "RuneCount s = length (decodeAll s)"

text \<open>
  \<open>strings.EqualFold\<close>: rune by rune, equal or equal up to ASCII case or related by the Unicode
  simple folding \<open>uf\<close>.
\<close>

definition asciiFold :: "rune \<Rightarrow> rune \<Rightarrow> bool" where
  "asciiFold a b \<longleftrightarrow> (65 \<le> a \<and> a \<le> 90 \<and> b = a + 32) \<or> (65 \<le> b \<and> b \<le> 90 \<and> a = b + 32)"

definition runeFold :: "(rune \<Rightarrow> rune \<Rightarrow> bool) \<Rightarrow> rune \<Rightarrow> rune \<Rightarrow> bool" where
  "runeFold uf a b \<longleftrightarrow> a = b \<or> asciiFold a b \<or> (\<not> (a < 128 \<and> b < 128) \<and> uf a b)"

definition EqualFold :: "(rune \<Rightarrow> rune \<Rightarrow> bool) \<Rightarrow> bytes \<Rightarrow> bytes \<Rightarrow> bool" where
  "EqualFold uf s t \<longleftrightarrow>
     list_all2 (runeFold uf) (map fst (decodeAll s)) (map fst (decodeAll t))"

section \<open>Shared lemmas\<close>

subsection \<open>Prefixes and suffixes\<close>

lemma HasPrefix_append [simp]: "HasPrefix (p @ s) p"
  by (simp add: HasPrefix_def)

lemma HasPrefix_iff: "HasPrefix s p \<longleftrightarrow> (\<exists>r. s = p @ r)"
  unfolding HasPrefix_def by (metis append_eq_conv_conj append_take_drop_id)

lemma HasSuffix_iff: "HasSuffix s p \<longleftrightarrow> (\<exists>r. s = r @ p)"
proof
  assume "HasSuffix s p"
  then show "\<exists>r. s = r @ p"
    unfolding HasSuffix_def by (metis append_take_drop_id)
qed (auto simp: HasSuffix_def)

lemma HasSuffix_byte: "HasSuffix s [c] \<longleftrightarrow> s \<noteq> [] \<and> last s = c"
  by (auto simp: HasSuffix_iff) (metis append_butlast_last_id)

lemma TrimPrefix_append [simp]: "TrimPrefix (p @ s) p = s"
  by (simp add: TrimPrefix_def)

lemma HasPrefix_refl_Nil [simp]: "HasPrefix s []"
  by (simp add: HasPrefix_def)

subsection \<open>Index and LastIndex\<close>

lemma Index_Some:
  "Index s sep = Some i \<Longrightarrow> i + length sep \<le> length s \<and> take (length sep) (drop i s) = sep"
proof (induction s arbitrary: i)
  case Nil
  then show ?case by (simp split: if_splits)
next
  case (Cons c cs)
  then show ?case
  proof (cases "HasPrefix (c # cs) sep")
    case True
    with Cons.prems have "i = 0" by simp
    with True show ?thesis
      by (metis HasPrefix_def add.commute append_eq_conv_conj append_take_drop_id drop0
          length_append le_add1 add_0_right)
  next
    case False
    with Cons.prems obtain j where "Index cs sep = Some j" "i = Suc j" by auto
    with Cons.IH show ?thesis by auto
  qed
qed

lemma Index_byte_None: "Index s [c] = None \<longleftrightarrow> c \<notin> set s"
  by (induction s) (auto simp: HasPrefix_def)

lemma Index_byte_append: "c \<notin> set u \<Longrightarrow> Index (u @ c # v) [c] = Some (length u)"
  by (induction u) (auto simp: HasPrefix_def)

lemma LastIndex_byte_None: "LastIndex s [c] = None \<longleftrightarrow> c \<notin> set s"
  by (induction s) (auto simp: HasPrefix_def split: option.splits)

lemma LastIndex_byte_append: "c \<notin> set v \<Longrightarrow> LastIndex (u @ c # v) [c] = Some (length u)"
proof (induction u)
  case Nil
  then have "LastIndex v [c] = None" by (simp add: LastIndex_byte_None)
  then show ?case by (simp add: HasPrefix_def)
qed simp

subsection \<open>Split and Join\<close>

lemma Split_not_Nil [simp]: "Split s sep \<noteq> []"
  by (induction s) (auto split: list.splits)

lemma Split_no_sep: "sep \<notin> set s \<Longrightarrow> Split s sep = [s]"
  by (induction s) auto

lemma Split_append: "sep \<notin> set u \<Longrightarrow> Split (u @ sep # v) sep = u # Split v sep"
  by (induction u) auto

lemma Split_pieces: "w \<in> set (Split s sep) \<Longrightarrow> sep \<notin> set w"
proof (induction s arbitrary: w)
  case (Cons c cs)
  show ?case
  proof (cases "Split cs sep")
    case Nil
    then show ?thesis by simp
  next
    case (Cons v vs)
    with Cons.prems Cons.IH show ?thesis by (auto split: if_splits)
  qed
qed simp

lemma Join_Split: "Join (Split s sep) [sep] = s"
proof (induction s)
  case (Cons c cs)
  obtain w ws where sp: "Split cs sep = w # ws" by (cases "Split cs sep") auto
  with Cons.IH show ?case by (cases ws) auto
qed simp

lemma Split_Join:
  "ws \<noteq> [] \<Longrightarrow> \<forall>w \<in> set ws. sep \<notin> set w \<Longrightarrow> Split (Join ws [sep]) sep = ws"
  by (induction ws "[sep]" rule: Join.induct) (auto simp: Split_no_sep Split_append)

subsection \<open>ASCII strings\<close>

definition ascii :: "bytes \<Rightarrow> bool" where
  "ascii s \<longleftrightarrow> (\<forall>c \<in> set s. (of_char c :: nat) < 128)"

lemma ascii_simps [simp]:
  "ascii []" "ascii (c # s) \<longleftrightarrow> (of_char c :: nat) < 128 \<and> ascii s"
  "ascii (s @ t) \<longleftrightarrow> ascii s \<and> ascii t"
  by (auto simp: ascii_def)

lemma ascii_take [simp]: "ascii s \<Longrightarrow> ascii (take n s)"
  and ascii_drop [simp]: "ascii s \<Longrightarrow> ascii (drop n s)"
  by (auto simp: ascii_def dest: in_set_takeD in_set_dropD)

lemma decodeAll_ascii: "ascii s \<Longrightarrow> decodeAll s = map (\<lambda>c. (of_char c, 1)) s"
  by (induction s) (simp_all add: decodeAll.simps Let_def split: prod.splits)

lemma EqualFold_refl [simp]: "EqualFold uf s s"
  by (simp add: EqualFold_def list.rel_refl runeFold_def)

subsection \<open>Lists\<close>

lemma sorted_wrt_split:
  "sorted_wrt P (xs @ y # ys) \<Longrightarrow> x \<in> set xs \<Longrightarrow> P x y"
  by (simp add: sorted_wrt_append)

lemma take_eq_drop_append: "take n s = p \<Longrightarrow> s = p @ drop n s"
  by auto

end
