(* ===== verification/Radix_Utils.thy ===== *)
theory Radix_Utils
  imports Prelude
begin

text \<open>
  The helpers of \<open>src/internal/radix/utils.go\<close>: \<open>longestCommonPrefix\<close>, \<open>segmentEndIndex\<close> and the
  route-pattern scanner \<open>findWildPath\<close>, with the record \<open>wildPath\<close> of \<open>types.go\<close>.

  The regular-expression engine of package \<open>regexp\<close> is a parameter, the record \<open>regexp\<close>: which
  patterns \<open>MustCompile\<close> accepts, and what \<open>FindStringSubmatchIndex\<close> returns for a pattern and an
  input. A compiled expression is represented by its pattern text.

  Panics are values: the datatype \<open>panic\<close> has one constructor per panic of the package, including
  the run-time panics (index or slice out of range, nil dereference) that its code can reach.
\<close>

datatype panic =
    WildcardsNotSeparated
  | WildcardNameEmpty bytes
  | BraceInParamName
  | RegexpCompile bytes
  | PathMustBeginWithSlash bytes
  | NilHandler
  | InvalidNodeType
  | IndexOutOfRange
  | NilDereference

record regexp =
  rx_compiles :: "bytes \<Rightarrow> bool"
  rx_find :: "bytes \<Rightarrow> bytes \<Rightarrow> int list"

datatype nodeType = NRoot | NStatic | NParam | NWildcard

text \<open>The constants are numbered in this order, in which they are compared.\<close>

fun typeRank :: "nodeType \<Rightarrow> nat" where
  "typeRank NRoot = 0"
| "typeRank NStatic = 1"
| "typeRank NParam = 2"
| "typeRank NWildcard = 3"

instantiation nodeType :: linorder
begin

definition less_eq_nodeType :: "nodeType \<Rightarrow> nodeType \<Rightarrow> bool" where
  "less_eq_nodeType a b \<longleftrightarrow> typeRank a \<le> typeRank b"

definition less_nodeType :: "nodeType \<Rightarrow> nodeType \<Rightarrow> bool" where
  "less_nodeType a b \<longleftrightarrow> typeRank a < typeRank b"

instance
proof
  show "a \<le> b \<Longrightarrow> b \<le> a \<Longrightarrow> a = b" for a b :: nodeType
    unfolding less_eq_nodeType_def by (cases a; cases b) simp_all
qed (auto simp: less_eq_nodeType_def less_nodeType_def)

end

record wildPath =
  wp_path :: bytes
  wp_keys :: "bytes list"
  wp_start :: nat
  wp_end :: nat
  wp_pType :: nodeType
  wp_pattern :: bytes
  wp_regex :: "bytes option"

section \<open>Common prefixes and segments\<close>

text \<open>
  The loop decodes one rune of each string per round; \<open>i\<close> counts bytes of the first string and is
  compared with the smaller number of \<^emph>\<open>runes\<close> \<open>e\<close>.
\<close>

fun lcp_loop :: "nat \<Rightarrow> (rune \<times> nat) list \<Rightarrow> (rune \<times> nat) list \<Rightarrow> nat \<Rightarrow> nat" where
  "lcp_loop e ((ra, sizeA) # as) ((rb, sizeB) # bs) i =
     (if i < e then if ra \<noteq> rb then i else lcp_loop e as bs (i + sizeA) else i)"
| "lcp_loop e _ _ i = i"

definition longestCommonPrefix :: "bytes \<Rightarrow> bytes \<Rightarrow> nat" where
  "longestCommonPrefix a b =
     lcp_loop (min (RuneCount a) (RuneCount b)) (decodeAll a) (decodeAll b) 0"

definition segmentEndIndex :: "bytes \<Rightarrow> bool \<Rightarrow> nat" where
  "segmentEndIndex path includeTSR =
     (let end = length (takeWhile (\<lambda>c. c \<noteq> slash) path)
      in if includeTSR \<and> drop end path = [slash] then end + 1 else end)"

section \<open>Scanning a route pattern\<close>

text \<open>
  The inner loop of \<open>findWildPath\<close> runs over the bytes after an opening brace: it stops at the
  matching closing brace, panics at a brace in a parameter name, or runs out of input.
\<close>

datatype braceScan = ScanPanic | ScanOpen | ScanEnd nat

fun scanBrace :: "bytes \<Rightarrow> nat \<Rightarrow> bool \<Rightarrow> nat \<Rightarrow> braceScan" where
  "scanBrace [] end withRegex keys = ScanOpen"
| "scanBrace (c # cs) end withRegex keys =
     (if c = rbrace then
        (if keys > 0 then scanBrace cs (Suc end) withRegex (keys - 1) else ScanEnd end)
      else if c = colon then scanBrace cs (Suc end) True keys
      else if c = lbrace then
        (if \<not> withRegex \<and> keys = 0 then ScanPanic else scanBrace cs (Suc end) withRegex (Suc keys))
      else scanBrace cs (Suc end) withRegex keys)"

lemma scanBrace_bounds: "scanBrace cs n w k = ScanEnd e \<Longrightarrow> n \<le> e \<and> e < n + length cs"
proof (induction cs arbitrary: n w k)
  case (Cons c cs)
  from Cons.prems Cons.IH [of "Suc n"] show ?case by (fastforce split: if_splits)
qed simp

text \<open>
  \<open>wildOpen\<close> is the outer loop: the first opening brace whose scan does not run out of input
  decides; \<open>Inr None\<close> is no wild path, \<open>Inr (Some (start, end))\<close> the half-open byte range of the
  braces.
\<close>

fun wildOpen :: "bytes \<Rightarrow> nat \<Rightarrow> panic + (nat \<times> nat) option" where
  "wildOpen [] start = Inr None"
| "wildOpen (c # cs) start =
     (if c \<noteq> lbrace then wildOpen cs (Suc start)
      else case scanBrace cs 0 False 0 of
        ScanPanic \<Rightarrow> Inl BraceInParamName
      | ScanOpen \<Rightarrow> wildOpen cs (Suc start)
      | ScanEnd end \<Rightarrow> Inr (Some (start, start + end + 2)))"

lemma wildOpen_bounds:
  "wildOpen cs st = Inr (Some (s, e)) \<Longrightarrow> st \<le> s \<and> s + 2 \<le> e \<and> e \<le> st + length cs"
proof (induction cs arbitrary: st)
  case (Cons c cs)
  show ?case
  proof (cases "c \<noteq> lbrace \<or> scanBrace cs 0 False 0 = ScanOpen")
    case True
    with Cons.prems have "wildOpen cs (Suc st) = Inr (Some (s, e))" by (auto split: if_splits)
    from Cons.IH [OF this] show ?thesis by simp
  next
    case False
    with Cons.prems obtain k where k: "scanBrace cs 0 False 0 = ScanEnd k" "s = st" "e = st + k + 2"
      by (auto split: braceScan.splits)
    from scanBrace_bounds [OF k(1)] k show ?thesis by auto
  qed
qed simp

text \<open>
  The wild path read off one pair of braces, before the rest of its segment is looked at: name and
  pattern, the type and the checks the code makes on the way.
\<close>

definition wildHead :: "regexp \<Rightarrow> bytes \<Rightarrow> bytes \<Rightarrow> nat \<Rightarrow> nat \<Rightarrow> panic + wildPath" where
  "wildHead rx path fullPath start end =
     (let key = take (end - 1 - (start + 1)) (drop (start + 1) path);
          wp = \<lparr>wp_path = take (end - start) (drop start path), wp_keys = [key], wp_start = start,
                wp_end = end, wp_pType = NParam, wp_pattern = [], wp_regex = None\<rparr>;
          (name, pattern, found) = Cut key [colon] in
      if length path > end \<and> path ! end = lbrace then Inl WildcardsNotSeparated
      else if found \<and> pattern \<noteq> ''*'' \<and> \<not> rx_compiles rx (''('' @ pattern @ '')'') then
        Inl (RegexpCompile (''('' @ pattern @ '')''))
      else let wp' =
        (if found then
           (if pattern = ''*'' then wp\<lparr>wp_keys := [name], wp_pattern := pattern, wp_pType := NWildcard\<rparr>
            else wp\<lparr>wp_keys := [name], wp_pattern := ''('' @ pattern @ '')'',
                    wp_regex := Some (''('' @ pattern @ '')'')\<rparr>)
         else if last path \<noteq> slash then wp\<lparr>wp_pattern := ''(.*)''\<rparr> else wp)
      in if hd (wp_keys wp') = [] then Inl (WildcardNameEmpty fullPath) else Inr wp')"

text \<open>The text after the braces up to the end of the segment, a final slash included.\<close>

definition wildTail :: "bytes \<Rightarrow> nat \<Rightarrow> bytes" where
  "wildTail path end = take (segmentEndIndex (drop end path) True) (drop end path)"

function findWildPath :: "regexp \<Rightarrow> bytes \<Rightarrow> bytes \<Rightarrow> panic + wildPath option" where
  "findWildPath rx path fullPath =
     (case wildOpen path 0 of
        Inl p \<Rightarrow> Inl p
      | Inr None \<Rightarrow> Inr None
      | Inr (Some (start, end)) \<Rightarrow>
          (case wildHead rx path fullPath start end of
             Inl p \<Rightarrow> Inl p
           | Inr wp \<Rightarrow>
               (let rest = wildTail path end in
                if rest = [slash] then Inr (Some (wp\<lparr>wp_end := wp_end wp + 1\<rparr>))
                else if rest = [] then Inr (Some wp)
                else (case findWildPath rx rest fullPath of
                  Inl p \<Rightarrow> Inl p
                | Inr res \<Rightarrow>
                    (let wp' = (case res of
                        Some wp2 \<Rightarrow> (let prefix = take (wp_start wp2) rest in
                          wp\<lparr>wp_end := wp_end wp + wp_end wp2,
                             wp_path := wp_path wp @ prefix @ wp_path wp2,
                             wp_pattern := wp_pattern wp @ prefix @ wp_pattern wp2,
                             wp_keys := wp_keys wp @ wp_keys wp2\<rparr>)
                      | None \<Rightarrow>
                          wp\<lparr>wp_path := wp_path wp @ rest, wp_pattern := wp_pattern wp @ rest,
                             wp_end := wp_end wp + length rest\<rparr>)
                     in if rx_compiles rx (wp_pattern wp')
                        then Inr (Some (wp'\<lparr>wp_regex := Some (wp_pattern wp')\<rparr>))
                        else Inl (RegexpCompile (wp_pattern wp')))))))"
  by pat_completeness auto
termination
  by (relation "measure (\<lambda>(rx, path, fp). length path)")
    (auto simp: wildTail_def min_def dest!: wildOpen_bounds)

declare findWildPath.simps [simp del]

section \<open>Common prefixes: what the loop computes\<close>

lemma DecodeRune_width_le: "snd (DecodeRune s) \<le> length s"
  by (cases s) (auto simp: Let_def split: list.splits if_splits prod.splits)

lemma decodeAll_widths: "sum_list (map snd (decodeAll s)) = length s"
proof (induction s rule: decodeAll.induct)
  case (1 s)
  then show ?case
    using DecodeRune_width_le [of s] by (cases "s = []") (simp_all add: decodeAll.simps [of s])
qed

lemma lcp_loop_le: "lcp_loop e as bs i \<le> i + sum_list (map snd as)"
proof (induction e as bs i rule: lcp_loop.induct)
  case (1 e ra sizeA as rb sizeB bs i)
  then show ?case by (cases "i < e"; cases "ra = rb") auto
qed auto

lemma longestCommonPrefix_le: "longestCommonPrefix a b \<le> length a"
  using lcp_loop_le [of _ "decodeAll a" _ 0] by (simp add: longestCommonPrefix_def decodeAll_widths)

lemma lcp_loop_ascii:
  "e = i + min (length a) (length b) \<Longrightarrow>
   lcp_loop e (map (\<lambda>c. (of_char c, 1)) a) (map (\<lambda>c. (of_char c, 1)) b) i =
     i + length (longest_common_prefix a b)"
proof (induction a b arbitrary: i rule: longest_common_prefix.induct)
  case (1 x xs y ys)
  then show ?case using "1.IH" [of "Suc i"] by auto
qed simp_all

lemma longestCommonPrefix_ascii:
  "ascii a \<Longrightarrow> ascii b \<Longrightarrow> longestCommonPrefix a b = length (longest_common_prefix a b)"
  using lcp_loop_ascii [of "min (length a) (length b)" 0 a b]
  by (simp add: longestCommonPrefix_def decodeAll_ascii RuneCount_def)

text \<open>Splitting two ASCII strings at their common prefix.\<close>

lemma lcp_split:
  assumes "ascii a" "ascii b" "longestCommonPrefix a b = i"
  shows "i \<le> length a" "i \<le> length b" "take i a = take i b"
    "i < length a \<Longrightarrow> i < length b \<Longrightarrow> a ! i \<noteq> b ! i"
proof -
  have i: "i = length (longest_common_prefix a b)"
    using assms by (simp add: longestCommonPrefix_ascii)
  obtain u where u: "a = longest_common_prefix a b @ u"
    using longest_common_prefix_prefix1 [of a b] by (auto simp: prefix_def)
  obtain v where v: "b = longest_common_prefix a b @ v"
    using longest_common_prefix_prefix2 [of a b] by (auto simp: prefix_def)
  show "i \<le> length a" "i \<le> length b" using u v i by (metis length_append le_add1)+
  show "take i a = take i b" using u v i by (metis append_eq_conv_conj)
  assume lt: "i < length a" "i < length b"
  show "a ! i \<noteq> b ! i"
  proof
    assume "a ! i = b ! i"
    then have "prefix (take (Suc i) a) a \<and> prefix (take (Suc i) a) b"
      using lt \<open>take i a = take i b\<close>
      by (metis take_Suc_conv_app_nth take_is_prefix)
    then have "prefix (take (Suc i) a) (longest_common_prefix a b)"
      by (simp add: longest_common_prefix_max_prefix)
    then have "Suc i \<le> i" using i lt(1) prefix_length_le by fastforce
    then show False by simp
  qed
qed

lemma lcp_pos_iff:
  assumes "ascii a" "ascii b"
  shows "0 < longestCommonPrefix a b \<longleftrightarrow> a \<noteq> [] \<and> b \<noteq> [] \<and> hd a = hd b"
  unfolding longestCommonPrefix_ascii [OF assms] by (cases a; cases b) auto

section \<open>Wild paths: what the scanner returns\<close>

lemma wildOpen_no_brace: "lbrace \<notin> set cs \<Longrightarrow> wildOpen cs st = Inr None"
  by (induction cs arbitrary: st) auto

lemma findWildPath_no_brace [simp]:
  "lbrace \<notin> set path \<Longrightarrow> findWildPath rx path fp = Inr None"
  by (simp add: findWildPath.simps wildOpen_no_brace)

lemma wildHead_range:
  "wildHead rx path fp s e = Inr wp \<Longrightarrow> wp_start wp = s \<and> wp_end wp = e"
  by (auto simp: wildHead_def Let_def split: if_splits prod.splits)

lemma wildTail_length: "e \<le> length path \<Longrightarrow> e + length (wildTail path e) \<le> length path"
  by (simp add: wildTail_def)

lemma findWildPath_range:
  "findWildPath rx path fp = Inr (Some wp) \<Longrightarrow>
   wp_start wp + 2 \<le> wp_end wp \<and> wp_end wp \<le> length path"
proof (induction rx path fp arbitrary: wp rule: findWildPath.induct)
  case (1 rx path fp)
  from "1.prems" obtain s e where op: "wildOpen path 0 = Inr (Some (s, e))"
    by (subst (asm) findWildPath.simps) (auto split: sum.splits option.splits)
  with "1.prems" obtain hd where hd: "wildHead rx path fp s e = Inr hd"
    by (subst (asm) findWildPath.simps) (auto split: sum.splits)
  note bounds = wildOpen_bounds [OF op] wildHead_range [OF hd] wildTail_length [of e path]
  define rest where "rest = wildTail path e"
  show ?case
  proof (cases "rest = [slash] \<or> rest = []")
    case True
    with "1.prems" op hd bounds show ?thesis
      by (subst (asm) findWildPath.simps) (auto simp: rest_def split: if_splits)
  next
    case False
    with "1.prems" op hd obtain res where res: "findWildPath rx rest fp = Inr res"
      by (subst (asm) findWildPath.simps) (auto simp: rest_def Let_def split: sum.splits)
    from "1.IH" [OF op refl refl hd, of rest] False res
    have "\<And>w. res = Some w \<Longrightarrow> wp_end w \<le> length rest" by (auto simp: rest_def)
    with False "1.prems" op hd bounds res show ?thesis
      by (subst (asm) findWildPath.simps)
        (fastforce simp: rest_def Let_def split: option.splits if_splits)
  qed
qed

end
