(* ===== verification/Radix_Node.thy ===== *)
theory Radix_Node
  imports Radix_Utils
begin

text \<open>
  The nodes of the routing tree, \<open>src/internal/radix/node.go\<close> with the types of \<open>types.go\<close>: the
  data of a node, \<open>clone\<close>, \<open>split\<close>, \<open>setHandler\<close>, \<open>insert\<close>, \<open>add\<close>, the two lookups \<open>getFromChild\<close> and
  \<open>find\<close>/\<open>findFromChild\<close>, and \<open>sort\<close>.

  A node is its data (the struct's fields, record \<open>nodeData\<close>) and its list of children. The code
  mutates nodes through pointers; no node is shared between two places of the tree (\<open>split\<close> clones
  deeply), so every operation here takes the node and returns the mutated one. A node pointer that
  \<open>add\<close> and \<open>insert\<close> return beside an error is the position of the node below the receiver, a list
  of child indices. \<open>paramKeyVals\<close> holds the strings of \<open>paramKeys\<close> boxed in interfaces and is the same
  list here. Handlers are values of a type \<open>'h\<close>; a nil handler is \<^const>\<open>None\<close>.

  The request context that lookups write parameters to is \<open>uvals option\<close>: \<^const>\<open>None\<close> is a nil
  context, and \<open>SetUserValue\<close> is a map update.
\<close>

record 'h nodeWildcard =
  wc_path :: bytes
  wc_paramKey :: bytes
  wc_handler :: 'h

record 'h nodeData =
  nType :: nodeType
  n_path :: bytes
  n_tsr :: bool
  n_handler :: "'h option"
  n_hasWildChild :: bool
  n_wildcard :: "'h nodeWildcard option"
  n_paramKeys :: "bytes list"
  n_paramRegex :: "bytes option"

datatype 'h node = Node (ndata: "'h nodeData") (children: "'h node list")

datatype radixError =
    ErrSetHandler bytes
  | ErrSetWildcardHandler bytes
  | ErrWildPathConflict bytes bytes bytes bytes
  | ErrWildcardConflict bytes bytes bytes bytes
  | ErrWildcardSlash bytes
  | ErrWildcardNotAtEnd bytes

datatype addOut = Added | AddErr radixError "nat list option" | AddPanic panic

abbreviation npath :: "'h node \<Rightarrow> bytes" where "npath n \<equiv> n_path (ndata n)"
abbreviation ntsr :: "'h node \<Rightarrow> bool" where "ntsr n \<equiv> n_tsr (ndata n)"
abbreviation nhandler :: "'h node \<Rightarrow> 'h option" where "nhandler n \<equiv> n_handler (ndata n)"

definition newNode :: "bytes \<Rightarrow> 'h node" where
  "newNode p = Node \<lparr>nType = NStatic, n_path = p, n_tsr = False, n_handler = None,
     n_hasWildChild = False, n_wildcard = None, n_paramKeys = [], n_paramRegex = None\<rparr> []"

text \<open>\<open>newNode("/")\<close> with \<open>tsr = true\<close>, the marker of a trailing-slash redirect.\<close>

definition tsrNode :: "'h node" where
  "tsrNode = Node ((ndata (newNode [slash]))\<lparr>n_tsr := True\<rparr>) []"

definition appendChild :: "'h node \<Rightarrow> 'h node \<Rightarrow> 'h node" where
  "appendChild c n = Node (ndata n) (children n @ [c])"

text \<open>An error of a child, seen from its parent: the node's position gains the child's index.\<close>

fun shiftOut :: "nat \<Rightarrow> addOut \<Rightarrow> addOut" where
  "shiftOut k (AddErr e (Some pos)) = AddErr e (Some (k # pos))"
| "shiftOut k out = out"

section \<open>clone, split, setHandler\<close>

text \<open>\<open>clone\<close> copies every field but \<open>hasWildChild\<close>, here and in the whole subtree.\<close>

fun clone :: "'h node \<Rightarrow> 'h node" where
  "clone (Node d cs) = Node (d\<lparr>n_hasWildChild := False\<rparr>) (map clone cs)"

fun splitNode :: "nat \<Rightarrow> 'h node \<Rightarrow> 'h node" where
  "splitNode i (Node d cs) =
     (let c = clone (Node d cs);
          cloneChild = Node ((ndata c)\<lparr>nType := NStatic, n_path := drop i (n_path d),
                               n_paramKeys := [], n_paramRegex := None\<rparr>) (children c)
      in Node (d\<lparr>n_path := take i (n_path d), n_handler := None, n_tsr := False, n_wildcard := None\<rparr>)
           [cloneChild])"

text \<open>The first child whose path is a single slash gets its redirect mark set.\<close>

fun markTSR :: "'h node list \<Rightarrow> 'h node list \<times> bool" where
  "markTSR [] = ([], False)"
| "markTSR (c # cs) =
     (if npath c \<noteq> [slash] then (let (cs', found) = markTSR cs in (c # cs', found))
      else (Node ((ndata c)\<lparr>n_tsr := True\<rparr>) (children c) # cs, True))"

definition setHandler :: "'h \<Rightarrow> bytes \<Rightarrow> 'h node \<Rightarrow> 'h node \<times> addOut" where
  "setHandler h fullPath n =
     (if nhandler n \<noteq> None \<or> ntsr n then (n, AddErr (ErrSetHandler fullPath) (Some []))
      else let (cs, foundTSR) = markTSR (children n);
               cs' = (if npath n \<noteq> [slash] \<and> \<not> foundTSR then cs @ [tsrNode] else cs)
           in (Node ((ndata n)\<lparr>n_handler := Some h\<rparr>) cs', Added))"

section \<open>insert\<close>

definition wildPathConflict :: "bytes \<Rightarrow> bytes \<Rightarrow> 'h node \<Rightarrow> addOut" where
  "wildPathConflict path fullPath n =
     (case LastIndex fullPath path of
        None \<Rightarrow> AddPanic IndexOutOfRange
      | Some k \<Rightarrow> AddErr (ErrWildPathConflict (fst (Cut path [slash])) fullPath (npath n)
                          (take k fullPath @ npath n)) None)"

definition wildcardConflict :: "bytes \<Rightarrow> bytes \<Rightarrow> 'h nodeWildcard \<Rightarrow> addOut" where
  "wildcardConflict path fullPath w =
     (case LastIndex fullPath path of
        None \<Rightarrow> AddPanic IndexOutOfRange
      | Some k \<Rightarrow> AddErr (ErrWildcardConflict path fullPath (wc_path w)
                          (take k fullPath @ wc_path w)) None)"

text \<open>The end of \<open>insert\<close>: the child gets the handler and the redirect mark is placed.\<close>

definition insertLeaf :: "'h \<Rightarrow> 'h node \<Rightarrow> 'h node \<Rightarrow> 'h node \<times> addOut" where
  "insertLeaf h child n =
     (let child = Node ((ndata child)\<lparr>n_handler := Some h\<rparr>) (children child) in
      if npath child = [slash] then
        (appendChild child (Node ((ndata n)\<lparr>n_tsr := True\<rparr>) (children n)), Added)
      else if HasSuffix (npath child) [slash] then
        (let sp = splitNode (length (npath child) - 1) child
         in (appendChild (Node ((ndata sp)\<lparr>n_tsr := True\<rparr>) (children sp)) n, Added))
      else (appendChild (appendChild tsrNode child) n, Added))"

definition setWildcard :: "bytes \<Rightarrow> bytes \<Rightarrow> wildPath \<Rightarrow> 'h \<Rightarrow> 'h node \<Rightarrow> 'h node \<times> addOut" where
  "setWildcard path fullPath wp h n =
     (case n_wildcard (ndata n) of
        Some w \<Rightarrow> if wc_path w = path then (n, AddErr (ErrSetWildcardHandler fullPath) (Some []))
                  else (n, wildcardConflict path fullPath w)
      | None \<Rightarrow> (Node ((ndata n)\<lparr>n_wildcard := Some \<lparr>wc_path = wp_path wp,
                    wc_paramKey = hd (wp_keys wp), wc_handler = h\<rparr>\<rparr>) (children n), Added))"

definition insertWildcard :: "bytes \<Rightarrow> bytes \<Rightarrow> wildPath \<Rightarrow> 'h \<Rightarrow> 'h node \<Rightarrow> 'h node \<times> addOut" where
  "insertWildcard path fullPath wp h n =
     (let end = segmentEndIndex path True in
      if length path \<noteq> end then (n, AddErr (ErrWildcardNotAtEnd fullPath) None)
      else if npath n = [] then (n, AddPanic IndexOutOfRange)
      else if last (npath n) \<noteq> slash then (n, AddErr (ErrWildcardSlash fullPath) None)
      else if npath n \<noteq> [slash] then
        (let sp = splitNode (length (npath n) - 1) n;
             (c, out) = setWildcard path fullPath wp h (hd (children sp))
         in (Node ((ndata sp)\<lparr>n_tsr := True\<rparr>) [c], shiftOut 0 out))
      else setWildcard path fullPath wp h n)"

definition paramChild :: "bytes \<Rightarrow> wildPath \<Rightarrow> 'h node" where
  "paramChild path wp =
     Node ((ndata (newNode (take (segmentEndIndex path True) path)))\<lparr>nType := NParam,
             n_paramKeys := wp_keys wp, n_paramRegex := wp_regex wp\<rparr>) []"

function insertNode :: "regexp \<Rightarrow> bytes \<Rightarrow> bytes \<Rightarrow> 'h \<Rightarrow> 'h node \<Rightarrow> 'h node \<times> addOut" where
  "insertNode rx path fullPath h n =
     (case findWildPath rx path fullPath of
        Inl p \<Rightarrow> (n, AddPanic p)
      | Inr None \<Rightarrow> insertLeaf h (newNode path) n
      | Inr (Some wp) \<Rightarrow>
          if wp_start wp > 0 then
            (let (child, out) = insertNode rx (drop (wp_start wp) path) fullPath h
                                  (newNode (take (wp_start wp) path))
             in (appendChild child n, shiftOut (length (children n)) out))
          else if wp_pType wp = NWildcard then insertWildcard path fullPath wp h n
          else
            (let n = Node ((ndata n)\<lparr>n_hasWildChild := True\<rparr>) (children n);
                 rest = drop (wp_end wp) path in
             if rest \<noteq> [] then
               (let (child, out) = insertNode rx rest fullPath h (paramChild path wp)
                in (appendChild child n, shiftOut (length (children n)) out))
             else insertLeaf h (paramChild path wp) n))"
  by pat_completeness auto
termination
  by (relation "measure (\<lambda>(rx, path, fp, h, n). length path)") (auto dest!: findWildPath_range)

declare insertNode.simps [simp del]

section \<open>add\<close>

text \<open>The loop of \<open>add\<close>: index of the first child that shares a prefix, and the prefix length.\<close>

fun firstCommon :: "bytes \<Rightarrow> 'h node list \<Rightarrow> (nat \<times> nat) option" where
  "firstCommon path [] = None"
| "firstCommon path (c # cs) =
     (if longestCommonPrefix path (npath c) \<noteq> 0 then Some (0, longestCommonPrefix path (npath c))
      else map_option (\<lambda>(k, i). (Suc k, i)) (firstCommon path cs))"

lemma firstCommon_Some:
  "firstCommon path cs = Some (k, i) \<Longrightarrow>
   k < length cs \<and> i = longestCommonPrefix path (npath (cs ! k)) \<and> 0 < i"
  by (induction cs arbitrary: k) (auto split: if_splits)

text \<open>The statements after the \<open>switch\<close>: the child is where the path ends.\<close>

definition addHere :: "bytes \<Rightarrow> bytes \<Rightarrow> 'h \<Rightarrow> nat \<Rightarrow> 'h node \<Rightarrow> 'h node \<Rightarrow> 'h node \<times> addOut" where
  "addHere path fullPath h k child n =
     (let (c, out) = setHandler h fullPath child;
          d = (if path = [slash] then (ndata n)\<lparr>n_tsr := True\<rparr> else ndata n)
      in (Node d ((children n)[k := c]), shiftOut k out))"

function addNode :: "regexp \<Rightarrow> bytes \<Rightarrow> bytes \<Rightarrow> 'h \<Rightarrow> 'h node \<Rightarrow> 'h node \<times> addOut" where
  "addNode rx path fullPath h n =
     (if path = [] then setHandler h fullPath n
      else case firstCommon path (children n) of
        None \<Rightarrow> insertNode rx path fullPath h n
      | Some (k, i) \<Rightarrow>
          (let child = children n ! k in
           case nType (ndata child) of
             NStatic \<Rightarrow>
               (let child = (if length (npath child) > i then splitNode i child else child) in
                if length path > i then
                  (let (c, out) = addNode rx (drop i path) fullPath h child
                   in (Node (ndata n) ((children n)[k := c]), shiftOut k out))
                else addHere path fullPath h k child n)
           | NParam \<Rightarrow>
               (case findWildPath rx path fullPath of
                  Inl p \<Rightarrow> (n, AddPanic p)
                | Inr None \<Rightarrow> (n, AddPanic NilDereference)
                | Inr (Some wp) \<Rightarrow>
                    if length path = wp_end wp \<and> wp_start wp = 0 \<and> wp_pType wp = NParam \<and>
                       nhandler child \<noteq> None then
                      (n, if npath child = path then AddErr (ErrSetHandler fullPath) (Some [k])
                          else wildPathConflict path fullPath child)
                    else if length path > i then
                      (if npath child = wp_path wp then
                         (let (c, out) = addNode rx (drop i path) fullPath h child
                          in (Node (ndata n) ((children n)[k := c]), shiftOut k out))
                       else insertNode rx path fullPath h n)
                    else addHere path fullPath h k child n)
           | _ \<Rightarrow> addHere path fullPath h k child n))"
  by pat_completeness auto
termination
  by (relation "measure (\<lambda>(rx, path, fp, h, n). length path)") (auto dest!: firstCommon_Some)

declare addNode.simps [simp del]

section \<open>getFromChild\<close>

type_synonym uvals = "bytes \<rightharpoonup> bytes"

definition SetUserValue :: "uvals option \<Rightarrow> bytes \<Rightarrow> bytes \<Rightarrow> uvals option" where
  "SetUserValue ctx key v = map_option (\<lambda>m. m(key \<mapsto> v)) ctx"

text \<open>The pairs of submatch bounds as strings; a bound of -1 (group not matched) is a slice panic.\<close>

fun submatches :: "bytes \<Rightarrow> int list \<Rightarrow> panic + bytes list" where
  "submatches path (a # b # index) =
     (if 0 \<le> a \<and> a \<le> b \<and> b \<le> int (length path) then
        (case submatches path index of
           Inl p \<Rightarrow> Inl p
         | Inr vs \<Rightarrow> Inr (take (nat b - nat a) (drop (nat a) path) # vs))
      else Inl IndexOutOfRange)"
| "submatches path _ = Inr []"

definition findEndIndexAndValues ::
  "regexp \<Rightarrow> bytes \<Rightarrow> bytes \<Rightarrow> panic + (int \<times> bytes list) option" where
  "findEndIndexAndValues rx pattern path =
     (case rx_find rx pattern path of
        [] \<Rightarrow> Inr None
      | [_] \<Rightarrow> Inl IndexOutOfRange
      | _ # end # index \<Rightarrow>
          (case submatches path index of
             Inl p \<Rightarrow> Inl p
           | Inr vs \<Rightarrow> Inr (Some (end, vs))))"

fun saveValues :: "uvals option \<Rightarrow> bytes list \<Rightarrow> bytes list \<Rightarrow> panic + uvals option" where
  "saveValues ctx [] vs = Inr ctx"
| "saveValues ctx (k # ks) [] = Inl IndexOutOfRange"
| "saveValues ctx (k # ks) (v # vs) = saveValues (SetUserValue ctx k v) ks vs"

definition saveParamValues ::
  "uvals option \<Rightarrow> bytes list \<Rightarrow> bytes \<Rightarrow> bytes list option \<Rightarrow> panic + uvals option" where
  "saveParamValues ctx keys segment values =
     (if ctx = None then Inr ctx
      else case values of
        None \<Rightarrow> (case keys of [] \<Rightarrow> Inl IndexOutOfRange | k # _ \<Rightarrow> Inr (SetUserValue ctx k segment))
      | Some vs \<Rightarrow> saveValues ctx keys vs)"

datatype 'h getRes = GetPanic panic | Got "'h option" bool "uvals option"

text \<open>How much of the path a parameter child takes, and its values; \<open>Inr None\<close> tries the next child.\<close>

definition paramMatch :: "regexp \<Rightarrow> bytes option \<Rightarrow> bytes \<Rightarrow> panic + (int \<times> bytes list option) option" where
  "paramMatch rx regex path =
     (let end = segmentEndIndex path False in
      case regex of
        None \<Rightarrow> Inr (Some (int end, None))
      | Some re \<Rightarrow>
          (case findEndIndexAndValues rx re (take end path) of
             Inl p \<Rightarrow> Inl p
           | Inr None \<Rightarrow> Inr None
           | Inr (Some (e, vs)) \<Rightarrow> if e = -1 then Inr None else Inr (Some (e, Some vs))))"

fun getFromChild :: "regexp \<Rightarrow> 'h node \<Rightarrow> bytes \<Rightarrow> uvals option \<Rightarrow> 'h getRes"
  and getChildren ::
    "regexp \<Rightarrow> 'h node list \<Rightarrow> 'h nodeWildcard option \<Rightarrow> bytes \<Rightarrow> uvals option \<Rightarrow> 'h getRes" where
  "getFromChild rx (Node d cs) path ctx = getChildren rx cs (n_wildcard d) path ctx"
| "getChildren rx [] wc path ctx =
     (case wc of
        Some w \<Rightarrow> Got (Some (wc_handler w)) False (SetUserValue ctx (wc_paramKey w) path)
      | None \<Rightarrow> Got None False ctx)"
| "getChildren rx (Node d cc # cs) wc path ctx =
     (let child = Node d cc; next = getChildren rx cs wc path in
      case nType d of
        NStatic \<Rightarrow>
          (if path = [] \<or> n_path d = [] then GetPanic IndexOutOfRange
           else if hd path \<noteq> hd (n_path d) then next ctx
           else if length path > length (n_path d) then
             (if take (length (n_path d)) path \<noteq> n_path d then next ctx
              else case getFromChild rx child (drop (length (n_path d)) path) ctx of
                GetPanic p \<Rightarrow> GetPanic p
              | Got h tsr ctx' \<Rightarrow> if h \<noteq> None \<or> tsr then Got h tsr ctx' else next ctx')
           else if path = n_path d then
             (if n_tsr d then Got None True ctx
              else case n_handler d of
                Some h \<Rightarrow> Got (Some h) False ctx
              | None \<Rightarrow>
                  (case n_wildcard d of
                     Some w \<Rightarrow> Got (Some (wc_handler w)) False (SetUserValue ctx (wc_paramKey w) [])
                   | None \<Rightarrow> Got None False ctx))
           else next ctx)
      | NParam \<Rightarrow>
          (case paramMatch rx (n_paramRegex d) path of
             Inl p \<Rightarrow> GetPanic p
           | Inr None \<Rightarrow> next ctx
           | Inr (Some (end, values)) \<Rightarrow>
               if end < 0 then GetPanic IndexOutOfRange
               else if int (length path) > end then
                 (case getFromChild rx child (drop (nat end) path) ctx of
                    GetPanic p \<Rightarrow> GetPanic p
                  | Got h tsr ctx' \<Rightarrow>
                      if tsr then Got None True ctx'
                      else if h \<noteq> None then
                        (case saveParamValues ctx' (n_paramKeys d) (take (nat end) path) values of
                           Inl p \<Rightarrow> GetPanic p
                         | Inr ctx'' \<Rightarrow> Got h False ctx'')
                      else next ctx')
               else if int (length path) = end then
                 (if n_tsr d then Got None True ctx
                  else case n_handler d of
                    None \<Rightarrow> next ctx
                  | Some h \<Rightarrow>
                      (case saveParamValues ctx (n_paramKeys d) (take (nat end) path) values of
                         Inl p \<Rightarrow> GetPanic p
                       | Inr ctx' \<Rightarrow> Got (Some h) False ctx'))
               else next ctx)
      | _ \<Rightarrow> GetPanic InvalidNodeType)"

section \<open>find and findFromChild\<close>

text \<open>
  The lookup that ignores case writes the path it follows to a buffer and takes back what it wrote
  when a branch fails. \<open>bufferRemoveString\<close> cuts the buffer and panics below its start.
\<close>

datatype findRes = FindPanic panic | FindRes bool bool bytes

definition bufferRemoveString :: "bytes \<Rightarrow> bytes \<Rightarrow> panic + bytes" where
  "bufferRemoveString buf s =
     (if length s \<le> length buf then Inr (take (length buf - length s) buf) else Inl IndexOutOfRange)"

definition afterRemove :: "bytes \<Rightarrow> bytes \<Rightarrow> (bytes \<Rightarrow> findRes) \<Rightarrow> findRes" where
  "afterRemove buf s k =
     (case bufferRemoveString buf s of Inl p \<Rightarrow> FindPanic p | Inr buf' \<Rightarrow> k buf')"

lemma afterRemove_cong [fundef_cong]:
  "buf = buf' \<Longrightarrow> s = s' \<Longrightarrow> (\<And>b. k b = k' b) \<Longrightarrow> afterRemove buf s k = afterRemove buf' s' k'"
  by (simp add: afterRemove_def split: sum.splits)

fun find :: "regexp \<Rightarrow> (rune \<Rightarrow> rune \<Rightarrow> bool) \<Rightarrow> 'h node \<Rightarrow> bytes \<Rightarrow> bytes \<Rightarrow> findRes"
  and findChildren ::
    "regexp \<Rightarrow> (rune \<Rightarrow> rune \<Rightarrow> bool) \<Rightarrow> 'h node list \<Rightarrow> 'h nodeWildcard option \<Rightarrow> bytes \<Rightarrow> bytes \<Rightarrow> findRes"
where
  "find rx uf (Node d cs) path buf =
     (if length path > length (n_path d) then
        (if \<not> EqualFold uf (take (length (n_path d)) path) (n_path d) then FindRes False False buf
         else case findChildren rx uf cs (n_wildcard d) (drop (length (n_path d)) path)
                     (buf @ n_path d) of
           FindPanic p \<Rightarrow> FindPanic p
         | FindRes found tsr buf' \<Rightarrow>
             if found then FindRes found tsr buf'
             else afterRemove buf' (n_path d) (FindRes False False))
      else if EqualFold uf path (n_path d) then
        (if n_tsr d then
           (if n_path d = [slash] then afterRemove (buf @ n_path d) (n_path d) (FindRes True True)
            else FindRes True True (buf @ n_path d @ [slash]))
         else if n_handler d \<noteq> None then FindRes True False (buf @ n_path d)
         else afterRemove (buf @ n_path d) (n_path d) (FindRes False False))
      else FindRes False False buf)"
| "findChildren rx uf [] wc path buf =
     (if wc \<noteq> None then FindRes True False (buf @ path) else FindRes False False buf)"
| "findChildren rx uf (Node d cc # cs) wc path buf =
     (case nType d of
        NStatic \<Rightarrow>
          (case find rx uf (Node d cc) path buf of
             FindPanic p \<Rightarrow> FindPanic p
           | FindRes found tsr buf' \<Rightarrow>
               if found then FindRes found tsr buf' else findChildren rx uf cs wc path buf')
      | NParam \<Rightarrow>
          (case paramMatch rx (n_paramRegex d) path of
             Inl p \<Rightarrow> FindPanic p
           | Inr None \<Rightarrow> findChildren rx uf cs wc path buf
           | Inr (Some (end, _)) \<Rightarrow>
               if end < 0 \<or> int (length path) < end then FindPanic IndexOutOfRange
               else
                 (let seg = take (nat end) path; buf1 = buf @ seg in
                  if int (length path) > end then
                    (case findChildren rx uf cc (n_wildcard d) (drop (nat end) path) buf1 of
                       FindPanic p \<Rightarrow> FindPanic p
                     | FindRes found tsr buf2 \<Rightarrow>
                         if found then FindRes found tsr buf2
                         else afterRemove buf2 seg (findChildren rx uf cs wc path))
                  else if n_tsr d then FindRes True True (buf1 @ [slash])
                  else if n_handler d \<noteq> None then FindRes True False buf1
                  else afterRemove buf1 seg (findChildren rx uf cs wc path)))
      | _ \<Rightarrow> FindPanic InvalidNodeType)"

section \<open>sort\<close>

definition Less :: "'h node \<Rightarrow> 'h node \<Rightarrow> bool" where
  "Less a b \<longleftrightarrow>
     (if nType (ndata a) < nType (ndata b) then True
      else if nType (ndata b) < nType (ndata a) then False
      else length (children b) < length (children a))"

text \<open>
  \<open>sort.Sort\<close> promises a permutation that is ordered by \<open>Less\<close>, not a stable one: it is a parameter
  \<open>srt\<close>, with that promise stated in the locale \<open>node_sort\<close>. \<open>insertionSort\<close> is the routine the
  package runs on slices of at most twelve elements.
\<close>

fun sortNode :: "('h node list \<Rightarrow> 'h node list) \<Rightarrow> 'h node \<Rightarrow> 'h node" where
  "sortNode srt (Node d cs) = Node d (srt (map (sortNode srt) cs))"

fun bubbleDown :: "'h node \<Rightarrow> 'h node list \<Rightarrow> 'h node list" where
  "bubbleDown x [] = [x]"
| "bubbleDown x (y # ys) = (if Less x y then y # bubbleDown x ys else x # y # ys)"

definition insertionSort :: "'h node list \<Rightarrow> 'h node list" where
  "insertionSort xs = rev (foldl (\<lambda>acc x. bubbleDown x acc) [] xs)"

locale node_sort =
  fixes srt :: "'h node list \<Rightarrow> 'h node list"
  assumes mset_srt: "mset (srt cs) = mset cs"
    and sorted_srt: "sorted_wrt (\<lambda>a b. \<not> Less b a) (srt cs)"
begin

lemma set_srt: "set (srt cs) = set cs"
  using mset_srt [of cs] by (metis set_mset_mset)

lemma length_srt: "length (srt cs) = length cs"
  using mset_srt [of cs] by (metis size_mset)

lemma length_children_sort: "length (children (sortNode srt n)) = length (children n)"
  by (cases n) (simp add: length_srt)

end

lemma mset_bubbleDown: "mset (bubbleDown x xs) = add_mset x (mset xs)"
  by (induction xs) auto

lemma Less_trans: "\<not> Less b a \<Longrightarrow> \<not> Less c b \<Longrightarrow> \<not> Less c a"
  by (auto simp: Less_def split: if_splits)

lemma Less_asym: "Less a b \<Longrightarrow> \<not> Less b a"
  by (auto simp: Less_def split: if_splits)

lemma sorted_bubbleDown:
  "sorted_wrt (\<lambda>a b. \<not> Less a b) xs \<Longrightarrow> sorted_wrt (\<lambda>a b. \<not> Less a b) (bubbleDown x xs)"
proof (induction xs)
  case (Cons y ys)
  show ?case
  proof (cases "Less x y")
    case True
    have "set (bubbleDown x ys) = insert x (set ys)"
      by (metis mset_bubbleDown set_mset_add_mset_insert set_mset_mset)
    with Cons True show ?thesis by (auto dest: Less_asym)
  next
    case False
    with Cons.prems show ?thesis by (auto dest: Less_trans)
  qed
qed simp

lemma sorted_wrt_rev_flip: "sorted_wrt P (rev xs) \<longleftrightarrow> sorted_wrt (\<lambda>a b. P b a) xs"
  by (simp add: sorted_wrt_rev)

lemma insertionSort_acc:
  "sorted_wrt (\<lambda>a b. \<not> Less a b) acc \<Longrightarrow>
   sorted_wrt (\<lambda>a b. \<not> Less a b) (foldl (\<lambda>acc x. bubbleDown x acc) acc xs) \<and>
   mset (foldl (\<lambda>acc x. bubbleDown x acc) acc xs) = mset acc + mset xs"
  by (induction xs arbitrary: acc) (auto simp: sorted_bubbleDown mset_bubbleDown)

interpretation insertion: node_sort insertionSort
  by unfold_locales
    (simp_all add: insertionSort_def insertionSort_acc sorted_wrt_rev_flip)

end
