(* ===== verification/Radix_Tree.thy ===== *)
theory Radix_Tree
  imports Radix_Node
begin

text \<open>
  The tree of \<open>src/internal/radix/tree.go\<close>: \<open>New\<close>, \<open>Add\<close>, \<open>Get\<close> and \<open>FindCaseInsensitivePath\<close> over the
  nodes of \<^theory_text>\<open>Radix_Node\<close>. \<open>Add\<close> returns the tree it leaves behind and whether it returned or
  panicked; the panic with a \<open>radixError\<close> carries the error.
\<close>

record 'h Tree =
  root :: "'h node"
  Mutable :: bool

datatype treeOut = TreeOk | TreePanic panic | TreePanicErr radixError

definition New :: "'h Tree" where
  "New = \<lparr>root = Node ((ndata (newNode []))\<lparr>nType := NRoot\<rparr>) [], Mutable = False\<rparr>"

text \<open>The node at a position, and the tree with the node at a position changed.\<close>

fun nodeAt :: "nat list \<Rightarrow> 'h node \<Rightarrow> 'h node" where
  "nodeAt [] n = n"
| "nodeAt (k # ks) n = nodeAt ks (children n ! k)"

fun updateAt :: "nat list \<Rightarrow> ('h node \<Rightarrow> 'h node) \<Rightarrow> 'h node \<Rightarrow> 'h node" where
  "updateAt [] f n = f n"
| "updateAt (k # ks) f n = Node (ndata n) ((children n)[k := updateAt ks f (children n ! k)])"

definition replaceHandler :: "'h \<Rightarrow> 'h node \<Rightarrow> 'h node" where
  "replaceHandler h n = Node ((ndata n)\<lparr>n_handler := Some h\<rparr>) (children n)"

definition replaceWildcardHandler :: "'h \<Rightarrow> 'h node \<Rightarrow> 'h node" where
  "replaceWildcardHandler h n =
     Node ((ndata n)\<lparr>n_wildcard := map_option (wc_handler_update (\<lambda>_. h)) (n_wildcard (ndata n))\<rparr>)
       (children n)"

text \<open>The error branch of \<open>Add\<close>: a mutable tree replaces the handler of the conflicting node.\<close>

definition addError :: "'h \<Rightarrow> radixError \<Rightarrow> nat list option \<Rightarrow> 'h Tree \<Rightarrow> 'h Tree \<times> treeOut" where
  "addError h e pos t =
     (if \<not> Mutable t then (t, TreePanicErr e)
      else case pos of
        None \<Rightarrow> (t, TreePanic NilDereference)
      | Some ps \<Rightarrow>
          if ntsr (nodeAt ps (root t)) then (t, TreePanicErr e)
          else (case e of
            ErrSetHandler _ \<Rightarrow> (t\<lparr>root := updateAt ps (replaceHandler h) (root t)\<rparr>, TreeOk)
          | ErrSetWildcardHandler _ \<Rightarrow>
              (t\<lparr>root := updateAt ps (replaceWildcardHandler h) (root t)\<rparr>, TreeOk)
          | _ \<Rightarrow> (t, TreePanicErr e)))"

text \<open>The end of \<open>Add\<close>: the first route replaces the empty root, and the nodes are reordered.\<close>

definition addFinish :: "('h node list \<Rightarrow> 'h node list) \<Rightarrow> 'h Tree \<Rightarrow> 'h Tree \<times> treeOut" where
  "addFinish srt t =
     (if npath (root t) = [] then
        (case children (root t) of
           [] \<Rightarrow> (t, TreePanic IndexOutOfRange)
         | c # _ \<Rightarrow> (t\<lparr>root := sortNode srt (Node ((ndata c)\<lparr>nType := NRoot\<rparr>) (children c))\<rparr>, TreeOk))
      else (t\<lparr>root := sortNode srt (root t)\<rparr>, TreeOk))"

definition Add ::
  "regexp \<Rightarrow> ('h node list \<Rightarrow> 'h node list) \<Rightarrow> bytes \<Rightarrow> 'h option \<Rightarrow> 'h Tree \<Rightarrow> 'h Tree \<times> treeOut"
where
  "Add rx srt path handler t =
     (if \<not> HasPrefix path [slash] then (t, TreePanic (PathMustBeginWithSlash path))
      else case handler of
        None \<Rightarrow> (t, TreePanic NilHandler)
      | Some h \<Rightarrow>
          (let i = longestCommonPrefix path (npath (root t));
               r = (if i > 0 \<and> length (npath (root t)) > i then splitNode i (root t) else root t);
               (r', out) = addNode rx (drop i path) path h r;
               t' = t\<lparr>root := r'\<rparr>
           in case out of
                AddPanic p \<Rightarrow> (t', TreePanic p)
              | AddErr e pos \<Rightarrow> addError h e pos t'
              | Added \<Rightarrow> addFinish srt t'))"

definition Get :: "regexp \<Rightarrow> 'h Tree \<Rightarrow> bytes \<Rightarrow> uvals option \<Rightarrow> 'h getRes" where
  "Get rx t path ctx =
     (let r = root t in
      if length path > length (npath r) then
        (if take (length (npath r)) path \<noteq> npath r then Got None False ctx
         else getFromChild rx r (drop (length (npath r)) path) ctx)
      else if path = npath r then
        (if ntsr r then Got None True ctx
         else case nhandler r of
           Some h \<Rightarrow> Got (Some h) False ctx
         | None \<Rightarrow>
             (case n_wildcard (ndata r) of
                Some w \<Rightarrow> Got (Some (wc_handler w)) False (SetUserValue ctx (wc_paramKey w) [])
              | None \<Rightarrow> Got None False ctx))
      else Got None False ctx)"

text \<open>\<open>FindCaseInsensitivePath\<close> returns whether the lookup succeeded and the buffer.\<close>

definition FindCaseInsensitivePath ::
  "regexp \<Rightarrow> (rune \<Rightarrow> rune \<Rightarrow> bool) \<Rightarrow> 'h Tree \<Rightarrow> bytes \<Rightarrow> bool \<Rightarrow> bytes \<Rightarrow> panic + (bool \<times> bytes)"
where
  "FindCaseInsensitivePath rx uf t path fixTrailingSlash buf =
     (case find rx uf (root t) path buf of
        FindPanic p \<Rightarrow> Inl p
      | FindRes found tsr buf' \<Rightarrow>
          if \<not> found \<or> (tsr \<and> \<not> fixTrailingSlash) then Inr (False, []) else Inr (True, buf'))"

end
