(* ===== verification/Radix_Static.thy ===== *)
theory Radix_Static
  imports Radix_Tree
begin

text \<open>
  Trees that hold static routes only: \<open>routes\<close> lists what is registered below a node, \<open>staticNode\<close> and
  \<open>staticBody\<close> are the invariant of such a node with its redirect markers, and \<open>static_get\<close> shows that
  \<open>getFromChild\<close> returns exactly the registered handler. The rest are the lemmas on \<open>clone\<close>, \<open>split\<close>,
  \<open>setHandler\<close> and \<open>insert\<close> that the proof about \<open>add\<close> (\<^theory_text>\<open>Radix_StaticAdd\<close>) uses. The invariant
  is stated for a relation between siblings: \<open>ordSib\<close> is the order lookup needs, \<open>symSib\<close> what is left
  of it until the nodes are sorted again.
\<close>

section \<open>The routes a tree holds\<close>

fun routes :: "'h node \<Rightarrow> (bytes \<times> 'h) list" where
  "routes (Node d cs) =
     (case n_handler d of Some h \<Rightarrow> [([], h)] | None \<Rightarrow> []) @
     concat (map (\<lambda>c. map (\<lambda>(s, h). (npath c @ s, h)) (routes c)) cs)"

definition pathRoutes :: "'h node \<Rightarrow> (bytes \<times> 'h) set" where
  "pathRoutes n = (\<lambda>(s, h). (npath n @ s, h)) ` set (routes n)"

lemma pathRoutes_iff: "(p, h) \<in> pathRoutes n \<longleftrightarrow> (\<exists>s. p = npath n @ s \<and> (s, h) \<in> set (routes n))"
  by (auto simp: pathRoutes_def)

lemma set_routes: "set (routes n) =
    (case nhandler n of Some h \<Rightarrow> {([], h)} | None \<Rightarrow> {}) \<union> \<Union> (pathRoutes ` set (children n))"
  by (cases n) (auto simp: pathRoutes_def split: option.splits)

declare routes.simps [simp del]

section \<open>Well-formed static trees\<close>

definition leafTSR :: "'h node \<Rightarrow> bool" where
  "leafTSR c \<longleftrightarrow> npath c = [slash] \<and> ntsr c \<and> nhandler c = None \<and> children c = []"

definition ordSib :: "'h node \<Rightarrow> 'h node \<Rightarrow> bool" where
  "ordSib a b \<longleftrightarrow> hd (npath a) \<noteq> hd (npath b) \<or> (leafTSR b \<and> children a \<noteq> [])"

definition symSib :: "'h node \<Rightarrow> 'h node \<Rightarrow> bool" where
  "symSib a b \<longleftrightarrow> ordSib a b \<or> ordSib b a"

text \<open>\<open>staticNode P\<close>: an inner node of a static tree whose sibling lists are related by \<open>P\<close>.\<close>

fun staticNode :: "('h node \<Rightarrow> 'h node \<Rightarrow> bool) \<Rightarrow> 'h node \<Rightarrow> bool" where
  "staticNode P (Node d cs) \<longleftrightarrow>
     nType d = NStatic \<and> n_path d \<noteq> [] \<and> ascii (n_path d) \<and> n_wildcard d = None \<and>
     (n_tsr d \<longrightarrow> n_path d = [slash] \<and> n_handler d = None) \<and>
     (n_handler d \<noteq> None \<longrightarrow> last (n_path d) \<noteq> slash) \<and>
     (cs = [] \<longrightarrow> n_tsr d) \<and>
     (\<forall>c \<in> set cs. staticNode P c \<and> (ntsr c \<longrightarrow> n_handler d \<noteq> None)) \<and> sorted_wrt P cs"

definition staticBody :: "('h node \<Rightarrow> 'h node \<Rightarrow> bool) \<Rightarrow> 'h node \<Rightarrow> bool" where
  "staticBody P n \<longleftrightarrow> n_wildcard (ndata n) = None \<and>
     (\<forall>c \<in> set (children n). staticNode P c \<and> (ntsr c \<longrightarrow> nhandler n \<noteq> None)) \<and>
     sorted_wrt P (children n)"

definition staticRoot :: "('h node \<Rightarrow> 'h node \<Rightarrow> bool) \<Rightarrow> 'h node \<Rightarrow> bool" where
  "staticRoot P n \<longleftrightarrow> HasPrefix (npath n) [slash] \<and> ascii (npath n) \<and> \<not> ntsr n \<and>
     (nhandler n \<noteq> None \<longrightarrow> npath n = [slash] \<or> last (npath n) \<noteq> slash) \<and>
     (children n = [] \<longrightarrow> npath n = [slash]) \<and> staticBody P n"

lemma staticNode_iff: "staticNode P n \<longleftrightarrow>
     nType (ndata n) = NStatic \<and> npath n \<noteq> [] \<and> ascii (npath n) \<and>
     (ntsr n \<longrightarrow> npath n = [slash] \<and> nhandler n = None) \<and>
     (nhandler n \<noteq> None \<longrightarrow> last (npath n) \<noteq> slash) \<and>
     (children n = [] \<longrightarrow> ntsr n) \<and> staticBody P n"
  by (cases n) (auto simp: staticBody_def)

declare staticNode.simps [simp del]

lemma staticNode_ne: "staticNode P n \<Longrightarrow> npath n \<noteq> []"
  by (simp add: staticNode_iff)

lemma leafTSR_iff: "staticNode P c \<Longrightarrow> children c = [] \<longleftrightarrow> leafTSR c"
  by (auto simp: leafTSR_def staticNode_iff)

lemma routes_leafTSR: "leafTSR c \<Longrightarrow> pathRoutes c = {}"
  using set_routes [of c] by (simp add: leafTSR_def pathRoutes_def)

lemma leafTSR_tsrNode [simp]: "leafTSR tsrNode"
  by (simp add: leafTSR_def tsrNode_def newNode_def)

lemma staticNode_tsrNode [simp]: "staticNode P tsrNode"
  by (simp add: staticNode.simps tsrNode_def newNode_def)

lemma tsrNode_sel [simp]: "npath tsrNode = [slash]" "ntsr tsrNode" "nhandler tsrNode = None"
    "children tsrNode = []"
  by (simp_all add: tsrNode_def newNode_def)

lemma pathRoutes_hd: "(p, h) \<in> pathRoutes c \<Longrightarrow> npath c \<noteq> [] \<Longrightarrow> p \<noteq> [] \<and> hd p = hd (npath c)"
  by (auto simp: pathRoutes_iff)

lemma ord_imp_sym: "ordSib a b \<Longrightarrow> symSib a b"
  by (simp add: symSib_def)

lemma staticNode_mono:
  "(\<And>a b. P a b \<Longrightarrow> Q a b) \<Longrightarrow> staticNode P n \<Longrightarrow> staticNode Q n"
proof (induction P n rule: staticNode.induct)
  case (1 P d cs)
  then show ?case
    by (auto simp: staticNode.simps intro: sorted_wrt_mono_rel)
qed

section \<open>Lookup in a well-formed static tree\<close>

lemma sib_no_route:
  assumes "sorted_wrt ordSib (c # cs)" "\<forall>x \<in> set cs. staticNode ordSib x"
    "p \<noteq> []" "hd p = hd (npath c)" "x \<in> set cs"
  shows "(p, h) \<notin> pathRoutes x"
proof
  assume r: "(p, h) \<in> pathRoutes x"
  from assms have "npath x \<noteq> []" by (auto simp: staticNode_iff)
  with r have "hd p = hd (npath x)" by (auto dest: pathRoutes_hd)
  with assms have "leafTSR x" by (auto simp: ordSib_def)
  with r routes_leafTSR show False by blast
qed

text \<open>What a lookup below a node promises: \<open>rs\<close> are the routes, \<open>tq\<close> the redirect sources.\<close>

definition getOk :: "'h getRes \<Rightarrow> uvals option \<Rightarrow> bytes \<Rightarrow> (bytes \<times> 'h) set \<Rightarrow> bytes set \<Rightarrow> bool" where
  "getOk r ctx p rs tq \<longleftrightarrow> (\<exists>ho t. r = Got ho t ctx \<and> (\<forall>h. ho = Some h \<longleftrightarrow> (p, h) \<in> rs) \<and>
     (ho \<noteq> None \<longrightarrow> \<not> t) \<and> (t \<longrightarrow> (\<exists>q \<in> tq. p = q @ [slash])))"

definition tsrSources :: "'h node list \<Rightarrow> bytes set" where
  "tsrSources cs = (if \<exists>c \<in> set cs. ntsr c then {[]} else {}) \<union> fst ` \<Union> (pathRoutes ` set cs)"

lemma getOk_mono: "getOk r ctx p rs tq \<Longrightarrow> tq \<subseteq> tq' \<Longrightarrow> getOk r ctx p rs tq'"
  unfolding getOk_def by blast

lemma getOk_routes_cong:
  "(\<And>h. (p, h) \<in> rs \<longleftrightarrow> (p, h) \<in> rs') \<Longrightarrow> getOk r ctx p rs tq = getOk r ctx p rs' tq"
  by (simp add: getOk_def)

lemma tsrSources_Cons: "tsrSources cs \<subseteq> tsrSources (c # cs)"
  by (auto simp: tsrSources_def)

lemma tsrSources_route: "(r, h) \<in> set (routes c) \<Longrightarrow> npath c @ r \<in> tsrSources (c # cs)"
proof -
  assume "(r, h) \<in> set (routes c)"
  then have "(npath c @ r, h) \<in> pathRoutes c" by (auto simp: pathRoutes_iff)
  then have "npath c @ r \<in> fst ` pathRoutes c" by (metis fst_conv imageI)
  then show ?thesis by (auto simp: tsrSources_def image_Un)
qed

lemma getOk_next:
  assumes "getOk r ctx p (\<Union> (pathRoutes ` set cs)) (tsrSources cs)" "\<And>h. (p, h) \<notin> pathRoutes c"
  shows "getOk r ctx p (\<Union> (pathRoutes ` set (c # cs))) (tsrSources (c # cs))"
proof -
  from assms(1) have "getOk r ctx p (\<Union> (pathRoutes ` set cs)) (tsrSources (c # cs))"
    using tsrSources_Cons by (rule getOk_mono)
  with assms(2) show ?thesis unfolding getOk_def by auto
qed

lemma static_get:
  fixes n :: "'h node" and cs :: "'h node list"
  shows "staticBody ordSib n \<Longrightarrow> p \<noteq> [] \<Longrightarrow>
   getOk (getFromChild rx n p ctx) ctx p (set (routes n)) (fst ` set (routes n))"
  "wc = None \<Longrightarrow> \<forall>c \<in> set cs. staticNode ordSib c \<Longrightarrow> sorted_wrt ordSib cs \<Longrightarrow> p \<noteq> [] \<Longrightarrow>
   getOk (getChildren rx cs wc p ctx) ctx p (\<Union> (pathRoutes ` set cs)) (tsrSources cs)"
proof (induction rx n p ctx and rx cs wc p ctx rule: getFromChild_getChildren.induct)
  case (1 rx d cs p ctx)
  then have "getOk (getChildren rx cs (n_wildcard d) p ctx) ctx p (\<Union> (pathRoutes ` set cs)) (tsrSources cs)"
    by (auto simp: staticBody_def)
  moreover have "\<And>h. (p, h) \<in> \<Union> (pathRoutes ` set cs) \<longleftrightarrow> (p, h) \<in> set (routes (Node d cs))"
    using "1.prems"(2) by (auto simp: set_routes split: option.splits)
  moreover have "tsrSources cs \<subseteq> fst ` set (routes (Node d cs))"
    using "1.prems"(1) unfolding tsrSources_def set_routes [of "Node d cs"]
    by (cases "n_handler d") (auto simp: staticBody_def image_Un)
  ultimately show ?case
    using getOk_mono getOk_routes_cong [of p "\<Union> (pathRoutes ` set cs)" "set (routes (Node d cs))"]
    by fastforce
next
  case (2 rx wc p ctx)
  then show ?case by (auto simp: getOk_def)
next
  case (3 rx d cc cs wc p ctx)
  let ?c = "Node d cc"
  let ?all = "\<Union> (pathRoutes ` set (?c # cs))"
  from "3.prems" have st: "staticNode ordSib ?c" by simp
  then have ty: "nType d = NStatic" and ne: "n_path d \<noteq> []" and wn: "n_wildcard d = None"
    by (simp_all add: staticNode.simps)
  note sib = sib_no_route [OF "3.prems"(3) _ "3.prems"(4)]
  have nxt: "getOk (getChildren rx cs wc p ctx) ctx p ?all (tsrSources (?c # cs))"
    if "\<And>h. (p, h) \<notin> pathRoutes ?c"
    using getOk_next [OF _ that] "3.IH"(1) [OF refl, of ctx] "3.prems" by simp
  show ?case
  proof (cases "take (length (n_path d)) p = n_path d")
    case False
    then have "\<And>h. (p, h) \<notin> pathRoutes ?c" by (auto simp: pathRoutes_iff)
    from nxt [OF this] False ty ne "3.prems"(4) show ?thesis by (auto simp: Let_def)
  next
    case True
    then obtain q where q: "p = n_path d @ q" by (metis append_take_drop_id)
    have hd: "hd p = hd (npath ?c)" using q ne by simp
    then have only: "\<And>h. (p, h) \<in> ?all \<longleftrightarrow> (q, h) \<in> set (routes ?c)"
      using sib "3.prems"(2) q by (auto simp: pathRoutes_iff)
    show ?thesis
    proof (cases "q = []")
      case True
      have "(\<forall>h. ([], h) \<in> set (routes ?c) \<longleftrightarrow> n_handler d = Some h)"
        using st unfolding set_routes [of ?c]
        by (cases "n_handler d") (auto simp: staticNode_iff [of _ ?c] staticBody_def pathRoutes_iff staticNode_ne)
      with only True q ty ne wn st show ?thesis
        by (auto simp: getOk_def Let_def tsrSources_def staticNode_iff split: option.splits)
    next
      case False
      have "getOk (getFromChild rx ?c q ctx) ctx q (set (routes ?c)) (fst ` set (routes ?c))"
        using "3.IH"(2) [OF refl refl ty] q ne False st by (auto simp: staticNode_iff)
      then obtain ho t where g: "getFromChild rx ?c q ctx = Got ho t ctx"
        "\<forall>h. ho = Some h \<longleftrightarrow> (q, h) \<in> set (routes ?c)" "ho \<noteq> None \<longrightarrow> \<not> t"
        "t \<longrightarrow> (\<exists>r \<in> fst ` set (routes ?c). q = r @ [slash])"
        by (auto simp: getOk_def)
      show ?thesis
      proof (cases "ho \<noteq> None \<or> t")
        case True
        then have eq: "getChildren rx (?c # cs) wc p ctx = Got ho t ctx"
          using g(1) q ne ty False by (auto simp: Let_def simp del: getFromChild.simps)
        have "t \<longrightarrow> (\<exists>r \<in> tsrSources (?c # cs). p = r @ [slash])"
          using g(4) q tsrSources_route [of _ _ ?c cs] by fastforce
        with eq g(2,3) only show ?thesis by (auto simp: getOk_def)
      next
        case no: False
        then have "\<And>h. (p, h) \<notin> pathRoutes ?c" using g(2) q by (auto simp: pathRoutes_iff)
        from nxt [OF this] no g(1) q ne ty False show ?thesis
          by (auto simp: Let_def simp del: getFromChild.simps)
      qed
    qed
  qed
qed

section \<open>Clone and split\<close>

lemma clone_sel [simp]: "ndata (clone n) = (ndata n)\<lparr>n_hasWildChild := False\<rparr>"
    "children (clone n) = map clone (children n)"
  by (cases n; simp)+

lemma clone_sib [simp]: "leafTSR (clone n) = leafTSR n" "ordSib (clone a) (clone b) = ordSib a b"
  by (simp_all add: leafTSR_def ordSib_def)

lemma staticNode_clone: "staticNode ordSib n \<Longrightarrow> staticNode ordSib (clone n)"
proof (induction n)
  case (Node d cs)
  then show ?case by (simp add: staticNode.simps sorted_wrt_map)
qed

lemma routes_clone [simp]: "set (routes (clone n)) = set (routes n)"
proof (induction n)
  case (Node d cs)
  then have "pathRoutes ` clone ` set cs = pathRoutes ` set cs"
    by (force simp: pathRoutes_def image_iff)
  then show ?case by (simp add: set_routes [of "Node d cs"] set_routes [of "clone (Node d cs)"]
        del: clone.simps)
qed

lemma split_sel:
  "npath (splitNode i n) = take i (npath n)" "nhandler (splitNode i n) = None"
  "\<not> ntsr (splitNode i n)" "children (splitNode i n) \<noteq> []"
  by (cases n; simp add: Let_def)+

lemma routes_split:
  assumes "i \<le> length (npath n)"
  shows "pathRoutes (splitNode i n) = pathRoutes n"
proof (cases n)
  case (Node d cs)
  let ?c = "hd (children (splitNode i n))"
  have rc: "set (routes ?c) = set (routes n)"
    using routes_clone [of n] unfolding set_routes [of ?c] set_routes [of "clone n"]
    by (simp add: Node Let_def)
  have "set (routes (splitNode i n)) = pathRoutes ?c"
    unfolding set_routes [of "splitNode i n"] by (simp add: Node Let_def)
  moreover have "npath ?c = drop i (npath n)" by (simp add: Node Let_def)
  ultimately have "set (routes (splitNode i n)) = (\<lambda>(s, h). (drop i (npath n) @ s, h)) ` set (routes n)"
    using rc by (simp add: pathRoutes_def)
  then show ?thesis
    unfolding pathRoutes_def split_sel by (simp add: image_image case_prod_beta flip: append_assoc)
qed

lemma static_split:
  assumes n: "staticNode ordSib n" and i: "0 < i" "i < length (npath n)"
  shows "staticNode ordSib (splitNode i n)"
proof (cases n)
  case (Node d cs)
  from n i have tsr: "\<not> n_tsr d" by (auto simp: Node staticNode.simps)
  from staticNode_clone [OF n] tsr i have
    "staticNode ordSib (Node (d\<lparr>n_hasWildChild := False, nType := NStatic, n_path := drop i (n_path d),
       n_paramKeys := [], n_paramRegex := None\<rparr>) (map clone cs))"
    by (auto simp: Node staticNode.simps)
  with n i tsr show ?thesis by (simp add: Node Let_def staticNode.simps)
qed

section \<open>Setting a handler\<close>

lemma pathRoutes_tsr [simp]: "pathRoutes (Node (d\<lparr>n_tsr := b\<rparr>) cs) = pathRoutes (Node d cs)"
  unfolding pathRoutes_def set_routes [of "Node (d\<lparr>n_tsr := b\<rparr>) cs"] set_routes [of "Node d cs"]
  by simp

lemma markTSR_same:
  "map npath (fst (markTSR cs)) = map npath cs" "map pathRoutes (fst (markTSR cs)) = map pathRoutes cs"
  "\<not> snd (markTSR cs) \<Longrightarrow> fst (markTSR cs) = cs \<and> (\<forall>c \<in> set cs. npath c \<noteq> [slash])"
proof (induction cs)
  case (Cons c cs)
  { case 1 show ?case using Cons.IH(1) by (auto split: prod.splits) }
  { case 2 show ?case using Cons.IH(2) by (cases c) (auto split: prod.splits) }
  { case 3 then show ?case using Cons.IH(3) by (auto split: prod.splits if_splits) }
qed auto

lemma markTSR_static:
  "\<forall>c \<in> set cs. staticNode P c \<Longrightarrow> \<forall>c \<in> set (fst (markTSR cs)). staticNode P c"
proof (induction cs)
  case (Cons c cs)
  then show ?case by (cases c) (auto simp: staticNode.simps split: prod.splits)
qed simp

lemma staticBody_sym: "staticBody ordSib n \<Longrightarrow> staticBody symSib n"
  by (auto simp: staticBody_def intro: staticNode_mono ord_imp_sym sorted_wrt_mono_rel)

lemma sorted_map_npath:
  "sorted_wrt (\<lambda>a b. hd (npath a) \<noteq> hd (npath b)) cs \<longleftrightarrow> sorted_wrt (\<lambda>p q. hd p \<noteq> hd q) (map npath cs)"
  by (simp add: sorted_wrt_map)

lemma static_setHandler:
  assumes n: "staticBody ordSib n" and no: "\<not> ntsr n" "nhandler n = None"
  shows "\<exists>cs. setHandler h fp n = (Node ((ndata n)\<lparr>n_handler := Some h\<rparr>) cs, Added) \<and>
    staticBody symSib (Node ((ndata n)\<lparr>n_handler := Some h\<rparr>) cs) \<and>
    set (routes (Node ((ndata n)\<lparr>n_handler := Some h\<rparr>) cs)) = insert ([], h) (set (routes n)) \<and>
    (npath n \<noteq> [slash] \<longrightarrow> cs \<noteq> [])"
proof -
  let ?ms = "fst (markTSR (children n))"
  define cs where "cs = (if npath n \<noteq> [slash] \<and> \<not> snd (markTSR (children n)) then ?ms @ [tsrNode] else ?ms)"
  have eq: "setHandler h fp n = (Node ((ndata n)\<lparr>n_handler := Some h\<rparr>) cs, Added)"
    using no by (simp add: setHandler_def cs_def split: prod.splits)
  have st: "\<forall>c \<in> set (children n). staticNode ordSib c \<and> \<not> ntsr c"
    using n no by (auto simp: staticBody_def)
  then have kids: "\<forall>c \<in> set (children n). children c \<noteq> []" by (auto simp: staticNode_iff)
  then have "sorted_wrt (\<lambda>a b. hd (npath a) \<noteq> hd (npath b)) (children n)"
    using n by (auto simp: staticBody_def ordSib_def leafTSR_def elim!: sorted_wrt_mono_rel [rotated])
  then have "sorted_wrt (\<lambda>a b. hd (npath a) \<noteq> hd (npath b)) ?ms"
    unfolding sorted_map_npath markTSR_same .
  then have so: "sorted_wrt symSib ?ms"
    by (auto simp: symSib_def ordSib_def elim!: sorted_wrt_mono_rel [rotated])
  have "\<forall>c \<in> set (children n). staticNode symSib c"
    using st by (blast intro: staticNode_mono ord_imp_sym)
  then have sm: "\<forall>c \<in> set ?ms. staticNode symSib c" by (rule markTSR_static)
  have app: "symSib c tsrNode" if "c \<in> set ?ms" "?ms = children n" for c
    using kids that by (auto simp: symSib_def ordSib_def)
  have body: "staticBody symSib (Node ((ndata n)\<lparr>n_handler := Some h\<rparr>) cs)"
    using n so sm app markTSR_same(3) [of "children n"]
    by (auto simp: staticBody_def cs_def sorted_wrt_append)
  have "\<Union> (pathRoutes ` set ?ms) = \<Union> (pathRoutes ` set (children n))"
    using arg_cong [OF markTSR_same(2), of set "children n"] by simp
  then have "\<Union> (pathRoutes ` set cs) = \<Union> (pathRoutes ` set (children n))"
    by (simp add: cs_def routes_leafTSR)
  then have rts: "set (routes (Node ((ndata n)\<lparr>n_handler := Some h\<rparr>) cs)) = insert ([], h) (set (routes n))"
    unfolding set_routes [of n] set_routes [of "Node ((ndata n)\<lparr>n_handler := Some h\<rparr>) cs"]
    using no by simp
  have "npath n \<noteq> [slash] \<longrightarrow> cs \<noteq> []"
    using arg_cong [OF markTSR_same(1), of length "children n"]
    by (cases "children n = []") (auto simp: cs_def)
  with eq body rts show ?thesis by blast
qed

section \<open>Inserting a new branch\<close>

definition routeLeaf :: "'h \<Rightarrow> bytes \<Rightarrow> 'h node" where
  "routeLeaf h p = Node ((ndata (newNode p))\<lparr>n_handler := Some h\<rparr>) [tsrNode]"

lemma routeLeaf_sel [simp]: "npath (routeLeaf h p) = p" "children (routeLeaf h p) = [tsrNode]"
    "\<not> ntsr (routeLeaf h p)" "nhandler (routeLeaf h p) = Some h"
  by (simp_all add: routeLeaf_def newNode_def)

lemma routeLeaf_routes [simp]: "pathRoutes (routeLeaf h p) = {(p, h)}"
  unfolding pathRoutes_def [of "routeLeaf h p"] set_routes [of "routeLeaf h p"]
  by (simp add: routes_leafTSR)

lemma static_routeLeaf:
  "p \<noteq> [] \<Longrightarrow> ascii p \<Longrightarrow> last p \<noteq> slash \<Longrightarrow> staticNode P (routeLeaf h p)"
  by (simp add: routeLeaf_def newNode_def staticNode.simps(1) [of P _ "[tsrNode]"])

lemma insertNode_static:
  assumes "p \<noteq> []" "lbrace \<notin> set p" "last p \<noteq> slash"
  shows "insertNode rx p fp h n = (Node (ndata n) (children n @ [routeLeaf h p]), Added)"
  using assms
  by (auto simp: insertNode.simps insertLeaf_def newNode_def routeLeaf_def appendChild_def HasSuffix_byte Let_def)

lemma static_insert:
  assumes "staticBody ordSib n" "p \<noteq> []" "ascii p" "last p \<noteq> slash"
    and "\<forall>c \<in> set (children n). hd (npath c) \<noteq> hd p"
  shows "staticBody symSib (Node (ndata n) (children n @ [routeLeaf h p]))"
    "set (routes (Node (ndata n) (children n @ [routeLeaf h p]))) = insert (p, h) (set (routes n))"
proof -
  from assms show "staticBody symSib (Node (ndata n) (children n @ [routeLeaf h p]))"
    using staticBody_sym [OF assms(1)]
    by (auto simp: staticBody_def sorted_wrt_append static_routeLeaf symSib_def ordSib_def)
  show "set (routes (Node (ndata n) (children n @ [routeLeaf h p]))) = insert (p, h) (set (routes n))"
    unfolding set_routes [of n] set_routes [of "Node (ndata n) (children n @ [routeLeaf h p])"]
    by (auto split: option.splits)
qed

end
