(* ===== verification/Radix_StaticAdd.thy ===== *)
theory Radix_StaticAdd
  imports Radix_Static
begin

text \<open>
  \<open>add\<close> on a tree of static routes: a path that is registered is refused and the tree is unchanged, a
  free one is added (\<open>addSpec\<close>, \<open>static_add\<close>). A position \<open>posRoute\<close> is where the handler of a path is.
\<close>

section \<open>Adding a route below a node\<close>

lemma staticNode_ascii: "staticNode P n \<Longrightarrow> ascii (npath n)"
  by (simp add: staticNode_iff)

lemma routes_here:
  assumes "staticBody P n"
  shows "([], x) \<in> set (routes n) \<longleftrightarrow> nhandler n = Some x"
proof -
  have "([], x) \<notin> pathRoutes c" if "c \<in> set (children n)" for c
  proof -
    from assms that have "npath c \<noteq> []" by (auto simp: staticBody_def dest: staticNode_ne)
    then show ?thesis using pathRoutes_hd [of "[]" x c] by auto
  qed
  then show ?thesis unfolding set_routes [of n] by (auto split: option.splits)
qed

lemma firstCommon_None: "firstCommon p cs = None \<longleftrightarrow> (\<forall>c \<in> set cs. longestCommonPrefix p (npath c) = 0)"
  by (induction cs) auto

lemma firstCommon_first:
  "firstCommon p cs = Some (k, i) \<Longrightarrow> j < k \<Longrightarrow> longestCommonPrefix p (npath (cs ! j)) = 0"
proof (induction cs arbitrary: k j)
  case (Cons c cs)
  then show ?case by (cases j) (auto split: if_splits)
qed simp

lemma Union_list_update:
  assumes "k < length xs" "f c = insert x (f (xs ! k))"
  shows "\<Union> (f ` set (xs[k := c])) = insert x (\<Union> (f ` set xs))"
proof -
  have "\<Union> (f ` set xs) = \<Union> (f ` set (take k xs @ xs ! k # drop (Suc k) xs))"
    using assms(1) by (simp add: id_take_nth_drop [symmetric])
  then show ?thesis using assms by (auto simp: upd_conv_take_nth_drop)
qed

lemma replace_sibling:
  assumes so: "sorted_wrt ordSib cs" and k: "k < length cs"
    and first: "\<And>j. j < k \<Longrightarrow> hd (npath (cs ! j)) \<noteq> hd (npath (cs ! k))"
    and c: "hd (npath c) = hd (npath (cs ! k))" "children c \<noteq> []"
  shows "sorted_wrt symSib (cs[k := c])"
  unfolding sorted_wrt_iff_nth_less
proof (intro allI impI)
  fix i j assume ij: "i < j" "j < length (cs[k := c])"
  then have o: "ordSib (cs ! i) (cs ! j)" using so by (simp add: sorted_wrt_iff_nth_less)
  consider "i = k" | "j = k" | "i \<noteq> k" "j \<noteq> k" by blast
  then show "symSib (cs[k := c] ! i) (cs[k := c] ! j)"
  proof cases
    case 1
    with ij o c show ?thesis by (auto simp: symSib_def ordSib_def)
  next
    case 2
    with ij k first [of i] c show ?thesis by (auto simp: symSib_def ordSib_def)
  next
    case 3
    with ij o show ?thesis by (auto simp: symSib_def)
  qed
qed

lemma replace_child:
  assumes n: "staticBody ordSib n" and k: "k < length (children n)"
    and first: "\<And>j. j < k \<Longrightarrow> hd (npath (children n ! j)) \<noteq> hd (npath (children n ! k))"
    and c: "staticNode symSib c" "hd (npath c) = hd (npath (children n ! k))" "children c \<noteq> []"
      "ntsr c \<longrightarrow> nhandler n \<noteq> None"
    and r: "pathRoutes c = insert (p, h) (pathRoutes (children n ! k))"
  shows "staticBody symSib (Node (ndata n) ((children n)[k := c]))"
    "set (routes (Node (ndata n) ((children n)[k := c]))) = insert (p, h) (set (routes n))"
proof -
  let ?m = "Node (ndata n) ((children n)[k := c])"
  have "sorted_wrt symSib ((children n)[k := c])"
    using n k first c by (auto intro!: replace_sibling simp: staticBody_def)
  with staticBody_sym [OF n] c show "staticBody symSib ?m"
    by (auto simp: staticBody_def dest!: subsetD [OF set_update_subset_insert])
  show "set (routes ?m) = insert (p, h) (set (routes n))"
    using Union_list_update [of k "children n" pathRoutes, OF k r]
    unfolding set_routes [of n] set_routes [of ?m] by (simp add: Un_commute)
qed

fun posRoute :: "nat list \<Rightarrow> 'h node \<Rightarrow> bytes \<Rightarrow> bool" where
  "posRoute [] n p \<longleftrightarrow> p = [] \<and> nhandler n \<noteq> None"
| "posRoute (k # ks) n p \<longleftrightarrow> k < length (children n) \<and>
     (\<exists>q. p = npath (children n ! k) @ q \<and> posRoute ks (children n ! k) q)"

text \<open>The child that \<open>add\<close> chooses, split at the common prefix.\<close>

lemma chosen_child:
  assumes n: "staticBody ordSib n" and p: "p \<noteq> []" "ascii p"
    and f: "firstCommon p (children n) = Some (k, i)"
  defines "c \<equiv> children n ! k"
  defines "c1 \<equiv> (if length (npath c) > i then splitNode i c else c)"
  shows "k < length (children n)" "staticNode ordSib c" "staticNode ordSib c1" "0 < i" "i \<le> length p"
    "npath c1 = take i p" "hd (npath c) = hd p" "hd (npath c1) = hd p" "pathRoutes c1 = pathRoutes c"
    "nType (ndata c) = NStatic" "ntsr c1 \<longrightarrow> nhandler n \<noteq> None"
    "\<And>j. j < k \<Longrightarrow> hd (npath (children n ! j)) \<noteq> hd (npath c)"
    "\<And>x h. x \<in> set (children n) \<Longrightarrow> (p, h) \<in> pathRoutes x \<Longrightarrow> x = c"
    "\<And>h. (p, h) \<in> pathRoutes c \<Longrightarrow> c1 = c"
proof -
  from firstCommon_Some [OF f] have k: "k < length (children n)"
    and i: "i = longestCommonPrefix p (npath c)" "0 < i" by (auto simp: c_def)
  show "k < length (children n)" "0 < i" by fact+
  from k have cin: "c \<in> set (children n)" by (simp add: c_def)
  with n show sc: "staticNode ordSib c" by (auto simp: staticBody_def)
  have as: "\<And>x. x \<in> set (children n) \<Longrightarrow> ascii (npath x) \<and> npath x \<noteq> []"
    using n by (auto simp: staticBody_def dest: staticNode_ne staticNode_ascii)
  note sp = lcp_split [OF p(2) _ i(1) [symmetric]]
  from sp as cin show ip: "i \<le> length p" by blast
  from sp as cin have ic: "i \<le> length (npath c)" and tk: "take i p = take i (npath c)" by blast+
  show hc: "hd (npath c) = hd p" using i lcp_pos_iff [OF p(2), of "npath c"] as cin by auto
  show "npath c1 = take i p" using ic tk by (auto simp: c1_def split_sel)
  then show "hd (npath c1) = hd p" using i(2) by simp
  show "staticNode ordSib c1" using sc static_split [OF sc i(2)] by (simp add: c1_def)
  show "pathRoutes c1 = pathRoutes c" by (simp add: c1_def routes_split)
  show "nType (ndata c) = NStatic" using sc by (simp add: staticNode_iff)
  show "ntsr c1 \<longrightarrow> nhandler n \<noteq> None"
    using n cin by (auto simp: c1_def split_sel staticBody_def)
  show first: "hd (npath (children n ! j)) \<noteq> hd (npath c)" if "j < k" for j
    using firstCommon_first [OF f that] lcp_pos_iff [OF p(2), of "npath (children n ! j)"]
      as [of "children n ! j"] that k p(1) hc by auto
  show "x = c" if x: "x \<in> set (children n)" "(p, h) \<in> pathRoutes x" for x h
  proof (rule ccontr)
    assume "x \<noteq> c"
    with x obtain j where j: "j < length (children n)" "x = children n ! j" "j \<noteq> k"
      by (metis c_def in_set_conv_nth)
    from x as have "hd (npath x) = hd p" by (auto dest: pathRoutes_hd)
    with first [of j] hc j have "k < j" by force
    with n j k have "ordSib c x" by (simp add: staticBody_def sorted_wrt_iff_nth_less c_def)
    with hc \<open>hd (npath x) = hd p\<close> have "leafTSR x" by (simp add: ordSib_def)
    with x(2) routes_leafTSR show False by blast
  qed
  show "c1 = c" if "(p, h) \<in> pathRoutes c" for h
  proof -
    from that obtain s where s: "p = npath c @ s" by (auto simp: pathRoutes_iff)
    then have "longest_common_prefix p (npath c) = npath c"
      by (intro prefix_order.antisym longest_common_prefix_prefix2 longest_common_prefix_max_prefix) auto
    with i(1) have "i = length (npath c)" using longestCommonPrefix_ascii [OF p(2)] as cin by simp
    then show ?thesis by (simp add: c1_def)
  qed
qed

text \<open>
  The specification of \<open>add\<close> on static routes: an occupied path is refused with the position of the
  route and an unchanged tree; a free path is added, and only it.
\<close>

definition addSpec :: "('h node \<times> addOut) \<Rightarrow> bytes \<Rightarrow> bytes \<Rightarrow> 'h \<Rightarrow> 'h node \<Rightarrow> bool" where
  "addSpec res p fp h n \<longleftrightarrow>
     (if p \<in> fst ` set (routes n)
      then \<exists>pos. res = (n, AddErr (ErrSetHandler fp) (Some pos)) \<and> posRoute pos n p
      else \<exists>cs. res = (Node (ndata n) cs, Added) \<and> cs \<noteq> [] \<and> staticBody symSib (Node (ndata n) cs) \<and>
             set (routes (Node (ndata n) cs)) = insert (p, h) (set (routes n)))"

lemma route_below:
  assumes "staticBody ordSib n" "p \<noteq> []"
  shows "p \<in> fst ` set (routes n) \<longleftrightarrow> (\<exists>c \<in> set (children n). \<exists>h. (p, h) \<in> pathRoutes c)"
  unfolding set_routes [of n] using assms(2) by (force split: option.splits)

lemma static_add_here:
  assumes n: "staticBody ordSib n" and p: "p \<noteq> []" "ascii p" "last p \<noteq> slash"
    and f: "firstCommon p (children n) = Some (k, length p)"
  defines "c \<equiv> children n ! k"
  defines "c1 \<equiv> (if length (npath c) > length p then splitNode (length p) c else c)"
  shows "addSpec (addHere p fp h k c1 n) p fp h n"
proof -
  note ch = chosen_child [OF n p(1,2) f, folded c_def, folded c1_def]
  have np: "npath c1 = p" using ch(6) by simp
  then have nt: "\<not> ntsr c1" using ch(3) p(3) by (auto simp: staticNode_iff)
  have ps: "p \<noteq> [slash]" using p(3) by auto
  have b1: "staticBody ordSib c1" using ch(3) by (simp add: staticNode_iff)
  have cin: "c \<in> set (children n)" using ch(1) by (simp add: c_def)
  have own: "(p, x) \<in> pathRoutes c \<longleftrightarrow> nhandler c1 = Some x" for x
    using routes_here [OF b1] by (simp add: pathRoutes_iff np flip: ch(9))
  have inr: "p \<in> fst ` set (routes n) \<longleftrightarrow> nhandler c1 \<noteq> None"
  proof
    assume "p \<in> fst ` set (routes n)"
    then obtain x y where "x \<in> set (children n)" "(p, y) \<in> pathRoutes x"
      using route_below [OF n p(1)] by blast
    with ch(13) have "(p, y) \<in> pathRoutes c" by blast
    then show "nhandler c1 \<noteq> None" using own by simp
  next
    assume "nhandler c1 \<noteq> None"
    then obtain y where "(p, y) \<in> pathRoutes c" using own by blast
    with cin show "p \<in> fst ` set (routes n)" using route_below [OF n p(1)] by blast
  qed
  show ?thesis
  proof (cases "nhandler c1 \<noteq> None")
    case True
    then have "c1 = c" by (auto simp: c1_def split_sel)
    with True ps np ch(1) have "addHere p fp h k c1 n = (n, AddErr (ErrSetHandler fp) (Some [k]))"
      by (cases n) (simp add: addHere_def setHandler_def c_def)
    moreover have "posRoute [k] n p" using True \<open>c1 = c\<close> np ch(1) by (simp add: c_def)
    ultimately show ?thesis using True inr by (auto simp: addSpec_def)
  next
    case False
    then obtain cs where s: "setHandler h fp c1 = (Node ((ndata c1)\<lparr>n_handler := Some h\<rparr>) cs, Added)"
      "staticBody symSib (Node ((ndata c1)\<lparr>n_handler := Some h\<rparr>) cs)"
      "set (routes (Node ((ndata c1)\<lparr>n_handler := Some h\<rparr>) cs)) = insert ([], h) (set (routes c1))"
      "cs \<noteq> []"
      using static_setHandler [OF b1 nt, of h fp] np ps by auto
    let ?c = "Node ((ndata c1)\<lparr>n_handler := Some h\<rparr>) cs"
    have sc: "staticNode symSib ?c" using ch(3) s(2,4) nt np p by (simp add: staticNode_iff)
    have "pathRoutes ?c = insert (p, h) (pathRoutes c1)" using s(3) np by (simp add: pathRoutes_def)
    then have pr: "pathRoutes ?c = insert (p, h) (pathRoutes c)" unfolding ch(9) .
    have hd: "hd (npath ?c) = hd (npath c)" "\<not> ntsr ?c" using ch(7,8) nt by simp_all
    note rc = replace_child [OF n ch(1), folded c_def, OF ch(12) sc hd(1) _ _ pr]
    have "staticBody symSib (Node (ndata n) ((children n)[k := ?c]))"
      using s(4) hd(2) by (intro rc) simp_all
    moreover have "set (routes (Node (ndata n) ((children n)[k := ?c]))) = insert (p, h) (set (routes n))"
      using s(4) hd(2) by (intro rc) simp_all
    moreover have "addHere p fp h k c1 n = (Node (ndata n) ((children n)[k := ?c]), Added)"
      using s(1) ps by (simp add: addHere_def)
    moreover have "(children n)[k := ?c] \<noteq> []" using ch(1) by auto
    ultimately show ?thesis using inr False by (simp add: addSpec_def)
  qed
qed

lemma static_add_below:
  assumes n: "staticBody ordSib n" and p: "p \<noteq> []" "ascii p" "last p \<noteq> slash"
    and f: "firstCommon p (children n) = Some (k, i)" and i: "i < length p"
  defines "c \<equiv> children n ! k"
  defines "c1 \<equiv> (if length (npath c) > i then splitNode i c else c)"
  assumes a: "addSpec (addNode rx (drop i p) fp h c1) (drop i p) fp h c1"
  shows "addSpec (addNode rx p fp h n) p fp h n"
proof -
  note ch = chosen_child [OF n p(1,2) f, folded c_def, folded c1_def]
  have eq: "addNode rx p fp h n = (let (c, out) = addNode rx (drop i p) fp h c1
      in (Node (ndata n) ((children n)[k := c]), shiftOut k out))"
    by (subst addNode.simps) (simp only: p(1) f option.case prod.case Let_def c_def [symmetric] ch(10)
        nodeType.case if_False i if_True c1_def)
  have ps: "p = npath c1 @ drop i p" using ch(6) by simp
  have own: "(p, x) \<in> pathRoutes c \<longleftrightarrow> (drop i p, x) \<in> set (routes c1)" for x
    unfolding ch(9) [symmetric] pathRoutes_iff using ps by (metis same_append_eq)
  have cin: "c \<in> set (children n)" using ch(1) by (simp add: c_def)
  have inr: "p \<in> fst ` set (routes n) \<longleftrightarrow> drop i p \<in> fst ` set (routes c1)"
  proof
    assume "p \<in> fst ` set (routes n)"
    then obtain x y where "x \<in> set (children n)" "(p, y) \<in> pathRoutes x"
      using route_below [OF n p(1)] by blast
    with ch(13) have "(p, y) \<in> pathRoutes c" by blast
    then show "drop i p \<in> fst ` set (routes c1)" using own by force
  next
    assume "drop i p \<in> fst ` set (routes c1)"
    then obtain y where "(p, y) \<in> pathRoutes c" using own by force
    with cin show "p \<in> fst ` set (routes n)" using route_below [OF n p(1)] by blast
  qed
  show ?thesis
  proof (cases "p \<in> fst ` set (routes n)")
    case True
    then obtain y where "(p, y) \<in> pathRoutes c" using inr own by force
    then have cc: "c1 = c" by (rule ch(14))
    from a True inr obtain pos where
      r: "addNode rx (drop i p) fp h c1 = (c1, AddErr (ErrSetHandler fp) (Some pos))"
        "posRoute pos c1 (drop i p)" by (auto simp: addSpec_def)
    have "addNode rx p fp h n = (n, AddErr (ErrSetHandler fp) (Some (k # pos)))"
      using r(1) unfolding eq cc by (cases n) (simp add: c_def)
    moreover have "posRoute (k # pos) n p" using r(2) ps ch(1) unfolding cc c_def by auto
    ultimately show ?thesis using True by (auto simp: addSpec_def)
  next
    case False
    with a inr obtain cs where s: "addNode rx (drop i p) fp h c1 = (Node (ndata c1) cs, Added)" "cs \<noteq> []"
      "staticBody symSib (Node (ndata c1) cs)"
      "set (routes (Node (ndata c1) cs)) = insert (drop i p, h) (set (routes c1))"
      by (auto simp: addSpec_def)
    let ?c = "Node (ndata c1) cs"
    have sc: "staticNode symSib ?c" using ch(3) s(2,3) by (simp add: staticNode_iff)
    have "pathRoutes ?c = insert (npath c1 @ drop i p, h) (pathRoutes c1)"
      unfolding pathRoutes_def s(4) by simp
    then have pr: "pathRoutes ?c = insert (p, h) (pathRoutes c)" unfolding ch(9) ps [symmetric] .
    have hd: "hd (npath ?c) = hd (npath c)" using ch(7,8) by simp
    note rc = replace_child [OF n ch(1), folded c_def, OF ch(12) sc hd _ _ pr]
    have "staticBody symSib (Node (ndata n) ((children n)[k := ?c]))"
      using s(2) ch(11) by (intro rc) simp_all
    moreover have "set (routes (Node (ndata n) ((children n)[k := ?c]))) = insert (p, h) (set (routes n))"
      using s(2) ch(11) by (intro rc) simp_all
    moreover have "addNode rx p fp h n = (Node (ndata n) ((children n)[k := ?c]), Added)"
      unfolding eq s(1) by simp
    moreover have "(children n)[k := ?c] \<noteq> []" using ch(1) by auto
    ultimately show ?thesis using False by (simp add: addSpec_def)
  qed
qed

lemma static_add:
  assumes "staticBody ordSib n" "p \<noteq> []" "ascii p" "lbrace \<notin> set p" "last p \<noteq> slash"
  shows "addSpec (addNode rx p fp h n) p fp h n"
  using assms
proof (induction "length p" arbitrary: p n rule: less_induct)
  case less
  note n = less.prems(1) and p = less.prems(2,3,5)
  show ?case
  proof (cases "firstCommon p (children n)")
    case None
    have heads: "\<forall>c \<in> set (children n). npath c \<noteq> [] \<and> hd (npath c) \<noteq> hd p"
    proof
      fix c assume "c \<in> set (children n)"
      with None n have "longestCommonPrefix p (npath c) = 0" "npath c \<noteq> []" "ascii (npath c)"
        by (auto simp: firstCommon_None staticBody_def dest: staticNode_ne staticNode_ascii)
      with lcp_pos_iff [OF p(2), of "npath c"] p(1) show "npath c \<noteq> [] \<and> hd (npath c) \<noteq> hd p" by auto
    qed
    have free: "p \<notin> fst ` set (routes n)"
    proof
      assume "p \<in> fst ` set (routes n)"
      then obtain x y where "x \<in> set (children n)" "(p, y) \<in> pathRoutes x"
        using route_below [OF n p(1)] by blast
      with heads show False by (metis pathRoutes_hd)
    qed
    have "addNode rx p fp h n = (Node (ndata n) (children n @ [routeLeaf h p]), Added)"
      using insertNode_static [OF p(1) less.prems(4) p(3)] by (subst addNode.simps) (simp add: None p(1))
    with static_insert [OF n p, of h] heads free show ?thesis by (simp add: addSpec_def)
  next
    case (Some ki)
    then obtain k i where f: "firstCommon p (children n) = Some (k, i)" by (cases ki) auto
    define c1 where "c1 = (if length (npath (children n ! k)) > i then splitNode i (children n ! k)
       else children n ! k)"
    note ch = chosen_child [OF n p(1,2) f, folded c1_def]
    show ?thesis
    proof (cases "i = length p")
      case True
      have "addNode rx p fp h n = addHere p fp h k c1 n"
        by (subst addNode.simps) (simp add: f p(1) ch(10) True c1_def Let_def)
      then show ?thesis using static_add_here [OF n p f [unfolded True], of fp h]
        unfolding c1_def True by simp
    next
      case False
      then have i: "i < length p" using ch(5) by simp
      have "staticBody ordSib c1" using ch(3) by (simp add: staticNode_iff)
      moreover have "length (drop i p) < length p" "drop i p \<noteq> []" "lbrace \<notin> set (drop i p)"
        using i ch(4) less.prems(4) by (auto dest: in_set_dropD)
      moreover have "ascii (drop i p)" using p(2) unfolding ascii_def by (auto dest: in_set_dropD)
      moreover have "last (drop i p) \<noteq> slash" using p(3) i by simp
      ultimately have "addSpec (addNode rx (drop i p) fp h c1) (drop i p) fp h c1"
        using less.hyps by blast
      then show ?thesis using static_add_below [OF n p f i] by (simp add: c1_def)
    qed
  qed
qed

end
