(* ===== verification/Radix_Routes.thy ===== *)
theory Radix_Routes
  imports Radix_StaticAdd
begin

text \<open>
  The tree of static routes as a finite map: \<open>Add\<close> inserts, \<open>Get\<close> looks up. \<open>staticTree\<close> is the
  invariant of a tree that holds static routes only, \<open>treeRoutes\<close> the routes it holds. Below it, the
  children of a node may have been put out of order by \<open>add\<close>; \<open>sort\<close> restores the order that lookup
  relies on (the marker of a redirect comes after the branch with the same first byte).
\<close>

section \<open>Sorting restores the sibling order\<close>

lemma symSib_sym: "symSib a b \<longleftrightarrow> symSib b a"
  by (auto simp: symSib_def)

lemma sorted_wrt_perm:
  assumes sym: "\<And>a b. P a b \<longleftrightarrow> P b a"
  shows "mset xs = mset ys \<Longrightarrow> sorted_wrt P xs \<Longrightarrow> sorted_wrt P ys"
proof (induction xs arbitrary: ys)
  case (Cons x xs)
  then have "x \<in> set ys" by (metis list.set_intros(1) set_mset_mset)
  then obtain as bs where ys: "ys = as @ x # bs" by (meson split_list)
  with Cons.prems(1) have m: "mset xs = mset (as @ bs)" by simp
  then have s: "set xs = set as \<union> set bs" by (metis set_append set_mset_mset)
  from Cons.IH [OF m] Cons.prems(2) have "sorted_wrt P (as @ bs)" by simp
  with ys s sym Cons.prems(2) show ?case by (auto simp: sorted_wrt_append)
qed simp

lemma staticNode_type: "staticNode P n \<Longrightarrow> nType (ndata n) = NStatic"
  by (simp add: staticNode_iff)

context node_sort
begin

lemma srt_Nil_iff [simp]: "srt cs = [] \<longleftrightarrow> cs = []"
  by (metis length_0_conv length_srt)

lemma sort_sel [simp]: "ndata (sortNode srt n) = ndata n"
    "children (sortNode srt n) = [] \<longleftrightarrow> children n = []"
  by (cases n; simp)+

lemma sort_sib [simp]: "leafTSR (sortNode srt n) = leafTSR n"
    "symSib (sortNode srt a) (sortNode srt b) = symSib a b"
  by (simp_all add: leafTSR_def symSib_def ordSib_def)

lemma sorted_ordSib:
  assumes "sorted_wrt symSib cs" "\<forall>c \<in> set cs. nType (ndata c) = NStatic"
  shows "sorted_wrt ordSib (srt cs)"
proof -
  have "sorted_wrt symSib (srt cs)"
    by (rule sorted_wrt_perm [OF symSib_sym mset_srt [symmetric] assms(1)])
  then have "sorted_wrt (\<lambda>a b. symSib a b \<and> \<not> Less b a) (srt cs)"
    using sorted_srt [of cs] by (simp add: sorted_wrt_iff_nth_less)
  then show ?thesis
  proof (rule sorted_wrt_mono_rel [rotated])
    fix a b assume ab: "a \<in> set (srt cs)" "b \<in> set (srt cs)" "symSib a b \<and> \<not> Less b a"
    then have "nType (ndata a) = NStatic" "nType (ndata b) = NStatic" using assms(2) set_srt by auto
    with ab(3) show "ordSib a b" by (auto simp: symSib_def ordSib_def Less_def leafTSR_def)
  qed
qed

lemma static_sort: "staticNode symSib n \<Longrightarrow> staticNode ordSib (sortNode srt n)"
proof (induction n)
  case (Node d cs)
  then have "sorted_wrt ordSib (srt (map (sortNode srt) cs))"
    by (intro sorted_ordSib) (auto simp: sorted_wrt_map staticNode.simps dest: staticNode_type)
  with Node show ?case by (auto simp: staticNode.simps set_srt)
qed

lemma routes_sort [simp]: "set (routes (sortNode srt n)) = set (routes n)"
proof (induction n)
  case (Node d cs)
  then have "pathRoutes (sortNode srt c) = pathRoutes c" if "c \<in> set cs" for c
    using that by (simp add: pathRoutes_def)
  then show ?case
    unfolding set_routes [of "sortNode srt (Node d cs)"] set_routes [of "Node d cs"]
    by (simp add: set_srt)
qed

lemma staticBody_sort:
  assumes "staticBody symSib n"
  shows "staticBody ordSib (sortNode srt n)"
proof (cases n)
  case (Node d cs)
  with assms have cs: "\<forall>c \<in> set cs. staticNode symSib c" "sorted_wrt symSib cs"
    by (simp_all add: staticBody_def)
  have "sorted_wrt ordSib (srt (map (sortNode srt) cs))"
    using cs(2) staticNode_type cs(1) by (intro sorted_ordSib) (fastforce simp: sorted_wrt_map)+
  with assms cs(1) show ?thesis by (auto simp: Node staticBody_def set_srt static_sort)
qed

end

section \<open>The tree as a map\<close>

definition treeRoutes :: "'h Tree \<Rightarrow> (bytes \<times> 'h) set" where
  "treeRoutes t = pathRoutes (root t)"

definition staticTree :: "'h Tree \<Rightarrow> bool" where
  "staticTree t \<longleftrightarrow> root t = root New \<or> staticRoot ordSib (root t)"

definition staticRoute :: "bytes \<Rightarrow> bool" where
  "staticRoute p \<longleftrightarrow> HasPrefix p [slash] \<and> ascii p \<and> lbrace \<notin> set p \<and> (p = [slash] \<or> last p \<noteq> slash)"

definition routePaths :: "'h Tree \<Rightarrow> bytes set" where
  "routePaths t = fst ` treeRoutes t"

lemma routes_New [simp]: "pathRoutes (root New) = {}"
  unfolding pathRoutes_def set_routes [of "root New"] by (simp add: New_def newNode_def)

lemma New_sel [simp]: "npath (root New) = []" "children (root New) = []" "nhandler (root New) = None"
    "n_wildcard (ndata (root New)) = None" "\<not> ntsr (root New)"
  by (simp_all add: New_def newNode_def)

lemma staticTree_New [simp]: "staticTree New" and treeRoutes_New [simp]: "treeRoutes New = {}"
  by (simp_all add: staticTree_def treeRoutes_def)

lemma staticTree_body: "staticTree t \<Longrightarrow> staticBody ordSib (root t)"
  by (auto simp: staticTree_def staticRoot_def) (simp add: staticBody_def)

lemma getOk_append:
  assumes "getOk r ctx q (set (routes n)) (fst ` set (routes n))"
  shows "getOk r ctx (npath n @ q) (pathRoutes n) (fst ` pathRoutes n)"
proof -
  have "(npath n @ q, h) \<in> pathRoutes n \<longleftrightarrow> (q, h) \<in> set (routes n)" for h
    by (simp add: pathRoutes_iff)
  moreover have "npath n @ q' \<in> fst ` pathRoutes n" if "q' \<in> fst ` set (routes n)" for q'
    using that by (force simp: pathRoutes_def)
  moreover obtain ho t where g: "r = Got ho t ctx" "\<forall>h. ho = Some h \<longleftrightarrow> (q, h) \<in> set (routes n)"
    "ho \<noteq> None \<longrightarrow> \<not> t" "t \<longrightarrow> (\<exists>s \<in> fst ` set (routes n). q = s @ [slash])"
    using assms unfolding getOk_def by blast
  moreover from calculation have "t \<longrightarrow> (\<exists>s \<in> fst ` pathRoutes n. npath n @ q = s @ [slash])"
    by (metis append_assoc)
  ultimately show ?thesis unfolding getOk_def by simp
qed

lemma static_Get:
  assumes t: "staticTree t"
  shows "getOk (Get rx t p ctx) ctx p (treeRoutes t) (routePaths t)"
proof -
  let ?r = "root t"
  note b = staticTree_body [OF t]
  consider (below) q where "p = npath ?r @ q" "q \<noteq> []" | (here) "p = npath ?r"
    | (off) "take (length (npath ?r)) p \<noteq> npath ?r"
    by (metis append_take_drop_id append_Nil2)
  then show ?thesis
  proof cases
    case below
    then have "Get rx t p ctx = getFromChild rx ?r q ctx" by (simp add: Get_def)
    with getOk_append [OF static_get(1) [OF b below(2)]] below show ?thesis
      by (simp add: treeRoutes_def routePaths_def)
  next
    case here
    have "Get rx t p ctx = Got (nhandler ?r) False ctx"
      using t b here unfolding staticTree_def staticRoot_def staticBody_def
      by (auto simp: Get_def Let_def split: option.splits)
    moreover have "(p, h) \<in> treeRoutes t \<longleftrightarrow> nhandler ?r = Some h" for h
      using routes_here [OF b] here by (simp add: treeRoutes_def pathRoutes_iff)
    ultimately show ?thesis by (auto simp: getOk_def)
  next
    case off
    then have "\<And>h. (p, h) \<notin> treeRoutes t" by (auto simp: treeRoutes_def pathRoutes_iff)
    moreover have "Get rx t p ctx = Got None False ctx" using off by (auto simp: Get_def Let_def)
    ultimately show ?thesis by (auto simp: getOk_def)
  qed
qed

lemma treeRoutes_unique:
  assumes "staticTree t" "(p, x) \<in> treeRoutes t" "(p, y) \<in> treeRoutes t"
  shows "x = y"
proof -
  obtain ho where "\<forall>h. ho = Some h \<longleftrightarrow> (p, h) \<in> treeRoutes t"
    using static_Get [OF assms(1), of undefined p None] unfolding getOk_def by blast
  with assms(2,3) have "ho = Some x" "ho = Some y" by simp_all
  then show ?thesis by simp
qed

section \<open>Adding a static route\<close>

lemma HasPrefix_slash: "HasPrefix p [slash] \<longleftrightarrow> p \<noteq> [] \<and> hd p = slash"
  by (cases p) (auto simp: HasPrefix_iff)

lemma split_root:
  assumes r: "staticRoot ordSib n" and i: "0 < i" "i < length (npath n)"
  shows "staticBody ordSib (splitNode i n)"
proof -
  let ?m = "Node ((ndata n)\<lparr>nType := NStatic\<rparr>) (children n)"
  have b: "staticBody ordSib ?m" using r by (simp add: staticRoot_def staticBody_def)
  have "npath n \<noteq> [slash]" using i by auto
  with r i b have "staticNode ordSib ?m" by (auto simp: staticNode_iff [of _ ?m] staticRoot_def)
  then have "staticNode ordSib (splitNode i ?m)" using i by (intro static_split) simp_all
  then have "staticBody ordSib (splitNode i ?m)" by (simp add: staticNode_iff)
  moreover have "children (splitNode i ?m) = children (splitNode i n)"
    "n_wildcard (ndata (splitNode i ?m)) = n_wildcard (ndata (splitNode i n))"
    "nhandler (splitNode i ?m) = nhandler (splitNode i n)"
    by (cases n; simp add: Let_def)+
  ultimately show ?thesis unfolding staticBody_def by (simp del: splitNode.simps)
qed

lemma chosen_root:
  assumes n: "staticRoot ordSib n" and p: "staticRoute p"
  defines "i \<equiv> longestCommonPrefix p (npath n)"
  defines "r \<equiv> (if i > 0 \<and> length (npath n) > i then splitNode i n else n)"
  shows "staticBody ordSib r" "npath r = take i p" "0 < i" "i \<le> length p" "pathRoutes r = pathRoutes n"
    "\<not> ntsr r" "npath r \<noteq> []" "hd (npath r) = slash" "children r = [] \<Longrightarrow> npath r = [slash]"
    "nhandler r \<noteq> None \<Longrightarrow> npath r = [slash] \<or> last (npath r) \<noteq> slash"
    "\<And>h. (p, h) \<in> pathRoutes n \<Longrightarrow> r = n"
proof -
  from n have a: "ascii (npath n)" "npath n \<noteq> []" "hd (npath n) = slash" "staticBody ordSib n"
    "\<not> ntsr n" "children n = [] \<longrightarrow> npath n = [slash]"
    "nhandler n \<noteq> None \<longrightarrow> npath n = [slash] \<or> last (npath n) \<noteq> slash"
    by (auto simp: staticRoot_def HasPrefix_slash)
  from p have pa: "ascii p" "p \<noteq> []" "hd p = slash" by (auto simp: staticRoute_def HasPrefix_slash)
  have i: "i = longestCommonPrefix p (npath n)" by (simp add: i_def)
  note sp = lcp_split [OF pa(1) a(1) i [symmetric]]
  show i0: "0 < i" using lcp_pos_iff [OF pa(1) a(1)] a pa by (simp add: i_def)
  show "i \<le> length p" by (rule sp(1))
  show np: "npath r = take i p" using sp(2,3) i0 by (auto simp: r_def split_sel)
  show "npath r \<noteq> []" "hd (npath r) = slash" unfolding np using i0 pa by auto
  show "staticBody ordSib r" using a(4) split_root [OF n i0] by (simp add: r_def)
  show "pathRoutes r = pathRoutes n" by (simp add: r_def routes_split)
  show "\<not> ntsr r" using a(5) by (simp add: r_def split_sel)
  show "children r = [] \<Longrightarrow> npath r = [slash]" using a(6) split_sel(4) by (auto simp: r_def split: if_splits)
  show "nhandler r \<noteq> None \<Longrightarrow> npath r = [slash] \<or> last (npath r) \<noteq> slash"
    using a(7) split_sel(2) [of i n] by (auto simp: r_def split: if_splits)
  show "r = n" if "(p, h) \<in> pathRoutes n" for h
  proof -
    from that obtain s where s: "p = npath n @ s" by (auto simp: pathRoutes_iff)
    then have "longest_common_prefix p (npath n) = npath n"
      by (intro prefix_order.antisym longest_common_prefix_prefix2 longest_common_prefix_max_prefix) auto
    with i have "i = length (npath n)" using longestCommonPrefix_ascii [OF pa(1) a(1)] by simp
    then show ?thesis by (simp add: r_def)
  qed
qed

text \<open>What \<open>add\<close> does from the chosen root, in the two cases of a rest of the path.\<close>

lemma root_add:
  assumes n: "staticRoot ordSib n" and p: "staticRoute p"
  defines "i \<equiv> longestCommonPrefix p (npath n)"
  defines "r \<equiv> (if i > 0 \<and> length (npath n) > i then splitNode i n else n)"
  shows "p \<in> fst ` pathRoutes n \<Longrightarrow>
      \<exists>pos. addNode rx (drop i p) p h r = (n, AddErr (ErrSetHandler p) (Some pos)) \<and>
        (\<exists>q. p = npath n @ q \<and> posRoute pos n q)"
    "p \<notin> fst ` pathRoutes n \<Longrightarrow>
      \<exists>m. addNode rx (drop i p) p h r = (m, Added) \<and> staticRoot symSib m \<and>
        pathRoutes m = insert (p, h) (pathRoutes n)"
proof -
  note ch = chosen_root [OF n p, folded i_def, folded r_def]
  have ps: "p = npath r @ drop i p" using ch(2) by simp
  have pas: "ascii p" "lbrace \<notin> set p" "p = [slash] \<or> last p \<noteq> slash" using p by (simp_all add: staticRoute_def)
  have ra: "ascii (npath r)" unfolding ch(2) using pas(1) by (auto simp: ascii_def dest: in_set_takeD)
  have own: "(p, x) \<in> pathRoutes n \<longleftrightarrow> (drop i p, x) \<in> set (routes r)" for x
    unfolding ch(5) [symmetric] pathRoutes_iff using ps by (metis same_append_eq)
  then have inr: "p \<in> fst ` pathRoutes n \<longleftrightarrow> drop i p \<in> fst ` set (routes r)" by force
  have same: "r = n" if "p \<in> fst ` pathRoutes n" using that ch(11) by auto
  have spec: "addSpec (addNode rx (drop i p) p h r) (drop i p) p h r" if "drop i p \<noteq> []"
  proof (rule static_add [OF ch(1) that])
    show "ascii (drop i p)" using pas(1) by (auto simp: ascii_def dest: in_set_dropD)
    show "lbrace \<notin> set (drop i p)" using pas(2) by (auto dest: in_set_dropD)
    show "last (drop i p) \<noteq> slash" using pas(3) that ch(3) by auto
  qed
  have here: "addNode rx (drop i p) p h r = setHandler h p r" if "drop i p = []"
    using that by (simp add: addNode.simps)
  have nil: "nhandler r \<noteq> None \<longleftrightarrow> p \<in> fst ` pathRoutes n" if "drop i p = []"
    using own routes_here [OF ch(1)] that by (force simp: image_iff)
  show "\<exists>pos. addNode rx (drop i p) p h r = (n, AddErr (ErrSetHandler p) (Some pos)) \<and>
        (\<exists>q. p = npath n @ q \<and> posRoute pos n q)" if old: "p \<in> fst ` pathRoutes n"
  proof (cases "drop i p = []")
    case True
    with here nil old have "addNode rx (drop i p) p h r = (n, AddErr (ErrSetHandler p) (Some []))"
      using same by (simp add: setHandler_def)
    moreover have "posRoute [] n []" using nil [OF True] old same by simp
    ultimately show ?thesis using ps True same [OF old] by auto
  next
    case False
    then show ?thesis using spec [OF False] inr old same [OF old] ps by (auto simp: addSpec_def)
  qed
  show "\<exists>m. addNode rx (drop i p) p h r = (m, Added) \<and> staticRoot symSib m \<and>
        pathRoutes m = insert (p, h) (pathRoutes n)" if new: "p \<notin> fst ` pathRoutes n"
  proof (cases "drop i p = []")
    case True
    with nil new have no: "nhandler r = None" by blast
    obtain cs where s: "setHandler h p r = (Node ((ndata r)\<lparr>n_handler := Some h\<rparr>) cs, Added)"
      "staticBody symSib (Node ((ndata r)\<lparr>n_handler := Some h\<rparr>) cs)"
      "set (routes (Node ((ndata r)\<lparr>n_handler := Some h\<rparr>) cs)) = insert ([], h) (set (routes r))"
      "npath r \<noteq> [slash] \<longrightarrow> cs \<noteq> []"
      using static_setHandler [OF ch(1,6) no] by blast
    let ?m = "Node ((ndata r)\<lparr>n_handler := Some h\<rparr>) cs"
    have np: "npath r = p" using ps True by simp
    have "staticRoot symSib ?m" unfolding staticRoot_def
      using s(2,4) ch(6,7,8) pas np by (auto simp: HasPrefix_slash)
    moreover have "pathRoutes ?m = insert (npath r @ [], h) (pathRoutes r)"
      unfolding pathRoutes_def s(3) by simp
    ultimately show ?thesis using here [OF True] s(1) np ch(5) by auto
  next
    case False
    then obtain cs where s: "addNode rx (drop i p) p h r = (Node (ndata r) cs, Added)" "cs \<noteq> []"
      "staticBody symSib (Node (ndata r) cs)"
      "set (routes (Node (ndata r) cs)) = insert (drop i p, h) (set (routes r))"
      using spec [OF False] inr new by (auto simp: addSpec_def)
    have "staticRoot symSib (Node (ndata r) cs)" unfolding staticRoot_def
      using s(2,3) ch(6,7,8,10) ra by (auto simp: HasPrefix_slash)
    moreover have "pathRoutes (Node (ndata r) cs) = insert (npath r @ drop i p, h) (pathRoutes r)"
      unfolding pathRoutes_def s(4) by simp
    ultimately show ?thesis using s(1) ps ch(5) by auto
  qed
qed

section \<open>Replacing the handler of a route\<close>

lemma posRoute_route: "posRoute pos n q \<Longrightarrow> \<exists>x. (q, x) \<in> set (routes n)"
proof (induction pos arbitrary: n q)
  case Nil
  then show ?case unfolding set_routes [of n] by auto
next
  case (Cons k pos)
  then obtain s where s: "k < length (children n)" "q = npath (children n ! k) @ s"
    "posRoute pos (children n ! k) s" by auto
  from Cons.IH [OF s(3)] s(2) have "\<exists>x. (q, x) \<in> pathRoutes (children n ! k)"
    by (auto simp: pathRoutes_iff)
  with s(1) show ?case unfolding set_routes [of n] by (auto dest: nth_mem)
qed

lemma posRoute_tsr:
  assumes "staticBody P n" "ntsr n \<longrightarrow> nhandler n = None" "posRoute pos n q"
  shows "\<not> ntsr (nodeAt pos n)"
  using assms
proof (induction pos arbitrary: n q)
  case (Cons k pos)
  then obtain s where s: "k < length (children n)" "posRoute pos (children n ! k) s" by auto
  then have "staticNode P (children n ! k)" using Cons.prems(1) by (auto simp: staticBody_def)
  with Cons.IH s show ?case by (simp add: staticNode_iff)
qed auto

lemma replace_ordSib:
  assumes "sorted_wrt ordSib cs" "k < length cs" "npath c = npath (cs ! k)"
    "leafTSR c = leafTSR (cs ! k)" "children c = [] \<longleftrightarrow> children (cs ! k) = []"
  shows "sorted_wrt ordSib (cs[k := c])"
  using assms by (simp add: sorted_wrt_iff_nth_less nth_list_update ordSib_def)

lemma Union_replace:
  assumes k: "k < length xs" and c: "f c = insert (q, h) {(s, x) \<in> f (xs ! k). s \<noteq> q}"
    and other: "\<And>j y. j < length xs \<Longrightarrow> j \<noteq> k \<Longrightarrow> (q, y) \<notin> f (xs ! j)"
  shows "\<Union> (f ` set (xs[k := c])) = insert (q, h) {(s, x) \<in> \<Union> (f ` set xs). s \<noteq> q}"
proof -
  let ?O = "set (take k xs) \<union> set (drop (Suc k) xs)"
  have "set xs = set (take k xs @ xs ! k # drop (Suc k) xs)"
    using k by (simp add: id_take_nth_drop [symmetric])
  then have xs: "set xs = insert (xs ! k) ?O" by simp
  have up: "set (xs[k := c]) = insert c ?O" using k by (simp add: upd_conv_take_nth_drop)
  have "(q, y) \<notin> f x" if "x \<in> ?O" for x y
  proof -
    have "\<exists>j < length xs. j \<noteq> k \<and> x = xs ! j"
    proof (cases "x \<in> set (take k xs)")
      case True
      then obtain j where "j < length (take k xs)" "take k xs ! j = x" by (metis in_set_conv_nth)
      then show ?thesis by (intro exI [of _ j]) auto
    next
      case False
      with that have "x \<in> set (drop (Suc k) xs)" by blast
      then obtain j where "j < length (drop (Suc k) xs)" "drop (Suc k) xs ! j = x" by (metis in_set_conv_nth)
      then show ?thesis by (intro exI [of _ "Suc k + j"]) auto
    qed
    with other show ?thesis by blast
  qed
  then show ?thesis unfolding xs up using c by auto
qed

lemma sibling_no_route:
  assumes n: "staticBody ordSib n" and k: "k < length (children n)" and r: "(p, x) \<in> pathRoutes (children n ! k)"
    and j: "j < length (children n)" "j \<noteq> k"
  shows "(p, y) \<notin> pathRoutes (children n ! j)"
proof
  assume y: "(p, y) \<in> pathRoutes (children n ! j)"
  have "npath (children n ! i) \<noteq> []" if "i < length (children n)" for i
    using n that by (auto simp: staticBody_def dest: staticNode_ne)
  with r y k j have hd: "hd (npath (children n ! j)) = hd (npath (children n ! k))"
    by (metis pathRoutes_hd)
  have "ordSib (children n ! j) (children n ! k) \<or> ordSib (children n ! k) (children n ! j)"
    using n k j by (auto simp: staticBody_def sorted_wrt_iff_nth_less neq_iff)
  with hd have "leafTSR (children n ! j) \<or> leafTSR (children n ! k)" by (auto simp: ordSib_def)
  with r y routes_leafTSR show False by blast
qed

definition replOk :: "'h node \<Rightarrow> bytes \<Rightarrow> 'h \<Rightarrow> 'h node \<Rightarrow> bool" where
  "replOk n q h m \<longleftrightarrow> staticBody ordSib m \<and>
     set (routes m) = insert (q, h) {(s, x) \<in> set (routes n). s \<noteq> q} \<and>
     (children m = [] \<longleftrightarrow> children n = []) \<and>
     (\<exists>hh. ndata m = (ndata n)\<lparr>n_handler := hh\<rparr> \<and> (hh = None \<longleftrightarrow> nhandler n = None))"

lemma replOk_node:
  assumes c: "staticNode ordSib c" and r: "replOk c q h m"
  shows "staticNode ordSib m" "npath m = npath c" "leafTSR m = leafTSR c" "ntsr m = ntsr c"
    "pathRoutes m = insert (npath c @ q, h) {(s, x) \<in> pathRoutes c. s \<noteq> npath c @ q}"
proof -
  from r obtain hh where m: "staticBody ordSib m" "ndata m = (ndata c)\<lparr>n_handler := hh\<rparr>"
    "hh = None \<longleftrightarrow> nhandler c = None" "children m = [] \<longleftrightarrow> children c = []"
    "set (routes m) = insert (q, h) {(s, x) \<in> set (routes c). s \<noteq> q}"
    by (auto simp: replOk_def)
  show "staticNode ordSib m" unfolding staticNode_iff [of _ m]
    using c m(1-4) by (auto simp: staticNode_iff [of _ c])
  show "npath m = npath c" "ntsr m = ntsr c" using m(2) by simp_all
  show "leafTSR m = leafTSR c" using m(2-4) by (auto simp: leafTSR_def)
  have "pathRoutes m = (\<lambda>(s, x). (npath c @ s, x)) ` insert (q, h) {(s, x) \<in> set (routes c). s \<noteq> q}"
    unfolding pathRoutes_def m(2,5) by simp
  then show "pathRoutes m = insert (npath c @ q, h) {(s, x) \<in> pathRoutes c. s \<noteq> npath c @ q}"
    by (auto simp: pathRoutes_iff)
qed

lemma replace_at:
  assumes "staticBody ordSib n" "posRoute pos n q"
  shows "replOk n q h (updateAt pos (replaceHandler h) n)"
  using assms
proof (induction pos arbitrary: n q)
  case Nil
  let ?m = "replaceHandler h n"
  have ndm: "ndata ?m = (ndata n)\<lparr>n_handler := Some h\<rparr>" "children ?m = children n"
    by (simp_all add: replaceHandler_def)
  have "staticBody ordSib ?m" using Nil by (simp add: ndm staticBody_def)
  moreover have "(s, x) \<in> set (routes ?m) \<longleftrightarrow> (s, x) \<in> insert (q, h) {(s, x) \<in> set (routes n). s \<noteq> q}" for s x
    using routes_here [OF \<open>staticBody ordSib ?m\<close>] Nil(2) unfolding set_routes [of n] set_routes [of ?m]
    by (cases "s = []") (auto simp: ndm split: option.splits)
  ultimately show ?case using Nil(2) ndm by (auto simp: replOk_def)
next
  case (Cons k pos)
  let ?c = "children n ! k" and ?c' = "updateAt pos (replaceHandler h) (children n ! k)"
  let ?m = "Node (ndata n) ((children n)[k := ?c'])"
  from Cons.prems obtain s where s: "k < length (children n)" "q = npath ?c @ s" "posRoute pos ?c s" by auto
  then have sc: "staticNode ordSib ?c" and kid: "ntsr ?c \<longrightarrow> nhandler n \<noteq> None"
    using Cons.prems(1) by (auto simp: staticBody_def)
  then have r: "replOk ?c s h ?c'" using Cons.IH s(3) by (simp add: staticNode_iff)
  note c' = replOk_node [OF sc r]
  have ch: "children ?c' = [] \<longleftrightarrow> children ?c = []" using r by (simp add: replOk_def)
  obtain x where x: "(q, x) \<in> pathRoutes ?c" using posRoute_route [OF s(3)] s(2) by (auto simp: pathRoutes_iff)
  then have "q \<noteq> []" using sc by (metis pathRoutes_hd staticNode_ne)
  have "sorted_wrt ordSib ((children n)[k := ?c'])"
    using replace_ordSib [OF _ s(1) c'(2,3) ch] Cons.prems(1) by (simp add: staticBody_def)
  then have "staticBody ordSib ?m"
    using Cons.prems(1) c'(1,4) kid unfolding staticBody_def
    by (auto dest!: subsetD [OF set_update_subset_insert])
  moreover have "\<Union> (pathRoutes ` set ((children n)[k := ?c'])) =
      insert (q, h) {(s, x) \<in> \<Union> (pathRoutes ` set (children n)). s \<noteq> q}"
    using Union_replace [of k "children n" pathRoutes ?c' q h, OF s(1)] c'(5) s(2)
      sibling_no_route [OF Cons.prems(1) s(1) x] by simp
  then have "set (routes ?m) = insert (q, h) {(s, x) \<in> set (routes n). s \<noteq> q}"
    unfolding set_routes [of ?m] set_routes [of n] using \<open>q \<noteq> []\<close> by (auto split: option.splits)
  ultimately show ?case unfolding replOk_def by (auto intro!: exI [of _ "nhandler n"])
qed

section \<open>Add on a tree of static routes\<close>

definition addedRoute :: "'h Tree \<Rightarrow> bytes \<Rightarrow> 'h \<Rightarrow> ('h Tree \<times> treeOut) \<Rightarrow> bool" where
  "addedRoute t p h res \<longleftrightarrow> (\<exists>t'. res = (t', TreeOk) \<and> staticTree t' \<and> Mutable t' = Mutable t \<and>
     treeRoutes t' = insert (p, h) {(s, x) \<in> treeRoutes t. s \<noteq> p})"

context node_sort
begin

lemma staticRoot_sort: "staticRoot symSib n \<Longrightarrow> staticRoot ordSib (sortNode srt n)"
  by (simp add: staticRoot_def staticBody_sort)

lemma pathRoutes_sort: "pathRoutes (sortNode srt n) = pathRoutes n"
  by (simp add: pathRoutes_def)

lemma addedRoute_sort:
  assumes "staticRoot symSib m" "pathRoutes m = insert (p, h) (treeRoutes t)" "p \<notin> routePaths t"
  shows "addedRoute t p h (t\<lparr>root := sortNode srt m\<rparr>, TreeOk)"
proof -
  have "treeRoutes t = {(s, x) \<in> treeRoutes t. s \<noteq> p}" using assms(3) by (force simp: routePaths_def)
  with assms staticRoot_sort [OF assms(1)] show ?thesis
    by (simp add: addedRoute_def staticTree_def treeRoutes_def pathRoutes_sort)
qed

lemma Add_first:
  assumes t: "root t = root New" and p: "staticRoute p"
  shows "addedRoute t p h (Add rx srt p (Some h) t)"
proof -
  define d where "d = (ndata (newNode p))\<lparr>n_handler := Some h\<rparr>"
  define cs where "cs = (if p = [slash] then [] else [tsrNode :: 'h node])"
  let ?c = "Node d cs" and ?m = "Node (d\<lparr>nType := NRoot\<rparr>) cs"
  have pre: "HasPrefix p [slash]" "p \<noteq> []" using p by (auto simp: staticRoute_def HasPrefix_slash)
  have z: "longestCommonPrefix p [] = 0" using longestCommonPrefix_ascii [of p "[]"] p
    by (simp add: staticRoute_def ascii_def)
  have "\<exists>dd. addNode rx p p h (root New) = (Node dd [?c], Added) \<and> n_path dd = []"
  proof (cases "p = [slash]")
    case True
    then show ?thesis
      by (simp add: addNode.simps [of rx "[slash]"] insertNode.simps [of rx "[slash]"] insertLeaf_def
          newNode_def appendChild_def d_def cs_def New_def)
  next
    case False
    then have "insertNode rx p p h (root New) = (Node (ndata (root New)) ([] @ [routeLeaf h p]), Added)"
      using p pre by (subst insertNode_static) (auto simp: staticRoute_def)
    with False pre show ?thesis
      by (simp add: addNode.simps [of rx p] routeLeaf_def d_def cs_def)
  qed
  then have "Add rx srt p (Some h) t = (t\<lparr>root := sortNode srt ?m\<rparr>, TreeOk)"
    using pre z t by (auto simp: Add_def Let_def addFinish_def)
  moreover have "staticRoot symSib ?m"
    using p unfolding staticRoot_def staticBody_def
    by (auto simp: d_def cs_def newNode_def staticRoute_def)
  moreover have "pathRoutes ?m = {(p, h)}"
    unfolding pathRoutes_def [of ?m] set_routes [of ?m]
    by (simp add: d_def cs_def newNode_def routes_leafTSR)
  ultimately show ?thesis using addedRoute_sort [of ?m p h t] t
    by (simp add: treeRoutes_def routePaths_def)
qed

lemma Add_static_new:
  assumes t: "staticTree t" and p: "staticRoute p" and new: "p \<notin> routePaths t"
  shows "addedRoute t p h (Add rx srt p (Some h) t)"
proof (cases "root t = root New")
  case True
  then show ?thesis using p by (rule Add_first)
next
  case False
  with t have r: "staticRoot ordSib (root t)" by (simp add: staticTree_def)
  let ?i = "longestCommonPrefix p (npath (root t))"
  let ?r = "if ?i > 0 \<and> length (npath (root t)) > ?i then splitNode ?i (root t) else root t"
  obtain m where m: "addNode rx (drop ?i p) p h ?r = (m, Added)" "staticRoot symSib m"
    "pathRoutes m = insert (p, h) (pathRoutes (root t))"
    using root_add(2) [OF r p new [unfolded routePaths_def treeRoutes_def], of rx h] by blast
  have "npath m \<noteq> []" using m(2) by (auto simp: staticRoot_def HasPrefix_slash)
  with m(1) p have "Add rx srt p (Some h) t = (t\<lparr>root := sortNode srt m\<rparr>, TreeOk)"
    by (simp add: Add_def Let_def addFinish_def staticRoute_def)
  with addedRoute_sort [OF m(2), of p h t] m(3) new show ?thesis by (simp add: treeRoutes_def)
qed

lemma Add_static_old:
  assumes t: "staticTree t" and p: "staticRoute p" and old: "p \<in> routePaths t"
  shows "\<not> Mutable t \<Longrightarrow> Add rx srt p (Some h) t = (t, TreePanicErr (ErrSetHandler p))"
    "Mutable t \<Longrightarrow> addedRoute t p h (Add rx srt p (Some h) t)"
proof -
  have r: "staticRoot ordSib (root t)"
    using t old by (auto simp: staticTree_def routePaths_def treeRoutes_def)
  then have b: "staticBody ordSib (root t)" "\<not> ntsr (root t)" by (simp_all add: staticRoot_def)
  let ?i = "longestCommonPrefix p (npath (root t))"
  let ?r = "if ?i > 0 \<and> length (npath (root t)) > ?i then splitNode ?i (root t) else root t"
  obtain pos q where a: "addNode rx (drop ?i p) p h ?r = (root t, AddErr (ErrSetHandler p) (Some pos))"
    "p = npath (root t) @ q" "posRoute pos (root t) q"
    using root_add(1) [OF r p old [unfolded routePaths_def treeRoutes_def], of rx h] by blast
  from p have eq: "Add rx srt p (Some h) t = addError h (ErrSetHandler p) (Some pos) t"
    by (simp add: Add_def Let_def staticRoute_def a(1))
  show "Add rx srt p (Some h) t = (t, TreePanicErr (ErrSetHandler p))" if "\<not> Mutable t"
    using that eq by (simp add: addError_def)
  let ?m = "updateAt pos (replaceHandler h) (root t)"
  have ro: "replOk (root t) q h ?m" by (rule replace_at [OF b(1) a(3)])
  then obtain hh where m: "staticBody ordSib ?m" "children ?m = [] \<longleftrightarrow> children (root t) = []"
    "ndata ?m = (ndata (root t))\<lparr>n_handler := hh\<rparr>" "hh = None \<longleftrightarrow> nhandler (root t) = None"
    "set (routes ?m) = insert (q, h) {(s, x) \<in> set (routes (root t)). s \<noteq> q}"
    by (auto simp: replOk_def)
  have "staticRoot ordSib ?m" using r m(1-4) unfolding staticRoot_def by auto
  moreover have "pathRoutes ?m = insert (p, h) {(s, x) \<in> pathRoutes (root t). s \<noteq> p}"
    unfolding pathRoutes_def m(3,5) a(2) by auto
  ultimately show "addedRoute t p h (Add rx srt p (Some h) t)" if "Mutable t"
    using that eq posRoute_tsr [OF b(1) _ a(3)] b(2)
    by (auto simp: addError_def addedRoute_def staticTree_def treeRoutes_def)
qed

end

section \<open>The contract of a route table\<close>

text \<open>
  What the router relies on: an admissible path that is free can be registered, a taken one is
  refused, and a lookup returns what was registered. \<open>addAll\<close> registers a list of routes in order.
\<close>

fun addAll :: "(bytes \<Rightarrow> 'h \<Rightarrow> 't \<Rightarrow> 't option) \<Rightarrow> (bytes \<times> 'h) list \<Rightarrow> 't \<Rightarrow> 't option" where
  "addAll ad [] t = Some t"
| "addAll ad ((p, h) # rs) t = (case ad p h t of None \<Rightarrow> None | Some t' \<Rightarrow> addAll ad rs t')"

locale route_table =
  fixes emp :: 't
    and ad :: "bytes \<Rightarrow> 'h \<Rightarrow> 't \<Rightarrow> 't option"
    and lookup :: "'t \<Rightarrow> bytes \<Rightarrow> 'h option"
    and adm :: "bytes \<Rightarrow> bool"
    and tinv :: "'t \<Rightarrow> bool"
  assumes emp_inv: "tinv emp" and emp_lookup: "lookup emp p = None"
    and add_free: "tinv t \<Longrightarrow> adm p \<Longrightarrow> lookup t p = None \<Longrightarrow>
      \<exists>t'. ad p h t = Some t' \<and> tinv t' \<and> lookup t' = (lookup t)(p \<mapsto> h)"
    and add_taken: "tinv t \<Longrightarrow> adm p \<Longrightarrow> lookup t p \<noteq> None \<Longrightarrow> ad p h t = None"
begin

lemma addAll_from:
  "tinv t \<Longrightarrow> \<forall>p \<in> fst ` set rs. adm p \<and> lookup t p = None \<Longrightarrow> distinct (map fst rs) \<Longrightarrow>
   \<exists>t'. addAll ad rs t = Some t' \<and> tinv t' \<and> lookup t' = lookup t ++ map_of rs"
proof (induction rs arbitrary: t)
  case (Cons r rs)
  obtain p h where r: "r = (p, h)" by force
  with Cons.prems obtain t1 where t1: "ad p h t = Some t1" "tinv t1" "lookup t1 = (lookup t)(p \<mapsto> h)"
    using add_free [of t p h] by auto
  have "p \<notin> fst ` set rs" using Cons.prems(3) r by auto
  then have "\<forall>q \<in> fst ` set rs. adm q \<and> lookup t1 q = None" using Cons.prems(2) t1(3) r by auto
  from Cons.IH [OF t1(2) this] Cons.prems(3) obtain t' where
    t': "addAll ad rs t1 = Some t'" "tinv t'" "lookup t' = lookup t1 ++ map_of rs" by auto
  have "lookup t' = lookup t ++ map_of (r # rs)"
    using t'(3) t1(3) \<open>p \<notin> fst ` set rs\<close>
    by (auto simp: r fun_eq_iff map_add_def map_of_eq_None_iff split: option.splits)
  moreover have "addAll ad (r # rs) t = Some t'" using t' t1 by (simp add: r)
  ultimately show ?case using t'(2) by blast
qed simp

lemma addAll_map_of:
  assumes "distinct (map fst rs)" "\<forall>p \<in> fst ` set rs. adm p"
  shows "\<exists>t. addAll ad rs emp = Some t \<and> tinv t \<and> lookup t = map_of rs"
proof -
  have "lookup emp = Map.empty" using emp_lookup by auto
  then show ?thesis using addAll_from [OF emp_inv, of rs] assms by auto
qed

lemma taken_stays:
  "tinv t \<Longrightarrow> \<forall>p \<in> fst ` set rs. adm p \<Longrightarrow> p \<in> fst ` set rs \<Longrightarrow> lookup t p \<noteq> None \<Longrightarrow>
   addAll ad rs t = None"
proof (induction rs arbitrary: t)
  case (Cons r rs)
  obtain q h where r: "r = (q, h)" by force
  show ?case
  proof (cases "lookup t q = None")
    case True
    with Cons.prems r obtain t1 where t1: "ad q h t = Some t1" "tinv t1" "lookup t1 = (lookup t)(q \<mapsto> h)"
      using add_free [of t q h] by auto
    moreover have "p \<in> fst ` set rs" using Cons.prems(3,4) True r by auto
    ultimately show ?thesis using Cons r by simp
  next
    case False
    with Cons.prems r show ?thesis using add_taken [of t q h] by simp
  qed
qed simp

lemma addAll_dup:
  "tinv t \<Longrightarrow> \<forall>p \<in> fst ` set rs. adm p \<Longrightarrow> \<not> distinct (map fst rs) \<Longrightarrow> addAll ad rs t = None"
proof (induction rs arbitrary: t)
  case (Cons r rs)
  obtain p h where r: "r = (p, h)" by force
  show ?case
  proof (cases "ad p h t")
    case (Some t1)
    with Cons.prems r have l1: "tinv t1" "lookup t1 p = Some h"
      using add_free [of t p h] add_taken [of t p h] by fastforce+
    show ?thesis
    proof (cases "distinct (map fst rs)")
      case False
      with Cons l1 Some r show ?thesis by simp
    next
      case True
      with Cons.prems(3) r have "p \<in> fst ` set rs" by auto
      then show ?thesis using taken_stays [OF l1(1)] l1(2) Some r Cons.prems(2) by simp
    qed
  qed (simp add: r)
qed simp

end

text \<open>
  The radix tree is a route table on static routes, with every sort that keeps its promise. A lookup
  is \<open>Get\<close> without a request context; a panic of \<open>Add\<close> is a refusal.
\<close>

definition addHandler :: "regexp \<Rightarrow> ('h node list \<Rightarrow> 'h node list) \<Rightarrow> bytes \<Rightarrow> 'h \<Rightarrow> 'h Tree \<Rightarrow> 'h Tree option" where
  "addHandler rx srt p h t = (case Add rx srt p (Some h) t of (t', TreeOk) \<Rightarrow> Some t' | _ \<Rightarrow> None)"

definition getHandler :: "regexp \<Rightarrow> 'h Tree \<Rightarrow> bytes \<Rightarrow> 'h option" where
  "getHandler rx t p = (case Get rx t p None of Got ho _ _ \<Rightarrow> ho | GetPanic _ \<Rightarrow> None)"

definition frozenTree :: "'h Tree \<Rightarrow> bool" where
  "frozenTree t \<longleftrightarrow> staticTree t \<and> \<not> Mutable t"

lemma getHandler_iff:
  assumes "staticTree t"
  shows "getHandler rx t p = Some h \<longleftrightarrow> (p, h) \<in> treeRoutes t"
proof -
  obtain ho b where "Get rx t p None = Got ho b None" "\<forall>h. ho = Some h \<longleftrightarrow> (p, h) \<in> treeRoutes t"
    using static_Get [OF assms, of rx p None] unfolding getOk_def by blast
  then show ?thesis by (simp add: getHandler_def)
qed

lemma getHandler_None:
  assumes "staticTree t"
  shows "getHandler rx t p = None \<longleftrightarrow> p \<notin> routePaths t"
proof -
  have "p \<in> routePaths t \<longleftrightarrow> (\<exists>h. (p, h) \<in> treeRoutes t)" by (force simp: routePaths_def)
  also have "\<dots> \<longleftrightarrow> getHandler rx t p \<noteq> None" using getHandler_iff [OF assms, of rx p] by auto
  finally show ?thesis by blast
qed

lemma getHandler_added:
  assumes "staticTree t" "staticTree t'"
    "treeRoutes t' = insert (p, h) {(s, x) \<in> treeRoutes t. s \<noteq> p}"
  shows "getHandler rx t' = (getHandler rx t)(p \<mapsto> h)"
proof (rule ext)
  fix q
  have "getHandler rx t' q = Some x \<longleftrightarrow> ((getHandler rx t)(p \<mapsto> h)) q = Some x" for x
    using getHandler_iff [OF assms(1)] getHandler_iff [OF assms(2)] assms(3) by auto
  then show "getHandler rx t' q = ((getHandler rx t)(p \<mapsto> h)) q" by (metis not_None_eq)
qed

sublocale node_sort \<subseteq> table: route_table New "addHandler rx srt" "getHandler rx" staticRoute frozenTree
  for rx
proof
  show "frozenTree New" by (simp add: frozenTree_def) (simp add: New_def)
  show "getHandler rx New p = None" for p by (simp add: getHandler_None routePaths_def)
  show "\<exists>t'. addHandler rx srt p h t = Some t' \<and> frozenTree t' \<and> getHandler rx t' = (getHandler rx t)(p \<mapsto> h)"
    if t: "frozenTree t" "staticRoute p" "getHandler rx t p = None" for t p h
  proof -
    from t have st: "staticTree t" "p \<notin> routePaths t" by (simp_all add: frozenTree_def getHandler_None)
    from Add_static_new [OF st(1) t(2) st(2), of h rx] obtain t' where
      t': "Add rx srt p (Some h) t = (t', TreeOk)" "staticTree t'" "Mutable t' = Mutable t"
        "treeRoutes t' = insert (p, h) {(s, x) \<in> treeRoutes t. s \<noteq> p}" by (auto simp: addedRoute_def)
    then show ?thesis using t(1) getHandler_added [OF st(1) t'(2,4)]
      by (simp add: addHandler_def frozenTree_def)
  qed
  show "addHandler rx srt p h t = None"
    if "frozenTree t" "staticRoute p" "getHandler rx t p \<noteq> None" for t p h
    using that Add_static_old(1) [of t p rx h]
    by (auto simp: frozenTree_def addHandler_def getHandler_None simp del: not_None_eq)
qed

context node_sort
begin

lemma static_map:
  assumes "distinct (map fst rs)" "\<forall>p \<in> fst ` set rs. staticRoute p"
  shows "\<exists>t. addAll (addHandler rx srt) rs New = Some t \<and> (\<forall>p. getHandler rx t p = map_of rs p)"
  using table.addAll_map_of [OF assms, of rx] by auto

lemma static_dup:
  assumes "\<not> distinct (map fst rs)" "\<forall>p \<in> fst ` set rs. staticRoute p"
  shows "addAll (addHandler rx srt) rs New = None"
  using table.addAll_dup [OF table.emp_inv assms(2,1)] .

end

section \<open>Properties\<close>

text \<open>A regular-expression engine that accepts every pattern and matches nothing, for examples.\<close>

definition noMatch :: regexp where
  "noMatch = \<lparr>rx_compiles = (\<lambda>_. True), rx_find = (\<lambda>_ _. [])\<rparr>"

text \<open>
  C1 The routing tree is a map. Registering a list of static routes with distinct paths succeeds, in
  any order of registration and with any sort that keeps the contract of \<open>sort.Sort\<close>, and every
  lookup in the tree then returns the handler registered for exactly that path, or none.
\<close>

theorem radix_static_routes_map:
  assumes "node_sort srt" "distinct (map fst rs)" "\<forall>p \<in> fst ` set rs. staticRoute p"
  shows "\<exists>t. addAll (addHandler rx srt) rs New = Some t \<and> (\<forall>p. getHandler rx t p = map_of rs p)"
  using assms by (rule node_sort.static_map)

theorem radix_static_routes_map_witness:
  "node_sort insertionSort \<and> distinct (map fst [(''/'', 0 :: nat), (''/users/new'', 1), (''/users'', 2)]) \<and>
   (\<exists>t. addAll (addHandler noMatch insertionSort) [(''/'', 0), (''/users/new'', 1), (''/users'', 2)] New = Some t \<and>
     getHandler noMatch t ''/users'' = Some (2 :: nat))"
proof -
  let ?rs = "[(''/'', 0 :: nat), (''/users/new'', 1), (''/users'', 2)]"
  have d: "distinct (map fst ?rs)" by simp
  have a: "\<forall>p \<in> fst ` set ?rs. staticRoute p"
    by (simp add: staticRoute_def HasPrefix_slash ascii_def)
  from radix_static_routes_map [OF insertion.node_sort_axioms d a, of noMatch] obtain t where
    t: "addAll (addHandler noMatch insertionSort) ?rs New = Some t" "\<forall>p. getHandler noMatch t p = map_of ?rs p"
    by blast
  from t(2) have "getHandler noMatch t ''/users'' = Some (2 :: nat)" by simp
  with t(1) d insertion.node_sort_axioms show ?thesis by blast
qed

definition demoTree :: "nat Tree" where
  "demoTree = fst (Add noMatch insertionSort ''/users'' (Some 2)
     (fst (Add noMatch insertionSort ''/users/new'' (Some 1) New)))"

lemma static_demoTree: "staticTree demoTree"
  by code_simp

lemma demoTree_route: "p \<in> routePaths demoTree \<longleftrightarrow> p = ''/users/new'' \<or> p = ''/users''"
proof -
  have "routePaths demoTree = {''/users/new'', ''/users''}" by code_simp
  then show ?thesis by simp
qed

text \<open>
  A static route that is registered already is refused: \<open>Add\<close> panics with the duplicate-path error
  for that path and leaves the tree as it was.
\<close>

theorem radix_static_duplicate:
  assumes "node_sort srt" "staticTree t" "staticRoute p" "p \<in> routePaths t" "\<not> Mutable t"
  shows "Add rx srt p (Some h) t = (t, TreePanicErr (ErrSetHandler p))"
  using node_sort.Add_static_old(1) [OF assms] .

theorem radix_static_duplicate_witness:
  "node_sort insertionSort \<and> staticTree demoTree \<and> \<not> Mutable demoTree \<and>
   Add noMatch insertionSort ''/users'' (Some 7) demoTree = (demoTree, TreePanicErr (ErrSetHandler ''/users''))"
proof -
  have r: "staticRoute ''/users''" by (simp add: staticRoute_def HasPrefix_slash ascii_def)
  have i: "''/users'' \<in> routePaths demoTree" by (simp add: demoTree_route)
  have m: "\<not> Mutable demoTree" by code_simp
  from radix_static_duplicate [OF insertion.node_sort_axioms static_demoTree r i m] show ?thesis
    using insertion.node_sort_axioms static_demoTree m by blast
qed

text \<open>
  In a mutable tree the same call replaces the handler of that path and of no other one, and the
  tree stays well-formed.
\<close>

theorem radix_static_replace:
  assumes "node_sort srt" "staticTree t" "staticRoute p" "p \<in> routePaths t" "Mutable t"
  shows "\<exists>t'. Add rx srt p (Some h) t = (t', TreeOk) \<and> staticTree t' \<and> Mutable t' \<and>
     getHandler rx t' = (getHandler rx t)(p \<mapsto> h)"
proof -
  from node_sort.Add_static_old(2) [OF assms, of h rx] obtain t' where
    "Add rx srt p (Some h) t = (t', TreeOk)" "staticTree t'" "Mutable t' = Mutable t"
    "treeRoutes t' = insert (p, h) {(s, x) \<in> treeRoutes t. s \<noteq> p}" by (auto simp: addedRoute_def)
  with getHandler_added [OF assms(2), of t' p h rx] assms(5) show ?thesis by auto
qed

theorem radix_static_replace_witness:
  "\<exists>t'. Add noMatch insertionSort ''/users'' (Some 7) (demoTree\<lparr>Mutable := True\<rparr>) = (t', TreeOk) \<and>
     getHandler noMatch t' ''/users'' = Some 7 \<and> getHandler noMatch t' ''/users/new'' = Some 1"
proof -
  let ?t = "demoTree\<lparr>Mutable := True\<rparr>"
  have r: "staticRoute ''/users''" by (simp add: staticRoute_def HasPrefix_slash ascii_def)
  have i: "''/users'' \<in> routePaths ?t"
    using demoTree_route by (simp add: routePaths_def treeRoutes_def)
  have s: "staticTree ?t" using static_demoTree by (simp add: staticTree_def)
  have g: "getHandler noMatch ?t ''/users/new'' = Some 1" by code_simp
  from radix_static_replace [OF insertion.node_sort_axioms s r i, of noMatch 7] show ?thesis
    using g by fastforce
qed

text \<open>
  A lookup in a tree of static routes never panics and never writes to the request context; it
  asks for a redirect only when there is no handler, the path ends in a slash and the path without it
  is registered.
\<close>

theorem radix_static_get:
  assumes "staticTree t"
  shows "\<exists>ho tsr. Get rx t p ctx = Got ho tsr ctx \<and> (\<forall>h. ho = Some h \<longleftrightarrow> (p, h) \<in> treeRoutes t) \<and>
     (tsr \<longrightarrow> ho = None \<and> (\<exists>q \<in> routePaths t. p = q @ [slash]))"
proof -
  obtain ho tsr where g: "Get rx t p ctx = Got ho tsr ctx" "\<forall>h. ho = Some h \<longleftrightarrow> (p, h) \<in> treeRoutes t"
    "ho \<noteq> None \<longrightarrow> \<not> tsr" "tsr \<longrightarrow> (\<exists>q \<in> routePaths t. p = q @ [slash])"
    using static_Get [OF assms, of rx p ctx] unfolding getOk_def by blast
  then have "tsr \<longrightarrow> ho = None \<and> (\<exists>q \<in> routePaths t. p = q @ [slash])" by blast
  with g(1,2) show ?thesis by blast
qed

theorem radix_static_get_witness:
  "staticTree demoTree \<and> Get noMatch demoTree ''/users/'' None = Got None True None \<and>
   (\<exists>q \<in> routePaths demoTree. ''/users/'' = q @ [slash])"
proof -
  have "case Get noMatch demoTree ''/users/'' None of Got None True None \<Rightarrow> True | _ \<Rightarrow> False" by code_simp
  then have g: "Get noMatch demoTree ''/users/'' None = Got None True None"
    by (simp split: getRes.splits option.splits bool.splits)
  obtain ho tsr where "Get noMatch demoTree ''/users/'' None = Got ho tsr None"
    "tsr \<longrightarrow> ho = None \<and> (\<exists>q \<in> routePaths demoTree. ''/users/'' = q @ [slash])"
    using radix_static_get [OF static_demoTree, of noMatch "''/users/''" None] by blast
  with g static_demoTree show ?thesis by simp
qed

end
