(* ===== verification/Radix_Params.thy ===== *)
theory Radix_Params
  imports Radix_Routes
begin

text \<open>
  Lookups in an arbitrary tree, with parameters and wildcards. \<open>reaches\<close> is the declarative reading of
  a tree: which handlers a path leads to and which parameter values it binds on the way. A lookup is
  sound for it, and a lookup or a branch of it that fails leaves no parameter value behind. For the
  lookup that ignores case, the buffer is restored by every branch that fails.
\<close>

section \<open>What a path can reach\<close>

fun bindings :: "bytes list \<Rightarrow> bytes \<Rightarrow> bytes list option \<Rightarrow> (bytes \<times> bytes) list" where
  "bindings keys seg None = [(hd keys, seg)]"
| "bindings keys seg (Some vs) = zip keys vs"

inductive reaches :: "regexp \<Rightarrow> 'h node \<Rightarrow> bytes \<Rightarrow> 'h \<Rightarrow> (bytes \<times> bytes) list \<Rightarrow> bool" for rx where
  wild: "n_wildcard (ndata n) = Some w \<Longrightarrow> reaches rx n path (wc_handler w) [(wc_paramKey w, path)]"
| static_end: "c \<in> set (children n) \<Longrightarrow> nType (ndata c) = NStatic \<Longrightarrow> \<not> ntsr c \<Longrightarrow> nhandler c = Some h \<Longrightarrow>
    reaches rx n (npath c) h []"
| static_wild: "c \<in> set (children n) \<Longrightarrow> nType (ndata c) = NStatic \<Longrightarrow> \<not> ntsr c \<Longrightarrow>
    n_wildcard (ndata c) = Some w \<Longrightarrow> reaches rx n (npath c) (wc_handler w) [(wc_paramKey w, [])]"
| static_down: "c \<in> set (children n) \<Longrightarrow> nType (ndata c) = NStatic \<Longrightarrow> rest \<noteq> [] \<Longrightarrow>
    reaches rx c rest h bs \<Longrightarrow> reaches rx n (npath c @ rest) h bs"
| param_end: "c \<in> set (children n) \<Longrightarrow> nType (ndata c) = NParam \<Longrightarrow> \<not> ntsr c \<Longrightarrow> nhandler c = Some h \<Longrightarrow>
    paramMatch rx (n_paramRegex (ndata c)) path = Inr (Some (int (length path), vs)) \<Longrightarrow>
    reaches rx n path h (bindings (n_paramKeys (ndata c)) path vs)"
| param_down: "c \<in> set (children n) \<Longrightarrow> nType (ndata c) = NParam \<Longrightarrow>
    paramMatch rx (n_paramRegex (ndata c)) path = Inr (Some (int k, vs)) \<Longrightarrow> k < length path \<Longrightarrow>
    reaches rx c (drop k path) h bs \<Longrightarrow>
    reaches rx n path h (bs @ bindings (n_paramKeys (ndata c)) (take k path) vs)"

fun bindAll :: "(bytes \<times> bytes) list \<Rightarrow> uvals option \<Rightarrow> uvals option" where
  "bindAll [] ctx = ctx"
| "bindAll ((k, v) # bs) ctx = bindAll bs (SetUserValue ctx k v)"

lemma bindAll_append [simp]: "bindAll (as @ bs) ctx = bindAll bs (bindAll as ctx)"
  by (induction as ctx rule: bindAll.induct) auto

lemma bindAll_nil [simp]: "bindAll bs None = None"
  by (induction bs) (auto simp: SetUserValue_def)

lemma saveValues_bind: "saveValues ctx ks vs = Inr ctx' \<Longrightarrow> ctx' = bindAll (zip ks vs) ctx"
  by (induction ctx ks vs rule: saveValues.induct) auto

lemma saveParamValues_bind:
  "saveParamValues ctx ks seg vs = Inr ctx' \<Longrightarrow> ctx' = bindAll (bindings ks seg vs) ctx"
  by (auto simp: saveParamValues_def saveValues_bind split: if_splits option.splits list.splits)

text \<open>What a result promises, and the same for the children of a node that come later.\<close>

definition getSound :: "regexp \<Rightarrow> 'h node \<Rightarrow> bytes \<Rightarrow> uvals option \<Rightarrow> 'h getRes \<Rightarrow> bool" where
  "getSound rx n path ctx r \<longleftrightarrow>
     (case r of GetPanic _ \<Rightarrow> True
      | Got None tsr ctx' \<Rightarrow> ctx' = ctx
      | Got (Some h) tsr ctx' \<Rightarrow> \<not> tsr \<and> (\<exists>bs. reaches rx n path h bs \<and> ctx' = bindAll bs ctx))"

lemma getSound_simps [simp]:
  "getSound rx n path ctx (GetPanic p)"
  "getSound rx n path ctx (Got None tsr ctx') \<longleftrightarrow> ctx' = ctx"
  "getSound rx n path ctx (Got (Some h) tsr ctx') \<longleftrightarrow>
     \<not> tsr \<and> (\<exists>bs. reaches rx n path h bs \<and> ctx' = bindAll bs ctx)"
  by (simp_all add: getSound_def)

lemma get_sound:
  shows "getSound rx n path ctx (getFromChild rx n path ctx)"
    and "set cs \<subseteq> set (children n) \<Longrightarrow> wc = n_wildcard (ndata n) \<Longrightarrow> getSound rx n path ctx (getChildren rx cs wc path ctx)"
proof (induction rx n path ctx and rx cs wc path ctx arbitrary: and n rule: getFromChild_getChildren.induct)
  case (1 rx d cs path ctx)
  from 1 [of "Node d cs"] show ?case by simp
next
  case (2 rx wc path ctx)
  then show ?case by (auto split: option.splits intro!: exI reaches.wild)
next
  case (3 rx d cc cs wc path ctx)
  let ?c = "Node d cc"
  have cin: "?c \<in> set (children n)" and wc: "wc = n_wildcard (ndata n)" using "3.prems" by auto
  have nxt: "getSound rx n path ctx (getChildren rx cs wc path ctx)"
    using "3.IH"(1) [OF refl, of n ctx] "3.prems" by simp
  show ?case
  proof (cases "nType d")
    case NStatic
    show ?thesis
    proof (cases "path = [] \<or> n_path d = [] \<or> hd path \<noteq> hd (n_path d)")
      case True
      with NStatic nxt show ?thesis by (auto simp: Let_def)
    next
      case False
      show ?thesis
      proof (cases "length path > length (n_path d) \<and> take (length (n_path d)) path = n_path d")
        case True
        let ?q = "drop (length (n_path d)) path"
        have q: "path = n_path d @ ?q" "?q \<noteq> []" using True by (auto, metis append_take_drop_id)
        have ih: "getSound rx ?c ?q ctx (getFromChild rx ?c ?q ctx)"
          using "3.IH"(2) [OF refl refl NStatic] False True by simp
        have down: "reaches rx ?c ?q h bs \<Longrightarrow> reaches rx n path h bs" for h bs
          using static_down [OF cin _ q(2)] NStatic q(1) by simp
        show ?thesis
        proof (cases "getFromChild rx ?c ?q ctx")
          case (Got ho t ctx')
          with ih down nxt False True NStatic show ?thesis
            by (cases ho) (auto simp: Let_def simp del: getFromChild.simps)
        qed (use False True NStatic in \<open>simp add: Let_def del: getFromChild.simps\<close>)
      next
        case off: False
        show ?thesis
        proof (cases "path = n_path d")
          case True
          with NStatic False cin show ?thesis
            using static_end [of ?c n] static_wild [of ?c n]
            by (auto simp: Let_def simp del: getFromChild.simps split: option.splits intro!: exI)
        next
          case ne: False
          with NStatic False off nxt show ?thesis by (auto simp: Let_def simp del: getFromChild.simps)
        qed
      qed
    qed
  next
    case NParam
    show ?thesis
    proof (cases "\<exists>k vs. paramMatch rx (n_paramRegex d) path = Inr (Some (int k, vs)) \<and> k \<le> length path")
      case False
      show ?thesis
      proof (cases "\<exists>e vs. paramMatch rx (n_paramRegex d) path = Inr (Some (e, vs))")
        case True
        then obtain e vs where pm: "paramMatch rx (n_paramRegex d) path = Inr (Some (e, vs))" by blast
        have "e < 0 \<or> int (length path) < e"
        proof (rule ccontr)
          assume "\<not> ?thesis"
          then have "e = int (nat e)" "nat e \<le> length path" by auto
          with pm False show False by metis
        qed
        with pm nxt NParam show ?thesis by (auto simp: Let_def simp del: getFromChild.simps)
      next
        case none: False
        with nxt NParam show ?thesis
          by (auto simp: Let_def simp del: getFromChild.simps split: sum.splits option.splits)
      qed
    next
      case True
      then obtain k vs where pm: "paramMatch rx (n_paramRegex d) path = Inr (Some (int k, vs))" "k \<le> length path"
        by blast
      have pr: "nType (ndata ?c) = NParam" "paramMatch rx (n_paramRegex (ndata ?c)) path = Inr (Some (int k, vs))"
        using NParam pm by simp_all
      show ?thesis
      proof (cases "k < length path")
        case True
        have ih: "getSound rx ?c (drop k path) ctx (getFromChild rx ?c (drop k path) ctx)"
          using "3.IH"(3) [OF refl refl NParam pm(1) refl refl] True by simp
        have down: "\<exists>bs'. reaches rx n path h bs' \<and>
            bindAll (bindings (n_paramKeys d) (take k path) vs) (bindAll bs ctx) = bindAll bs' ctx"
          if "reaches rx ?c (drop k path) h bs" for h bs
          using param_down [OF cin pr True that] by (intro exI conjI) (assumption, simp)
        show ?thesis
        proof (cases "getFromChild rx ?c (drop k path) ctx")
          case (Got ho t ctx')
          with ih down nxt pm True NParam show ?thesis
            by (cases ho) (auto simp: Let_def simp del: getFromChild.simps split: sum.splits
                dest!: saveParamValues_bind)
        qed (use pm True NParam in \<open>simp add: Let_def del: getFromChild.simps\<close>)
      next
        case False
        with pm have k: "int (length path) = int k" "take k path = path" by auto
        show ?thesis
        proof (cases "n_tsr d \<or> n_handler d = None")
          case True
          with k nxt pm NParam show ?thesis by (auto simp: Let_def simp del: getFromChild.simps)
        next
          case False
          then obtain h where h: "n_handler d = Some h" "\<not> n_tsr d" by auto
          with pr k have "reaches rx n path h (bindings (n_paramKeys d) path vs)"
            using param_end [OF cin pr(1), of h rx path vs] by simp
          with h k pm NParam show ?thesis
            by (auto simp: Let_def simp del: getFromChild.simps split: sum.splits dest!: saveParamValues_bind)
        qed
      qed
    qed
  qed simp_all
qed

section \<open>Properties\<close>

definition treeReaches :: "regexp \<Rightarrow> 'h Tree \<Rightarrow> bytes \<Rightarrow> 'h \<Rightarrow> (bytes \<times> bytes) list \<Rightarrow> bool" where
  "treeReaches rx t path h bs \<longleftrightarrow>
     (\<exists>rest. path = npath (root t) @ rest \<and> rest \<noteq> [] \<and> reaches rx (root t) rest h bs) \<or>
     (path = npath (root t) \<and> \<not> ntsr (root t) \<and> (nhandler (root t) = Some h \<and> bs = [] \<or>
        (\<exists>w. n_wildcard (ndata (root t)) = Some w \<and> h = wc_handler w \<and> bs = [(wc_paramKey w, [])])))"

text \<open>
  C2 Soundness of a lookup in any tree: the handler it returns is one the path reaches in the tree
  (static parts compared byte by byte, parameters matched, a wildcard taking the rest), the request
  context then holds exactly the values of that match on top of what it held before, and a lookup
  that finds no handler leaves the context unchanged.
\<close>

theorem radix_get_sound:
  "case Get rx t path ctx of
     GetPanic _ \<Rightarrow> True
   | Got None tsr ctx' \<Rightarrow> ctx' = ctx
   | Got (Some h) tsr ctx' \<Rightarrow> \<not> tsr \<and> (\<exists>bs. treeReaches rx t path h bs \<and> ctx' = bindAll bs ctx)"
proof -
  let ?r = "root t" and ?q = "drop (length (npath (root t))) path"
  have sound: "getSound rx ?r ?q ctx (getFromChild rx ?r ?q ctx)" by (rule get_sound(1))
  show ?thesis
  proof (cases "length path > length (npath ?r) \<and> take (length (npath ?r)) path = npath ?r")
    case True
    then have p: "path = npath ?r @ ?q" "?q \<noteq> []" by (auto, metis append_take_drop_id)
    have "treeReaches rx t path h bs" if "reaches rx ?r ?q h bs" for h bs
      using that p unfolding treeReaches_def by blast
    with sound True show ?thesis
      by (auto simp: Get_def Let_def getSound_def split: getRes.splits option.splits)
  next
    case False
    then show ?thesis by (auto simp: Get_def Let_def treeReaches_def SetUserValue_def split: option.splits)
  qed
qed

end
