(* ===== verification/Radix_Wf.thy ===== *)
theory Radix_Wf
  imports Radix_Params
begin

text \<open>
  The shape of every tree that \<open>Add\<close> builds, whatever the routes (parameters, wildcards and regular
  expressions included): a child is a static node with a non-empty path or a parameter with at least
  one key. The indexing in the lookups relies on it.
\<close>

fun wfKid :: "'h node \<Rightarrow> bool" where
  "wfKid (Node d cs) \<longleftrightarrow>
     (nType d = NStatic \<or> nType d = NParam \<and> n_paramKeys d \<noteq> []) \<and> n_path d \<noteq> [] \<and> (\<forall>c \<in> set cs. wfKid c)"

definition wfBody :: "'h node \<Rightarrow> bool" where
  "wfBody n \<longleftrightarrow> (\<forall>c \<in> set (children n). wfKid c)"

definition wfTree :: "'h Tree \<Rightarrow> bool" where
  "wfTree t \<longleftrightarrow> wfBody (root t)"

lemma wfKid_iff: "wfKid n \<longleftrightarrow>
    (nType (ndata n) = NStatic \<or> nType (ndata n) = NParam \<and> n_paramKeys (ndata n) \<noteq> []) \<and> npath n \<noteq> [] \<and> wfBody n"
  by (cases n) (simp add: wfBody_def)

declare wfKid.simps [simp del]

text \<open>\<open>keeps n m\<close>: \<open>m\<close> is \<open>n\<close> after an operation, with well-formed children.\<close>

definition keeps :: "'h node \<Rightarrow> 'h node \<Rightarrow> bool" where
  "keeps n m \<longleftrightarrow> nType (ndata m) = nType (ndata n) \<and> n_paramKeys (ndata m) = n_paramKeys (ndata n) \<and>
     (npath n \<noteq> [] \<longrightarrow> npath m \<noteq> []) \<and> wfBody m"

lemma keeps_kid: "keeps n m \<Longrightarrow> wfKid n \<Longrightarrow> wfKid m"
  by (auto simp: keeps_def wfKid_iff)

lemma keeps_data [simp]: "keeps n (Node (ndata n) cs) \<longleftrightarrow> (\<forall>c \<in> set cs. wfKid c)"
    "keeps n (Node ((ndata n)\<lparr>n_tsr := b\<rparr>) cs) \<longleftrightarrow> (\<forall>c \<in> set cs. wfKid c)"
    "keeps n (Node ((ndata n)\<lparr>n_handler := ho\<rparr>) cs) \<longleftrightarrow> (\<forall>c \<in> set cs. wfKid c)"
    "keeps n (Node ((ndata n)\<lparr>n_wildcard := w\<rparr>) cs) \<longleftrightarrow> (\<forall>c \<in> set cs. wfKid c)"
    "keeps n (Node ((ndata n)\<lparr>n_hasWildChild := b\<rparr>) cs) \<longleftrightarrow> (\<forall>c \<in> set cs. wfKid c)"
  by (auto simp: keeps_def wfBody_def)

lemma keeps_refl: "wfBody n \<Longrightarrow> keeps n n"
  by (simp add: keeps_def)

lemma keeps_trans: "keeps n m \<Longrightarrow> keeps m k \<Longrightarrow> keeps n k"
  by (auto simp: keeps_def)

lemma wfKid_tsrNode [simp]: "wfKid tsrNode"
  by (simp add: wfKid.simps tsrNode_def newNode_def)

lemma wfBody_newNode [simp]: "wfBody (newNode p)"
  by (simp add: wfBody_def newNode_def)

lemma wfKid_newNode [simp]: "wfKid (newNode p) \<longleftrightarrow> p \<noteq> []"
  by (simp add: wfKid_iff) (simp add: newNode_def)

lemma wfKid_clone: "wfKid n \<Longrightarrow> wfKid (clone n)"
  by (induction n) (auto simp: wfKid.simps)

lemma wfBody_clone: "wfBody n \<Longrightarrow> wfBody (clone n)"
  by (auto simp: wfBody_def wfKid_clone)

lemma keeps_split: "wfBody n \<Longrightarrow> 0 < i \<Longrightarrow> i < length (npath n) \<Longrightarrow> keeps n (splitNode i n)"
  using wfBody_clone [of n] by (cases n) (auto simp: keeps_def wfBody_def wfKid.simps Let_def)

lemma keeps_markTSR: "\<forall>c \<in> set cs. wfKid c \<Longrightarrow> \<forall>c \<in> set (fst (markTSR cs)). wfKid c"
proof (induction cs)
  case (Cons c cs)
  then show ?case by (cases c) (auto simp: wfKid.simps split: prod.splits)
qed simp

lemma keeps_setHandler: "wfBody n \<Longrightarrow> keeps n (fst (setHandler h fp n))"
  using keeps_markTSR [of "children n"]
  by (auto simp: setHandler_def keeps_refl wfBody_def split: prod.splits)

lemma suffix_slash_long: "HasSuffix p [slash] \<Longrightarrow> p \<noteq> [slash] \<Longrightarrow> 1 < length p"
  by (cases p) (auto simp: HasSuffix_byte split: if_splits)

lemma keeps_insertLeaf:
  assumes "wfBody n" "wfKid c"
  shows "keeps n (fst (insertLeaf h c n))"
proof -
  let ?c = "Node ((ndata c)\<lparr>n_handler := Some h\<rparr>) (children c)"
  have wc: "wfKid ?c" using assms(2) by (cases c) (simp add: wfKid.simps)
  let ?sp = "splitNode (length (npath c) - 1) ?c"
  have "keeps ?c ?sp" if "HasSuffix (npath c) [slash]" "npath c \<noteq> [slash]"
    using suffix_slash_long [OF that] wc by (intro keeps_split) (auto simp: wfKid_iff)
  then have "wfKid (Node ((ndata ?sp)\<lparr>n_tsr := True\<rparr>) (children ?sp))"
    if "HasSuffix (npath c) [slash]" "npath c \<noteq> [slash]"
    using that keeps_kid [OF _ wc] by (metis keeps_data(2) keeps_kid wfBody_def wfKid_iff)
  moreover have "wfKid (appendChild tsrNode ?c)" using wc by (cases c) (auto simp: wfKid.simps appendChild_def)
  ultimately show ?thesis using assms(1) wc
    by (auto simp: insertLeaf_def Let_def appendChild_def wfBody_def simp del: splitNode.simps)
qed

lemma wildOpen_lbrace: "wildOpen cs st = Inr (Some (s, e)) \<Longrightarrow> cs ! (s - st) = lbrace"
proof (induction cs arbitrary: st)
  case (Cons c cs)
  show ?case
  proof (cases "c \<noteq> lbrace \<or> scanBrace cs 0 False 0 = ScanOpen")
    case True
    with Cons.prems have w: "wildOpen cs (Suc st) = Inr (Some (s, e))" by (auto split: if_splits)
    from wildOpen_bounds [OF w] Cons.IH [OF w] show ?thesis by (simp add: Suc_diff_le nth_Cons')
  next
    case False
    with Cons.prems show ?thesis by (auto split: braceScan.splits)
  qed
qed simp

lemma wildHead_keys: "wildHead rx path fp s e = Inr wp \<Longrightarrow> wp_keys wp \<noteq> []"
  by (auto simp: wildHead_def Let_def split: if_splits prod.splits)

lemma findWildPath_keys:
  assumes "findWildPath rx path fp = Inr (Some wp)"
  shows "wp_keys wp \<noteq> []" "wp_start wp = 0 \<Longrightarrow> hd path = lbrace"
proof -
  from assms obtain s e where o: "wildOpen path 0 = Inr (Some (s, e))"
    by (subst (asm) findWildPath.simps) (auto split: sum.splits option.splits)
  from assms o obtain wp0 where h: "wildHead rx path fp s e = Inr wp0"
    by (subst (asm) findWildPath.simps) (auto split: sum.splits)
  have "wp_start wp = wp_start wp0 \<and> (\<exists>ks. wp_keys wp = wp_keys wp0 @ ks)"
    using assms o h by (subst (asm) findWildPath.simps) (auto simp: Let_def split: sum.splits option.splits if_splits)
  then show "wp_keys wp \<noteq> []" and "wp_start wp = 0 \<Longrightarrow> hd path = lbrace"
    using wildHead_keys [OF h] wildHead_range [OF h] wildOpen_lbrace [OF o] wildOpen_bounds [OF o]
    by (cases path; auto)+
qed

lemma wfKid_paramChild:
  assumes "findWildPath rx path fp = Inr (Some wp)" "wp_start wp = 0"
  shows "wfKid (paramChild path wp)"
proof -
  have "hd path = lbrace" "path \<noteq> []"
    using findWildPath_keys [OF assms(1)] findWildPath_range [OF assms(1)] assms(2) by auto
  then have "0 < segmentEndIndex path True" by (cases path) (auto simp: segmentEndIndex_def Let_def)
  with \<open>path \<noteq> []\<close> findWildPath_keys(1) [OF assms(1)] show ?thesis
    by (simp add: paramChild_def wfKid.simps newNode_def)
qed

lemma keeps_setWildcard: "wfBody n \<Longrightarrow> keeps n (fst (setWildcard path fp wp h n))"
  by (auto simp: setWildcard_def keeps_refl wfBody_def split: option.splits)

lemma keeps_insertWildcard:
  assumes "wfBody n"
  shows "keeps n (fst (insertWildcard path fp wp h n))"
proof -
  let ?sp = "splitNode (length (npath n) - 1) n"
  have "keeps n (Node ((ndata ?sp)\<lparr>n_tsr := True\<rparr>) [fst (setWildcard path fp wp h (hd (children ?sp)))])"
    if "npath n \<noteq> []" "last (npath n) = slash" "npath n \<noteq> [slash]"
  proof -
    have "HasSuffix (npath n) [slash]" using that by (simp add: HasSuffix_byte)
    then have k: "keeps n ?sp" using suffix_slash_long that assms by (intro keeps_split) auto
    moreover have "hd (children ?sp) \<in> set (children ?sp)" using split_sel(4) by (rule hd_in_set)
    ultimately have "wfKid (hd (children ?sp))" by (simp add: keeps_def wfBody_def)
    then have "wfKid (fst (setWildcard path fp wp h (hd (children ?sp))))"
      by (metis keeps_kid keeps_setWildcard wfKid_iff)
    with k show ?thesis by (auto intro!: keeps_trans [OF k])
  qed
  with assms show ?thesis
    by (auto simp: insertWildcard_def Let_def keeps_refl keeps_setWildcard split: prod.splits simp del: splitNode.simps)
qed

lemma keeps_append: "wfBody n \<Longrightarrow> wfKid c \<Longrightarrow> keeps n (appendChild c n)"
  by (simp add: appendChild_def wfBody_def)

lemma keeps_insertNode: "wfBody n \<Longrightarrow> path \<noteq> [] \<Longrightarrow> keeps n (fst (insertNode rx path fp h n))"
proof (induction rx path fp h n rule: insertNode.induct)
  case (1 rx path fp h n)
  show ?case
  proof (cases "\<exists>wp. findWildPath rx path fp = Inr (Some wp)")
    case False
    with "1.prems" show ?thesis
      by (subst insertNode.simps) (auto simp: keeps_refl keeps_insertLeaf split: sum.splits option.splits)
  next
    case True
    then obtain wp where wp: "findWildPath rx path fp = Inr (Some wp)" by blast
    note rng = findWildPath_range [OF wp]
    let ?m = "Node ((ndata n)\<lparr>n_hasWildChild := True\<rparr>) (children n)"
    have m: "wfBody ?m" "keeps n ?m" using "1.prems"(1) by (simp_all add: wfBody_def)
    show ?thesis
    proof (cases "wp_start wp > 0")
      case True
      let ?c = "newNode (take (wp_start wp) path)"
      have "keeps ?c (fst (insertNode rx (drop (wp_start wp) path) fp h ?c))"
        using "1.IH"(1) [OF wp refl True] rng by simp
      then have "wfKid (fst (insertNode rx (drop (wp_start wp) path) fp h ?c))"
        by (rule keeps_kid) (use True "1.prems"(2) in simp)
      then show ?thesis using "1.prems"(1)
        by (subst insertNode.simps) (simp add: wp True keeps_append case_prod_beta)
    next
      case False
      then have s0: "wp_start wp = 0" by simp
      note pc = wfKid_paramChild [OF wp s0]
      show ?thesis
      proof (cases "wp_pType wp = NWildcard")
        case True
        then show ?thesis using keeps_insertWildcard [OF "1.prems"(1)]
          by (subst insertNode.simps) (simp add: wp s0)
      next
        case nw: False
        show ?thesis
        proof (cases "drop (wp_end wp) path = []")
          case True
          have "fst (insertNode rx path fp h n) = fst (insertLeaf h (paramChild path wp) ?m)"
            using True nw by (subst insertNode.simps) (simp add: wp s0)
          then show ?thesis using keeps_trans [OF m(2) keeps_insertLeaf [OF m(1) pc]] by simp
        next
          case more: False
          have "keeps (paramChild path wp) (fst (insertNode rx (drop (wp_end wp) path) fp h (paramChild path wp)))"
            using "1.IH"(2) [OF wp refl False nw refl refl more _ more] pc unfolding wfKid_iff by blast
          then have "wfKid (fst (insertNode rx (drop (wp_end wp) path) fp h (paramChild path wp)))"
            using pc by (rule keeps_kid)
          then have "keeps n (appendChild (fst (insertNode rx (drop (wp_end wp) path) fp h (paramChild path wp))) ?m)"
            using keeps_trans [OF m(2) keeps_append [OF m(1)]] by blast
          then show ?thesis using more nw by (subst insertNode.simps) (simp add: wp s0 case_prod_beta Let_def)
        qed
      qed
    qed
  qed
qed

lemma keeps_update: "wfBody n \<Longrightarrow> wfKid c \<Longrightarrow> keeps n (Node (ndata n) ((children n)[k := c]))"
  by (auto simp: wfBody_def dest!: subsetD [OF set_update_subset_insert])

lemma keeps_addHere:
  assumes "wfBody n" "wfKid c"
  shows "keeps n (fst (addHere path fp h k c n))"
proof -
  have "wfKid (fst (setHandler h fp c))"
    using assms(2) by (metis keeps_kid keeps_setHandler wfKid_iff)
  with keeps_update [OF assms(1), of _ k] show ?thesis
    by (auto simp: addHere_def split: prod.splits)
qed

lemma keeps_addNode: "wfBody n \<Longrightarrow> keeps n (fst (addNode rx path fp h n))"
proof (induction rx path fp h n rule: addNode.induct)
  case (1 rx path fp h n)
  show ?case
  proof (cases "path = [] \<or> firstCommon path (children n) = None")
    case True
    with "1.prems" show ?thesis
      by (subst addNode.simps) (auto simp: keeps_setHandler keeps_insertNode)
  next
    case False
    then obtain k i where f: "path \<noteq> []" "firstCommon path (children n) = Some (k, i)" by auto
    note fc = firstCommon_Some [OF f(2)]
    let ?c = "children n ! k"
    let ?s = "if length (npath ?c) > i then splitNode i ?c else ?c"
    have wc: "wfKid ?c" using fc "1.prems" by (simp add: wfBody_def)
    then have ws: "wfKid ?s" using keeps_kid [OF keeps_split wc, of i] fc by (simp add: wfKid_iff)
    have down: "wfKid (fst (addNode rx (drop i path) fp h c))" if "wfKid c"
      "wfBody c \<Longrightarrow> keeps c (fst (addNode rx (drop i path) fp h c))" for c
      using that keeps_kid by (auto simp: wfKid_iff)
    show ?thesis
    proof (cases "nType (ndata ?c)")
      case NStatic
      note ih = "1.IH"(1) [OF f(1) f(2) refl refl NStatic refl]
      show ?thesis
      proof (cases "length path > i")
        case True
        from down [OF ws ih] True have "wfKid (fst (addNode rx (drop i path) fp h ?s))" by blast
        from keeps_update [OF "1.prems" this, of k] show ?thesis
          by (subst addNode.simps) (simp only: f NStatic True option.case prod.case Let_def nodeType.case
              if_False if_True case_prod_beta fst_conv snd_conv)
      next
        case False
        from keeps_addHere [OF "1.prems" ws, of path fp h k] show ?thesis
          by (subst addNode.simps) (simp only: f NStatic False option.case prod.case Let_def nodeType.case if_False)
      qed
    next
      case NParam
      have eq: "addNode rx path fp h n = (case findWildPath rx path fp of
                  Inl p \<Rightarrow> (n, AddPanic p)
                | Inr None \<Rightarrow> (n, AddPanic NilDereference)
                | Inr (Some wp) \<Rightarrow>
                    if length path = wp_end wp \<and> wp_start wp = 0 \<and> wp_pType wp = NParam \<and>
                       nhandler ?c \<noteq> None then
                      (n, if npath ?c = path then AddErr (ErrSetHandler fp) (Some [k])
                          else wildPathConflict path fp ?c)
                    else if length path > i then
                      (if npath ?c = wp_path wp then
                         (let (c, out) = addNode rx (drop i path) fp h ?c
                          in (Node (ndata n) ((children n)[k := c]), shiftOut k out))
                       else insertNode rx path fp h n)
                    else addHere path fp h k ?c n)"
        by (subst addNode.simps) (simp only: f NParam option.case prod.case Let_def nodeType.case if_False)
      show ?thesis
      proof (cases "\<exists>wp. findWildPath rx path fp = Inr (Some wp)")
        case False
        then show ?thesis unfolding eq using keeps_refl [OF "1.prems"] by (auto split: sum.splits option.splits)
      next
        case True
        then obtain wp where wp: "findWildPath rx path fp = Inr (Some wp)" by blast
        note ih = "1.IH"(2) [OF f(1) f(2) refl refl NParam wp refl]
        have upd: "keeps n (Node (ndata n) ((children n)[k := fst (addNode rx (drop i path) fp h ?c)]))"
          if "\<not> (length path = wp_end wp \<and> wp_start wp = 0 \<and> wp_pType wp = NParam \<and> nhandler ?c \<noteq> None)"
            "i < length path" "npath ?c = wp_path wp"
          using keeps_update [OF "1.prems" down [OF wc ih [OF that]], of k] by blast
        show ?thesis unfolding eq wp
          using upd keeps_addHere [OF "1.prems" wc, of path fp h k] keeps_insertNode [OF "1.prems" f(1), of rx fp h]
            keeps_refl [OF "1.prems"] by (simp add: case_prod_beta)
      qed
    qed (use wc in \<open>auto simp: wfKid_iff\<close>)
  qed
qed

section \<open>Every tree that Add builds\<close>

lemma wf_addNode: "wfBody n \<Longrightarrow> wfBody (fst (addNode rx path fp h n))"
  using keeps_addNode [of n rx path fp h] by (simp add: keeps_def)

lemma wf_updateAt:
  assumes f: "\<And>n. wfKid n \<Longrightarrow> wfKid (f n)" "\<And>n. wfBody n \<Longrightarrow> wfBody (f n)"
  shows "wfBody n \<Longrightarrow> wfBody (updateAt ps f n)" "wfKid n \<Longrightarrow> wfKid (updateAt ps f n)"
proof (induction ps arbitrary: n)
  case (Cons k ps)
  have step: "wfBody (updateAt (k # ps) f m)" if "wfBody m" for m
  proof (cases "k < length (children m)")
    case True
    with that have "wfKid (updateAt ps f (children m ! k))" using Cons.IH(2) by (simp add: wfBody_def)
    with that show ?thesis using keeps_update [of m _ k] by (simp add: keeps_def)
  next
    case False
    with that show ?thesis by (simp add: wfBody_def list_update_beyond)
  qed
  { case 1 then show ?case by (rule step) }
  { case 2 then show ?case using step [of n] by (simp add: wfKid_iff) }
qed (use f in simp_all)

lemma wf_replace:
  "wfBody n \<Longrightarrow> wfBody (replaceHandler h n)" "wfKid n \<Longrightarrow> wfKid (replaceHandler h n)"
  "wfBody n \<Longrightarrow> wfBody (replaceWildcardHandler h n)" "wfKid n \<Longrightarrow> wfKid (replaceWildcardHandler h n)"
  by (cases n; simp add: replaceHandler_def replaceWildcardHandler_def wfBody_def wfKid.simps)+

lemma wf_addError: "wfTree t \<Longrightarrow> wfTree (fst (addError h e pos t))"
  by (auto simp: addError_def wfTree_def wf_updateAt wf_replace split: option.splits radixError.splits)

context node_sort
begin

lemma wfKid_sort: "wfKid n \<Longrightarrow> wfKid (sortNode srt n)"
  by (induction n) (auto simp: wfKid.simps set_srt)

lemma wfBody_sort: "wfBody n \<Longrightarrow> wfBody (sortNode srt n)"
  by (cases n) (auto simp: wfBody_def set_srt wfKid_sort)

lemma wf_addFinish:
  assumes "wfTree t"
  shows "wfTree (fst (addFinish srt t))"
proof -
  have "wfBody (Node ((ndata c)\<lparr>nType := NRoot\<rparr>) (children c))" if "c \<in> set (children (root t))" for c
    using assms that unfolding wfTree_def wfBody_def by (cases c) (auto simp: wfKid.simps)
  with wfBody_sort assms show ?thesis
    by (auto simp: addFinish_def wfTree_def simp del: sortNode.simps split: list.splits)
qed

lemma wf_Add:
  assumes "wfTree t"
  shows "wfTree (fst (Add rx srt path ho t))"
proof -
  let ?i = "longestCommonPrefix path (npath (root t))"
  let ?r = "if ?i > 0 \<and> length (npath (root t)) > ?i then splitNode ?i (root t) else root t"
  have "wfBody (root t)" using assms by (simp add: wfTree_def)
  then have "wfBody ?r" using keeps_split [of "root t" ?i] by (simp add: keeps_def)
  then have "wfBody (fst (addNode rx (drop ?i path) path h ?r))" for h
    by (rule wf_addNode)
  then have "wfTree (t\<lparr>root := fst (addNode rx (drop ?i path) path h ?r)\<rparr>)" for h
    by (simp add: wfTree_def)
  then show ?thesis using assms
    by (auto simp: Add_def Let_def case_prod_beta wf_addError wf_addFinish simp del: splitNode.simps
        split: option.splits addOut.splits)
qed

end

text \<open>Lookups panic only through a regular expression: \<open>noRegex\<close> is a tree without one.\<close>

fun noRegex :: "'h node \<Rightarrow> bool" where
  "noRegex (Node d cs) \<longleftrightarrow> n_paramRegex d = None \<and> (\<forall>c \<in> set cs. noRegex c)"

lemma paramMatch_plain: "paramMatch rx None path = Inr (Some (int (segmentEndIndex path False), None))"
  by (simp add: paramMatch_def Let_def)

lemma segmentEndIndex_le: "segmentEndIndex path False \<le> length path"
  by (simp add: segmentEndIndex_def length_takeWhile_le)

lemma get_no_panic:
  fixes n :: "'h node" and cs :: "'h node list"
  shows "wfBody n \<Longrightarrow> noRegex n \<Longrightarrow> path \<noteq> [] \<Longrightarrow> getFromChild rx n path ctx \<noteq> GetPanic p"
    "\<forall>c \<in> set cs. wfKid c \<and> noRegex c \<Longrightarrow> path \<noteq> [] \<Longrightarrow> getChildren rx cs wc path ctx \<noteq> GetPanic p"
proof (induction rx n path ctx and rx cs wc path ctx rule: getFromChild_getChildren.induct)
  case (1 rx d cs path ctx)
  then show ?case by (simp add: wfBody_def)
next
  case (2 rx wc path ctx)
  then show ?case by (simp split: option.splits)
next
  case (3 rx d cc cs wc path ctx)
  let ?c = "Node d cc"
  have nxt: "getChildren rx cs wc path c \<noteq> GetPanic p" for c using "3.IH"(1) "3.prems" by simp
  have c: "nType d = NStatic \<or> nType d = NParam \<and> n_paramKeys d \<noteq> []" "n_path d \<noteq> []" "wfBody ?c" "noRegex ?c"
    "n_paramRegex d = None"
    using "3.prems"(1) by (auto simp: wfKid_iff)
  have sv: "saveParamValues y (n_paramKeys d) seg None \<noteq> Inl q" if "nType d = NParam" for y seg q
    using that c(1) by (auto simp: saveParamValues_def split: list.splits)
  show ?case
  proof (cases "nType d = NStatic")
    case True
    have ih: "getFromChild rx ?c (drop (length (n_path d)) path) ctx \<noteq> GetPanic p"
      if "length (n_path d) < length path" "hd path = hd (n_path d)" "take (length (n_path d)) path = n_path d"
      using "3.IH"(2) [OF refl refl True] that c "3.prems"(2) by simp
    with True c nxt "3.prems"(2) show ?thesis
      by (auto simp: Let_def simp del: getFromChild.simps split: option.splits getRes.splits)
  next
    case False
    with c have ty: "nType d = NParam" by auto
    let ?e = "segmentEndIndex path False"
    have ih: "getFromChild rx ?c (drop ?e path) ctx \<noteq> GetPanic p" if "?e < length path"
      using "3.IH"(3) [OF refl refl ty _ refl refl, of "int ?e" None] that c by (simp add: paramMatch_plain)
    show ?thesis
      using ty ih nxt sv [OF ty] segmentEndIndex_le [of path] c(5)
      by (auto simp: Let_def paramMatch_plain simp del: getFromChild.simps split: option.splits getRes.splits sum.splits)
  qed
qed

lemma Get_total:
  assumes "wfTree t" "noRegex (root t)"
  shows "\<exists>handler tsr ctx'. Get rx t path ctx = Got handler tsr ctx'"
proof -
  let ?q = "drop (length (npath (root t))) path"
  have "getFromChild rx (root t) ?q ctx \<noteq> GetPanic p" if "length path > length (npath (root t))" for p
    using that assms by (intro get_no_panic(1)) (simp_all add: wfTree_def)
  then have "Get rx t path ctx \<noteq> GetPanic p" for p
    by (auto simp: Get_def Let_def split: option.splits)
  then show ?thesis by (cases "Get rx t path ctx") auto
qed

section \<open>Properties\<close>

text \<open>
  C4 Every tree built by \<open>Add\<close>, for any sequence of routes with parameters, wildcards and regular
  expressions and whether the calls succeed or panic, keeps its shape: below the root there are only
  static nodes and parameters, all with a non-empty path, and every parameter has a key.
\<close>

theorem radix_add_wf:
  assumes "node_sort srt" "wfTree t"
  shows "wfTree (fst (Add rx srt path handler t))"
  using node_sort.wf_Add [OF assms] .

theorem radix_add_wf_witness:
  "wfTree (New :: nat Tree) \<and>
   wfTree (fst (Add noMatch insertionSort ''/users/{id}/files/{path:*}'' (Some 1) (New :: nat Tree)))"
proof -
  have w: "wfTree (New :: nat Tree)" by (simp add: wfTree_def wfBody_def)
  from radix_add_wf [OF insertion.node_sort_axioms w] w show ?thesis by blast
qed

text \<open>
  C5 In a tree of that shape without regular expressions no lookup panics, whatever the request path.
\<close>

theorem radix_get_no_panic:
  assumes "wfTree t" "noRegex (root t)"
  shows "\<exists>handler tsr ctx'. Get rx t path ctx = Got handler tsr ctx'"
  using Get_total [OF assms] .

theorem radix_get_no_panic_witness:
  "(\<exists>handler tsr ctx'. Get noMatch (fst (Add noMatch insertionSort ''/users/{id}'' (Some 1) (New :: nat Tree)))
      ''/users//'' (Some Map.empty) = Got handler tsr ctx')"
proof -
  let ?t = "fst (Add noMatch insertionSort ''/users/{id}'' (Some 1) (New :: nat Tree))"
  have "wfTree ?t" "noRegex (root ?t)" by code_simp+
  then show ?thesis by (rule radix_get_no_panic)
qed

end
