(* ===== verification/Radix_Find.thy ===== *)
theory Radix_Find
  imports Radix_Params
begin

text \<open>
  The lookup that ignores case, \<open>find\<close> and \<open>findFromChild\<close>: a search that fails leaves the buffer as it
  was, in any tree; in a tree of static routes the search finds a route exactly when one is equal to
  the request path up to ASCII case, and the buffer then holds that route.
\<close>

section \<open>A failed search restores the buffer\<close>

lemma afterRemove_restore: "afterRemove (buf @ s) s k = k buf"
  by (simp add: afterRemove_def bufferRemoveString_def)

lemma find_restores:
  fixes n :: "'h node" and cs :: "'h node list"
  shows "find rx uf n path buf = FindRes False tsr buf' \<Longrightarrow> buf' = buf"
    "findChildren rx uf cs wc path buf = FindRes False tsr buf' \<Longrightarrow> buf' = buf"
proof (induction rx uf n path buf and rx uf cs wc path buf arbitrary: tsr buf' and tsr buf'
    rule: find_findChildren.induct)
  case (1 rx uf d cs path buf)
  show ?case
  proof (cases "length (n_path d) < length path \<and> EqualFold uf (take (length (n_path d)) path) (n_path d)")
    case True
    let ?r = "findChildren rx uf cs (n_wildcard d) (drop (length (n_path d)) path) (buf @ n_path d)"
    have "b = buf @ n_path d" if "?r = FindRes False t b" for t b using "1.IH" True that by simp
    with True "1.prems" show ?thesis
      by (auto simp: afterRemove_restore split: findRes.splits if_splits)
  next
    case False
    with "1.prems" show ?thesis by (auto simp: afterRemove_restore split: if_splits)
  qed
next
  case (2 rx uf wc path buf)
  then show ?case by (simp split: if_splits)
next
  case (3 rx uf d cc cs wc path buf)
  show ?case
  proof (cases "nType d")
    case NStatic
    have fst: "b = buf" if "find rx uf (Node d cc) path buf = FindRes False t b" for t b
      using "3.IH"(1) [OF NStatic] that by blast
    have nxt: "b' = buf" if "find rx uf (Node d cc) path buf = FindRes False t b"
      "findChildren rx uf cs wc path b = FindRes False t' b'" for t b t' b'
      using "3.IH"(2) [OF NStatic that(1)] that fst [OF that(1)] by simp
    show ?thesis using "3.prems" NStatic nxt
      by (auto simp del: find.simps split: findRes.splits if_splits)
  next
    case NParam
    show ?thesis
    proof (cases "paramMatch rx (n_paramRegex d) path")
      case (Inr b)
      show ?thesis
      proof (cases b)
        case None
        with Inr NParam "3.IH"(3) [OF NParam Inr None] "3.prems" show ?thesis by simp
      next
        case (Some ev)
        obtain e vs where ev: "ev = (e, vs)" by force
        let ?seg = "take (nat e) path" and ?rest = "drop (nat e) path"
        show ?thesis
        proof (cases "e < 0 \<or> int (length path) < e")
          case True
          with "3.prems" Inr NParam Some ev show ?thesis by simp
        next
          case rng: False
          show ?thesis
          proof (cases "e < int (length path)")
            case True
            have in_r: "b' = buf @ ?seg"
              if "findChildren rx uf cc (n_wildcard d) ?rest (buf @ ?seg) = FindRes False t b'" for t b'
              using "3.IH"(4) [OF NParam Inr Some ev [symmetric] rng refl refl True that] .
            have nxt: "b'' = buf"
              if "findChildren rx uf cc (n_wildcard d) ?rest (buf @ ?seg) = FindRes False t b'"
                "findChildren rx uf cs wc path buf = FindRes False t' b''" for t b' t' b''
              using "3.IH"(5) [OF NParam Inr Some ev [symmetric] rng refl refl True that(1) _ that(2)] by simp
            show ?thesis
            proof (cases "findChildren rx uf cc (n_wildcard d) ?rest (buf @ ?seg)")
              case (FindRes fo t b')
              show ?thesis
              proof (cases fo)
                case True
                with "3.prems" FindRes NParam Inr Some ev rng \<open>e < int (length path)\<close> show ?thesis
                  by (simp add: Let_def)
              next
                case False
                with FindRes in_r have "b' = buf @ ?seg" by simp
                with False "3.prems" FindRes NParam Inr Some ev rng \<open>e < int (length path)\<close>
                have "findChildren rx uf cs wc path buf = FindRes False tsr buf'"
                  by (simp add: Let_def afterRemove_restore)
                with nxt [of t b'] FindRes False show ?thesis by simp
              qed
            qed (use "3.prems" NParam Inr Some ev rng True in \<open>simp add: Let_def\<close>)
          next
            case False
            have nxt: "b'' = buf" if "findChildren rx uf cs wc path buf = FindRes False t b''"
              "\<not> n_tsr d" "n_handler d = None" for t b''
              using "3.IH"(6) [OF NParam Inr Some ev [symmetric] rng refl refl False that(2) _ that(1)] that by simp
            show ?thesis using nxt "3.prems" NParam Inr Some ev rng False
              by (auto simp: Let_def afterRemove_restore split: if_splits)
          qed
        qed
      qed
    qed (use "3.prems" NParam in simp)
  qed (use "3.prems" in simp_all)
qed

section \<open>Search in a tree of static routes\<close>

definition charFold :: "char \<Rightarrow> char \<Rightarrow> bool" where
  "charFold c d \<longleftrightarrow> c = d \<or> asciiFold (of_char c) (of_char d)"

definition sameFold :: "bytes \<Rightarrow> bytes \<Rightarrow> bool" where
  "sameFold s t \<longleftrightarrow> list_all2 charFold s t"

lemma EqualFold_ascii: "ascii a \<Longrightarrow> ascii b \<Longrightarrow> EqualFold uf a b \<longleftrightarrow> sameFold a b"
proof (induction a arbitrary: b)
  case Nil
  then show ?case by (auto simp: EqualFold_def sameFold_def decodeAll_ascii)
next
  case (Cons c a)
  then show ?case
    by (cases b) (auto simp: EqualFold_def sameFold_def decodeAll_ascii runeFold_def charFold_def of_char_eq_iff)
qed

lemma sameFold_append: "length p = length p' \<Longrightarrow> sameFold (p @ q) (p' @ q') \<longleftrightarrow> sameFold p p' \<and> sameFold q q'"
  by (simp add: sameFold_def list_all2_append)

lemma sameFold_last: "sameFold p q \<Longrightarrow> p \<noteq> [] \<Longrightarrow> charFold (last p) (last q)"
  by (cases p rule: rev_cases; cases q rule: rev_cases)
    (auto simp: sameFold_def list_all2_append1 list_all2_Cons1 append_eq_append_conv2 append_eq_Cons_conv)

lemma charFold_slash: "charFold c slash \<longleftrightarrow> c = slash" "charFold slash c \<longleftrightarrow> c = slash"
  by (auto simp: charFold_def asciiFold_def)

lemma sameFold_length: "sameFold p q \<Longrightarrow> length p = length q"
  by (auto simp: sameFold_def dest: list_all2_lengthD)

fun findOk :: "findRes \<Rightarrow> bytes \<Rightarrow> bytes \<Rightarrow> bytes set \<Rightarrow> bytes set \<Rightarrow> bool" where
  "findOk (FindPanic p) buf path rs tq \<longleftrightarrow> False"
| findOk_simps: "findOk (FindRes found tsr b) buf path rs tq \<longleftrightarrow>
     (if \<not> found then b = buf \<and> (\<forall>q \<in> rs. \<not> sameFold path q)
      else if \<not> tsr then \<exists>q \<in> rs. b = buf @ q \<and> sameFold path q
      else \<exists>q \<in> tq. b = buf @ q \<and> sameFold path (q @ [slash]))"

lemma findOkE:
  assumes "findOk r buf path rs tq"
  obtains found tsr b where "r = FindRes found tsr b"
    "\<not> found \<Longrightarrow> b = buf \<and> (\<forall>q \<in> rs. \<not> sameFold path q)"
    "found \<Longrightarrow> \<not> tsr \<Longrightarrow> \<exists>q \<in> rs. b = buf @ q \<and> sameFold path q"
    "found \<Longrightarrow> tsr \<Longrightarrow> \<exists>q \<in> tq. b = buf @ q \<and> sameFold path (q @ [slash])"
proof -
  from assms obtain found tsr b where r: "r = FindRes found tsr b" by (cases r) auto
  show thesis by (rule that [OF r]) (use assms r in \<open>auto split: if_splits\<close>)
qed

lemma findOk_next:
  assumes r: "findOk r buf path rs tq" and no: "\<forall>q \<in> rs'. \<not> sameFold path q" and tq: "tq \<subseteq> tq'"
  shows "findOk r buf path (rs' \<union> rs) tq'"
proof -
  from r obtain found tsr b where "r = FindRes found tsr b" by (cases r) auto
  with r no tq show ?thesis by (cases found; cases tsr) auto
qed

lemma tsrSources_routes:
  assumes "staticBody P n"
  shows "tsrSources (children n) \<subseteq> fst ` set (routes n)"
  using assms unfolding tsrSources_def set_routes [of n]
  by (cases "nhandler n") (auto simp: staticBody_def image_Un)

lemma static_find:
  fixes n :: "'h node" and cs :: "'h node list"
  shows "staticBody P n \<Longrightarrow> ascii (npath n) \<Longrightarrow> (ntsr n \<longrightarrow> npath n = [slash]) \<Longrightarrow> ascii path \<Longrightarrow>
    findOk (find rx uf n path buf) buf path (fst ` pathRoutes n)
      ((if ntsr n then {[]} else {}) \<union> fst ` pathRoutes n)"
    "wc = None \<Longrightarrow> \<forall>c \<in> set cs. staticNode P c \<Longrightarrow> ascii path \<Longrightarrow> path \<noteq> [] \<Longrightarrow>
     findOk (findChildren rx uf cs wc path buf) buf path (fst ` \<Union> (pathRoutes ` set cs)) (tsrSources cs)"
proof (induction rx uf n path buf and rx uf cs wc path buf rule: find_findChildren.induct)
  case (1 rx uf d cs path buf)
  let ?n = "Node d cs" and ?l = "length (n_path d)"
  have rts: "q \<in> fst ` pathRoutes ?n \<longleftrightarrow> (\<exists>s h. q = n_path d @ s \<and> (s, h) \<in> set (routes ?n))" for q
    by (force simp: pathRoutes_def)
  have own: "([], h) \<in> set (routes ?n) \<longleftrightarrow> n_handler d = Some h" for h
    using routes_here [OF "1.prems"(1)] by simp
  show ?case
  proof (cases "?l < length path")
    case True
    have fold: "EqualFold uf (take ?l path) (n_path d) \<longleftrightarrow> sameFold (take ?l path) (n_path d)"
      using "1.prems" by (simp add: EqualFold_ascii)
    show ?thesis
    proof (cases "sameFold (take ?l path) (n_path d)")
      case False
      have "\<not> sameFold path q" if "q \<in> fst ` pathRoutes ?n" for q
      proof
        assume s: "sameFold path q"
        from that obtain t where "q = n_path d @ t" by (auto simp: rts)
        with s True False sameFold_append [of "take ?l path" "n_path d" "drop ?l path" t] show False by simp
      qed
      then show ?thesis using True False fold by (auto simp: findOk_simps)
    next
      case same: True
      let ?q = "drop ?l path"
      have "findOk (findChildren rx uf cs (n_wildcard d) ?q (buf @ n_path d)) (buf @ n_path d) ?q
          (fst ` \<Union> (pathRoutes ` set cs)) (tsrSources cs)"
        using "1.IH" True same fold "1.prems" by (auto simp: staticBody_def)
      then obtain found tsr b where
        r: "findChildren rx uf cs (n_wildcard d) ?q (buf @ n_path d) = FindRes found tsr b"
        and no: "\<not> found \<Longrightarrow> b = buf @ n_path d \<and> (\<forall>q \<in> fst ` \<Union> (pathRoutes ` set cs). \<not> sameFold ?q q)"
        and yes: "found \<Longrightarrow> \<not> tsr \<Longrightarrow> \<exists>q \<in> fst ` \<Union> (pathRoutes ` set cs). b = (buf @ n_path d) @ q \<and> sameFold ?q q"
        and tsr: "found \<Longrightarrow> tsr \<Longrightarrow> \<exists>q \<in> tsrSources cs. b = (buf @ n_path d) @ q \<and> sameFold ?q (q @ [slash])"
        by (erule findOkE)
      have eq: "find rx uf ?n path buf = (if found then FindRes found tsr b else FindRes False False buf)"
        using True same fold r no by (simp add: afterRemove_restore)
      have kids: "q \<in> fst ` \<Union> (pathRoutes ` set cs) \<longleftrightarrow> q \<in> fst ` set (routes ?n)" if "q \<noteq> []" for q
        using that unfolding set_routes [of ?n] by (auto simp: image_Un split: option.splits)
      have join: "sameFold path (n_path d @ q) \<longleftrightarrow> sameFold ?q q" for q
        using True same sameFold_append [of "take ?l path" "n_path d" ?q q] by simp
      have up: "n_path d @ q \<in> fst ` pathRoutes ?n" if "q \<in> fst ` set (routes ?n)" for q
        using that by (force simp: pathRoutes_def)
      show ?thesis
      proof (cases found)
        case False
        have "\<not> sameFold path q" if "q \<in> fst ` pathRoutes ?n" for q
        proof
          assume s: "sameFold path q"
          from that obtain t h where t: "q = n_path d @ t" "(t, h) \<in> set (routes ?n)" by (auto simp: rts)
          with s join have "sameFold ?q t" by blast
          moreover from this True have "t \<noteq> []" by (auto dest: sameFold_length)
          then have "t \<in> fst ` \<Union> (pathRoutes ` set cs)" using kids t(2) by force
          ultimately show False using no [OF False] by blast
        qed
        then show ?thesis unfolding eq using False by (simp add: findOk_simps)
      next
        case True
        show ?thesis
        proof (cases tsr)
          case False
          from yes [OF True False] obtain q where q: "q \<in> fst ` \<Union> (pathRoutes ` set cs)"
            "b = (buf @ n_path d) @ q" "sameFold ?q q" by blast
          then have "q \<in> fst ` set (routes ?n)" unfolding set_routes [of ?n] by (auto simp: image_Un)
          then show ?thesis unfolding eq using q join up True False by (auto simp: findOk_simps intro!: bexI [of _ "n_path d @ q"])
        next
          case ts: True
          from tsr [OF True ts] obtain q where q: "q \<in> tsrSources cs"
            "b = (buf @ n_path d) @ q" "sameFold ?q (q @ [slash])" by blast
          then have "q \<in> fst ` set (routes ?n)" using tsrSources_routes [OF "1.prems"(1)] by auto
          then show ?thesis unfolding eq using q join [of "q @ [slash]"] up True ts
            by (auto simp: findOk_simps intro!: bexI [of _ "n_path d @ q"])
        qed
      qed
    qed
  next
    case False
    have fold: "EqualFold uf path (n_path d) \<longleftrightarrow> sameFold path (n_path d)"
      using "1.prems" by (simp add: EqualFold_ascii)
    have only: "q = n_path d \<and> n_handler d \<noteq> None" if "q \<in> fst ` pathRoutes ?n" "sameFold path q" for q
    proof -
      from that(1) obtain t h where t: "q = n_path d @ t" "(t, h) \<in> set (routes ?n)" by (auto simp: rts)
      with that(2) False have "t = []" by (auto dest!: sameFold_length)
      with t own show ?thesis by auto
    qed
    have here: "n_path d \<in> fst ` pathRoutes ?n" if "n_handler d \<noteq> None"
      using that own rts by auto
    show ?thesis
    proof (cases "sameFold path (n_path d)")
      case True
      show ?thesis
      proof (cases "n_tsr d")
        case ts: True
        then have "n_path d = [slash]" using "1.prems"(3) by simp
        with True ts False fold show ?thesis by (auto simp: findOk_simps afterRemove_restore)
      next
        case nt: False
        have eq: "find rx uf ?n path buf =
            (if n_handler d \<noteq> None then FindRes True False (buf @ n_path d) else FindRes False False buf)"
          using nt True False fold by (simp add: afterRemove_restore)
        show ?thesis
        proof (cases "n_handler d = None")
          case none: True
          then have "\<forall>q \<in> fst ` pathRoutes ?n. \<not> sameFold path q" using only by blast
          then show ?thesis unfolding eq using none by simp
        next
          case some: False
          from here [OF some] True show ?thesis unfolding eq using some
            by simp
        qed
      qed
    next
      case no: False
      have "find rx uf ?n path buf = FindRes False False buf" using no False fold by simp
      moreover have "\<forall>q \<in> fst ` pathRoutes ?n. \<not> sameFold path q"
      proof (intro ballI notI)
        fix q assume "q \<in> fst ` pathRoutes ?n" "sameFold path q"
        from only [OF this] no \<open>sameFold path q\<close> show False by simp
      qed
      ultimately show ?thesis by (simp del: find.simps)
    qed
  qed
next
  case (2 rx uf wc path buf)
  then show ?case by (simp add: findOk_simps)
next
  case (3 rx uf d cc cs wc path buf)
  let ?c = "Node d cc"
  let ?rs = "fst ` \<Union> (pathRoutes ` set (?c # cs))"
  have c: "staticNode P ?c" and ty: "nType d = NStatic" using "3.prems"(2) by (auto simp: staticNode.simps)
  have "findOk (find rx uf ?c path buf) buf path (fst ` pathRoutes ?c)
      ((if ntsr ?c then {[]} else {}) \<union> fst ` pathRoutes ?c)"
    using "3.IH"(1) [OF ty] c "3.prems" by (simp add: staticNode_iff [of _ ?c])
  then obtain found tsr b where r: "find rx uf ?c path buf = FindRes found tsr b"
    and no: "\<not> found \<Longrightarrow> b = buf \<and> (\<forall>q \<in> fst ` pathRoutes ?c. \<not> sameFold path q)"
    and yes: "found \<Longrightarrow> \<not> tsr \<Longrightarrow> \<exists>q \<in> fst ` pathRoutes ?c. b = buf @ q \<and> sameFold path q"
    and ts: "found \<Longrightarrow> tsr \<Longrightarrow> \<exists>q \<in> (if ntsr ?c then {[]} else {}) \<union> fst ` pathRoutes ?c.
        b = buf @ q \<and> sameFold path (q @ [slash])"
    by (erule findOkE)
  show ?case
  proof (cases found)
    case True
    have eq: "findChildren rx uf (?c # cs) wc path buf = FindRes found tsr b"
      using True r ty by (simp del: find.simps)
    have "fst ` pathRoutes ?c \<subseteq> ?rs" by auto
    moreover have "(if ntsr ?c then {[]} else {}) \<union> fst ` pathRoutes ?c \<subseteq> tsrSources (?c # cs)"
      by (auto simp: tsrSources_def)
    ultimately show ?thesis unfolding eq findOk_simps using yes ts True by (cases tsr) (simp; blast)+
  next
    case False
    have b: "b = buf" and none: "\<forall>q \<in> fst ` pathRoutes ?c. \<not> sameFold path q" using no [OF False] by blast+
    have eq: "findChildren rx uf (?c # cs) wc path buf = findChildren rx uf cs wc path buf"
      using False r ty b by (simp del: find.simps)
    have "findOk (findChildren rx uf cs wc path buf) buf path (fst ` \<Union> (pathRoutes ` set cs)) (tsrSources cs)"
      using "3.IH"(2) [OF ty r False] b "3.prems" by simp
    moreover have "?rs = fst ` pathRoutes ?c \<union> fst ` \<Union> (pathRoutes ` set cs)" by auto
    ultimately show ?thesis unfolding eq using findOk_next [OF _ none tsrSources_Cons] by metis
  qed
qed

lemma staticTree_root: "staticTree t \<Longrightarrow> ascii (npath (root t)) \<and> \<not> ntsr (root t)"
  by (auto simp: staticTree_def staticRoot_def)

lemma static_route_last: "staticBody P n \<Longrightarrow> (s, h) \<in> set (routes n) \<Longrightarrow> s \<noteq> [] \<Longrightarrow> last s \<noteq> slash"
proof (induction n arbitrary: s)
  case (Node d cs)
  from Node.prems(2,3) obtain c where c: "c \<in> set cs" "(s, h) \<in> pathRoutes c"
    unfolding set_routes [of "Node d cs"] by (auto split: option.splits)
  then obtain q where q: "s = npath c @ q" "(q, h) \<in> set (routes c)" by (auto simp: pathRoutes_iff)
  have sc: "staticNode P c" using Node.prems(1) c(1) by (simp add: staticBody_def)
  then have sb: "staticBody P c" by (simp add: staticNode_iff)
  show ?case
  proof (cases "q = []")
    case True
    with q routes_here [OF sb] have "nhandler c \<noteq> None" by simp
    with sc True q show ?thesis by (simp add: staticNode_iff)
  next
    case False
    with Node.IH [OF c(1) sb q(2)] q show ?thesis by simp
  qed
qed

lemma route_last:
  assumes t: "staticTree t" and q: "q \<in> routePaths t"
  shows "q \<noteq> []" "q = [slash] \<or> last q \<noteq> slash"
proof -
  from q have r: "staticRoot ordSib (root t)"
    using t by (auto simp: staticTree_def routePaths_def treeRoutes_def)
  from q obtain s h where s: "q = npath (root t) @ s" "(s, h) \<in> set (routes (root t))"
    by (auto simp: routePaths_def treeRoutes_def pathRoutes_def)
  show "q \<noteq> []" using r s(1) by (auto simp: staticRoot_def HasPrefix_slash)
  show "q = [slash] \<or> last q \<noteq> slash"
  proof (cases "s = []")
    case True
    with s(2) routes_here [OF staticTree_body [OF t]] have "nhandler (root t) \<noteq> None" by simp
    with r s(1) True show ?thesis by (auto simp: staticRoot_def)
  next
    case False
    with static_route_last [OF staticTree_body [OF t] s(2)] have "last s \<noteq> slash" by blast
    with s(1) False show ?thesis by simp
  qed
qed

section \<open>Properties\<close>

text \<open>
  C6 \<open>FindCaseInsensitivePath\<close> on a tree of static routes, for an ASCII request path: it succeeds
  whenever some registered route equals the path up to ASCII case, and when it succeeds the buffer
  holds a registered route that equals the path up to case, or, only if fixing trailing slashes was
  asked for, one that does so after a slash is added.
\<close>

theorem radix_find_fold:
  assumes "staticTree t" "ascii path"
  shows "((\<exists>q \<in> routePaths t. sameFold path q) \<longrightarrow>
      (\<exists>b. FindCaseInsensitivePath rx uf t path fx [] = Inr (True, b))) \<and>
    (\<forall>b. FindCaseInsensitivePath rx uf t path fx [] = Inr (True, b) \<longrightarrow> b \<in> routePaths t \<and>
      (sameFold path b \<or> fx \<and> sameFold path (b @ [slash])))"
proof -
  have "findOk (find rx uf (root t) path []) [] path (routePaths t) (routePaths t)"
    using static_find(1) [OF staticTree_body [OF assms(1)] _ _ assms(2)] staticTree_root [OF assms(1)]
    by (simp add: routePaths_def treeRoutes_def)
  then obtain found tsr b where r: "find rx uf (root t) path [] = FindRes found tsr b"
    and no: "\<not> found \<Longrightarrow> b = [] \<and> (\<forall>q \<in> routePaths t. \<not> sameFold path q)"
    and yes: "found \<Longrightarrow> \<not> tsr \<Longrightarrow> \<exists>q \<in> routePaths t. b = [] @ q \<and> sameFold path q"
    and ts: "found \<Longrightarrow> tsr \<Longrightarrow> \<exists>q \<in> routePaths t. b = [] @ q \<and> sameFold path (q @ [slash])"
    by (erule findOkE)
  have "\<not> tsr" if "found" "q \<in> routePaths t" "sameFold path q" for q
  proof
    assume tsr
    with ts that(1) have s: "sameFold path (b @ [slash])" "b \<in> routePaths t" by auto
    with route_last [OF assms(1)] have "b \<noteq> []" by blast
    have "path \<noteq> []" using s(1) by (auto dest: sameFold_length)
    with sameFold_last [OF s(1)] sameFold_last [OF that(3)] have "last q = slash"
      by (simp add: charFold_slash)
    with route_last [OF assms(1) that(2)] have "q = [slash]" by blast
    with s(1) that(3) have "length (b @ [slash]) = 1" by (auto dest!: sameFold_length)
    with \<open>b \<noteq> []\<close> show False by simp
  qed
  with r no yes ts show ?thesis by (auto simp: FindCaseInsensitivePath_def)
qed

theorem radix_find_fold_witness:
  "staticTree demoTree \<and> (\<exists>b. FindCaseInsensitivePath noMatch (\<lambda>_ _. False) demoTree ''/USERS/New'' False [] = Inr (True, b))"
proof -
  have "ascii ''/USERS/New''" by simp
  moreover have "''/users/new'' \<in> routePaths demoTree" by (simp add: demoTree_route)
  moreover have "sameFold ''/USERS/New'' ''/users/new''" by code_simp
  ultimately show ?thesis
    using radix_find_fold [OF static_demoTree, of "''/USERS/New''" noMatch "\<lambda>_ _. False" False] static_demoTree
    by blast
qed

text \<open>
  In any tree, a search that finds nothing leaves the buffer as it was: every branch that fails
  takes back exactly the bytes it wrote, and \<open>bufferRemoveString\<close> never cuts into older content.
\<close>

theorem radix_find_restores:
  assumes "find rx uf n path buf = FindRes False tsr buf'"
  shows "buf' = buf"
  using find_restores(1) [OF assms] .

theorem radix_find_restores_witness:
  "find noMatch (\<lambda>_ _. False) (root demoTree) ''/users/old'' ''http:'' = FindRes False False ''http:''"
proof -
  have "case find noMatch (\<lambda>_ _. False) (root demoTree) ''/users/old'' ''http:'' of
      FindRes False False b \<Rightarrow> True | _ \<Rightarrow> False" by code_simp
  then obtain b where b: "find noMatch (\<lambda>_ _. False) (root demoTree) ''/users/old'' ''http:'' = FindRes False False b"
    by (auto split: findRes.splits bool.splits)
  with radix_find_restores [OF b] show ?thesis by simp
qed

end
