(* ===== verification/Radix_Safe.thy ===== *)
theory Radix_Safe
  imports Radix_Wf Radix_Find
begin

text \<open>
  The case-insensitive search does not panic either in a well-formed tree without regular expressions:
  it follows children that are static nodes or parameters, and takes back from the buffer only what it
  wrote (\<open>find_restores\<close>).
\<close>

lemma find_no_panic:
  fixes n :: "'h node" and cs :: "'h node list"
  shows "wfBody n \<Longrightarrow> noRegex n \<Longrightarrow> find rx uf n path buf \<noteq> FindPanic p"
    "\<forall>c \<in> set cs. wfKid c \<and> noRegex c \<Longrightarrow> findChildren rx uf cs wc path buf \<noteq> FindPanic p"
proof (induction rx uf n path buf and rx uf cs wc path buf rule: find_findChildren.induct)
  case (1 rx uf d cs path buf)
  let ?r = "findChildren rx uf cs (n_wildcard d) (drop (length (n_path d)) path) (buf @ n_path d)"
  have same: "b' = buf @ n_path d" if "?r = FindRes False t b'" for t b'
    using find_restores(2) [OF that] .
  have kids: "\<forall>c \<in> set cs. wfKid c \<and> noRegex c" using "1.prems" by (simp add: wfBody_def)
  show ?case
  proof (cases "length (n_path d) < length path \<and> EqualFold uf (take (length (n_path d)) path) (n_path d)")
    case True
    then have np: "?r \<noteq> FindPanic p" using "1.IH" kids by simp
    show ?thesis
    proof (cases ?r)
      case (FindRes found t b')
      with True same show ?thesis by (cases found) (simp_all add: afterRemove_restore)
    qed (use np True in auto)
  next
    case False
    then show ?thesis by (auto simp: afterRemove_restore)
  qed
next
  case (2 rx uf wc path buf)
  then show ?case by simp
next
  case (3 rx uf d cc cs wc path buf)
  have c: "nType d = NStatic \<or> nType d = NParam" "wfBody (Node d cc)" "noRegex (Node d cc)" "n_paramRegex d = None"
    "\<forall>c \<in> set cc. wfKid c \<and> noRegex c" "\<forall>c \<in> set cs. wfKid c \<and> noRegex c"
    using "3.prems" by (auto simp: wfKid.simps wfBody_def)
  show ?case
  proof (cases "nType d = NStatic")
    case True
    have nf: "find rx uf (Node d cc) path buf \<noteq> FindPanic p" using "3.IH"(1) [OF True] c by blast
    show ?thesis
    proof (cases "find rx uf (Node d cc) path buf")
      case (FindRes found t b)
      show ?thesis
      proof (cases found)
        case False
        have "findChildren rx uf cs wc path b \<noteq> FindPanic p"
          using "3.IH"(2) [OF True FindRes False] c(6) by blast
        with True FindRes False show ?thesis by (simp del: find.simps)
      qed (use True FindRes in \<open>simp del: find.simps\<close>)
    qed (use True nf in \<open>simp del: find.simps\<close>)
  next
    case False
    with c(1) have ty: "nType d = NParam" by simp
    let ?e = "segmentEndIndex path False"
    have m: "paramMatch rx (n_paramRegex d) path = Inr (Some (int ?e, None))" using c(4) by (simp add: paramMatch_plain)
    have rng: "\<not> (int ?e < 0 \<or> int (length path) < int ?e)" using segmentEndIndex_le [of path] by simp
    show ?thesis
    proof (cases "?e < length path")
      case True
      let ?r = "findChildren rx uf cc (n_wildcard d) (drop ?e path) (buf @ take ?e path)"
      have lt: "int ?e < int (length path)" using True by simp
      have np: "?r \<noteq> FindPanic p" using "3.IH"(4) [OF ty m refl refl rng refl refl lt] c(5) by simp
      show ?thesis
      proof (cases ?r)
        case (FindRes found t b)
        show ?thesis
        proof (cases found)
          case False
          then have "b = buf @ take ?e path" using find_restores(2) [of rx uf cc _ _ _ t b] FindRes by simp
          moreover have "findChildren rx uf cs wc path buf \<noteq> FindPanic p"
            using "3.IH"(5) [OF ty m refl refl rng refl refl lt, of found t b buf] FindRes False c(6) by simp
          ultimately show ?thesis using ty m True FindRes False by (simp add: Let_def afterRemove_restore)
        qed (use ty m True FindRes in \<open>simp add: Let_def\<close>)
      qed (use ty m True np in \<open>simp add: Let_def\<close>)
    next
      case False
      then have ge: "\<not> int ?e < int (length path)" by simp
      have "findChildren rx uf cs wc path buf \<noteq> FindPanic p" if "\<not> n_tsr d" "n_handler d = None"
        using "3.IH"(6) [OF ty m refl refl rng refl refl ge that(1), of buf] that(2) c(6) by simp
      with ty m False rng show ?thesis by (auto simp: Let_def afterRemove_restore)
    qed
  qed
qed

lemma FindCaseInsensitivePath_total:
  assumes "wfTree t" "noRegex (root t)"
  shows "\<exists>found buf'. FindCaseInsensitivePath rx uf t path fix buf = Inr (found, buf')"
proof -
  have "find rx uf (root t) path buf \<noteq> FindPanic p" for p
    using find_no_panic(1) assms by (simp add: wfTree_def)
  then show ?thesis
    by (cases "find rx uf (root t) path buf") (auto simp: FindCaseInsensitivePath_def)
qed

end
