(* ===== verification/Strconv.thy ===== *)
theory Strconv
  imports Prelude
begin

text \<open>
  The parts of packages \<open>strconv\<close> and \<open>strings\<close> that read numbers and trim space: \<open>ParseInt\<close> in base
  ten for 64 bits (and \<open>Atoi\<close>, the same for \<open>int\<close> on a 64-bit platform), decimal printing, \<open>TrimSpace\<close>
  and \<open>ToLower\<close> on ASCII. A parse error is \<open>SyntaxErr\<close> or \<open>RangeErr\<close>, whichever the scan meets first.
\<close>

datatype numErr = SyntaxErr | RangeErr

definition isDigit :: "char \<Rightarrow> bool" where
  "isDigit c \<longleftrightarrow> 48 \<le> (of_char c :: nat) \<and> (of_char c :: nat) \<le> 57"

definition digitVal :: "char \<Rightarrow> nat" where
  "digitVal c = of_char c - 48"

text \<open>\<open>ParseUint\<close>: each digit is checked before the value that it would give.\<close>

fun parseDigits :: "nat \<Rightarrow> bytes \<Rightarrow> numErr + nat" where
  "parseDigits n [] = Inr n"
| "parseDigits n (c # cs) =
     (if \<not> isDigit c then Inl SyntaxErr
      else if 10 * n + digitVal c \<ge> 2 ^ 64 then Inl RangeErr
      else parseDigits (10 * n + digitVal c) cs)"

definition ParseInt :: "bytes \<Rightarrow> numErr + int" where
  "ParseInt s =
     (let neg = HasPrefix s ''-''; ds = (if neg \<or> HasPrefix s ''+'' then tl s else s) in
      if ds = [] then Inl SyntaxErr
      else case parseDigits 0 ds of
        Inl e \<Rightarrow> Inl e
      | Inr n \<Rightarrow>
          if \<not> neg \<and> n \<ge> 2 ^ 63 then Inl RangeErr
          else if neg \<and> n > 2 ^ 63 then Inl RangeErr
          else Inr (if neg then - int n else int n))"

fun showNat :: "nat \<Rightarrow> bytes" where
  "showNat n = (if n < 10 then [char_of (48 + n)] else showNat (n div 10) @ [char_of (48 + n mod 10)])"

declare showNat.simps [simp del]

definition showInt :: "int \<Rightarrow> bytes" where
  "showInt i = (if i < 0 then ''-'' @ showNat (nat (- i)) else showNat (nat i))"

text \<open>\<open>unicode.IsSpace\<close> and \<open>strings.TrimSpace\<close>.\<close>

definition isSpaceRune :: "rune \<Rightarrow> bool" where
  "isSpaceRune r \<longleftrightarrow> (9 \<le> r \<and> r \<le> 13) \<or> r = 32 \<or> r = 0x85 \<or> r = 0xA0 \<or> r = 0x1680 \<or>
     (0x2000 \<le> r \<and> r \<le> 0x200A) \<or> r = 0x2028 \<or> r = 0x2029 \<or> r = 0x202F \<or> r = 0x205F \<or> r = 0x3000"

definition TrimSpace :: "bytes \<Rightarrow> bytes" where
  "TrimSpace s =
     (let rs = decodeAll s;
          l = sum_list (map snd (takeWhile (isSpaceRune \<circ> fst) rs));
          r = sum_list (map snd (takeWhile (isSpaceRune \<circ> fst) (rev rs)))
      in take (length s - r - l) (drop l s))"

definition lowerByte :: "char \<Rightarrow> char" where
  "lowerByte c = (if 65 \<le> (of_char c :: nat) \<and> (of_char c :: nat) \<le> 90 then char_of (of_char c + 32 :: nat) else c)"

section \<open>Numbers\<close>

lemma digitVal_lt: "isDigit c \<Longrightarrow> digitVal c < 10"
  by (auto simp: isDigit_def digitVal_def)

lemma digit_char [simp]: "n < 10 \<Longrightarrow> isDigit (char_of (48 + n))" "n < 10 \<Longrightarrow> digitVal (char_of (48 + n)) = n"
  by (simp_all add: isDigit_def digitVal_def)

lemma parseDigits_append:
  "parseDigits n (as @ bs) = (case parseDigits n as of Inl e \<Rightarrow> Inl e | Inr m \<Rightarrow> parseDigits m bs)"
  by (induction n as rule: parseDigits.induct) auto

lemma parseDigits_show: "n < 2 ^ 64 \<Longrightarrow> parseDigits 0 (showNat n) = Inr n"
proof (induction n rule: showNat.induct)
  case (1 n)
  show ?case
  proof (cases "n < 10")
    case True
    with "1.prems" show ?thesis by (simp add: showNat.simps [of n])
  next
    case False
    have "parseDigits 0 (showNat (n div 10)) = Inr (n div 10)" using "1.IH" False "1.prems" by simp
    with False "1.prems" show ?thesis
      by (simp add: showNat.simps [of n] parseDigits_append)
  qed
qed

lemma parseDigits_bound: "parseDigits n ds = Inr m \<Longrightarrow> n < 2 ^ 64 \<Longrightarrow> m < 2 ^ 64"
  by (induction n ds rule: parseDigits.induct) (auto split: if_splits)

lemma showNat_ne [simp]: "showNat n \<noteq> []"
  by (subst showNat.simps) simp

lemma showNat_hd: "isDigit (hd (showNat n))"
proof (induction n rule: showNat.induct)
  case (1 n)
  then show ?case by (subst showNat.simps) (auto simp: hd_append)
qed

lemma showNat_sign: "\<not> HasPrefix (showNat n) ''-''" "\<not> HasPrefix (showNat n) ''+''"
proof -
  obtain c cs where s: "showNat n = c # cs" by (cases "showNat n") auto
  with showNat_hd [of n] have "isDigit c" by simp
  then have "c \<noteq> CHR ''-''" "c \<noteq> CHR ''+''" by (auto simp: isDigit_def)
  then show "\<not> HasPrefix (showNat n) ''-''" "\<not> HasPrefix (showNat n) ''+''"
    by (auto simp: s HasPrefix_iff)
qed

lemma ParseInt_show:
  assumes "- (2 ^ 63) \<le> i" "i < 2 ^ 63"
  shows "ParseInt (showInt i) = Inr i"
proof (cases "i < 0")
  case True
  with assms parseDigits_show [of "nat (- i)"] show ?thesis
    by (simp add: ParseInt_def showInt_def HasPrefix_iff Let_def)
next
  case False
  with assms parseDigits_show [of "nat i"] show ?thesis
    by (simp add: ParseInt_def showInt_def Let_def showNat_sign nat_less_iff)
qed

lemma ParseInt_range: "ParseInt s = Inr i \<Longrightarrow> - (2 ^ 63) \<le> i \<and> i < 2 ^ 63"
  by (auto simp: ParseInt_def Let_def split: if_splits sum.splits)

end
