(* ===== verification/Response_Store.thy ===== *)
theory Response_Store
  imports Strconv
begin

text \<open>
  The response object of the server library, seen through the calls the sources make on it. The type
  of responses \<open>'r\<close> and the operations are parameters, collected in the record \<open>respOps\<close>; what the
  library documents of them is the locale \<open>response_store\<close>: setters are seen by their own getter and by
  no other, header names are compared up to ASCII case (\<open>lowerKey\<close>), and \<open>Reset\<close> forgets status, body and
  headers. The few names the library keeps outside its header list (\<open>Content-Type\<close> and its like)
  are \<open>specialKey\<close>s, of which nothing is assumed. A store that keeps headers in an association list satisfies the contract.
\<close>

record 'r respOps =
  r_SetStatusCode :: "int \<Rightarrow> 'r \<Rightarrow> 'r"
  r_StatusCode :: "'r \<Rightarrow> int"
  r_SetContentType :: "bytes \<Rightarrow> 'r \<Rightarrow> 'r"
  r_ContentType :: "'r \<Rightarrow> bytes"
  r_SetBody :: "bytes \<Rightarrow> 'r \<Rightarrow> 'r"
  r_Body :: "'r \<Rightarrow> bytes"
  r_SetHeader :: "bytes \<Rightarrow> bytes \<Rightarrow> 'r \<Rightarrow> 'r"
  r_AddHeader :: "bytes \<Rightarrow> bytes \<Rightarrow> 'r \<Rightarrow> 'r"
  r_PeekHeader :: "bytes \<Rightarrow> 'r \<Rightarrow> bytes"
  r_DelHeader :: "bytes \<Rightarrow> 'r \<Rightarrow> 'r"
  r_Reset :: "'r \<Rightarrow> 'r"
  r_Redirect :: "bytes \<Rightarrow> int \<Rightarrow> 'r \<Rightarrow> 'r"

definition lowerKey :: "bytes \<Rightarrow> bytes" where
  "lowerKey k = map lowerByte k"

definition specialKey :: "bytes \<Rightarrow> bool" where
  "specialKey k \<longleftrightarrow> lowerKey k \<in> {''content-type'', ''content-length'', ''content-encoding'', ''connection'',
     ''server'', ''date'', ''set-cookie'', ''transfer-encoding'', ''trailer''}"

locale response_store =
  fixes ro :: "'r respOps"
  assumes status_status [simp]: "r_StatusCode ro (r_SetStatusCode ro s r) = s"
    and status_ct [simp]: "r_StatusCode ro (r_SetContentType ro t r) = r_StatusCode ro r"
    and status_body [simp]: "r_StatusCode ro (r_SetBody ro b r) = r_StatusCode ro r"
    and status_header [simp]: "r_StatusCode ro (r_SetHeader ro k v r) = r_StatusCode ro r"
    and body_body [simp]: "r_Body ro (r_SetBody ro b r) = b"
    and body_status [simp]: "r_Body ro (r_SetStatusCode ro s r) = r_Body ro r"
    and body_ct [simp]: "r_Body ro (r_SetContentType ro t r) = r_Body ro r"
    and body_header [simp]: "r_Body ro (r_SetHeader ro k v r) = r_Body ro r"
    and body_reset [simp]: "r_Body ro (r_Reset ro r) = []"
    and ct_ct [simp]: "r_ContentType ro (r_SetContentType ro t r) = t"
    and ct_body [simp]: "r_ContentType ro (r_SetBody ro b r) = r_ContentType ro r"
    and peek_status [simp]: "r_PeekHeader ro k (r_SetStatusCode ro s r) = r_PeekHeader ro k r"
    and peek_ct [simp]: "\<not> specialKey k \<Longrightarrow> r_PeekHeader ro k (r_SetContentType ro t r) = r_PeekHeader ro k r"
    and peek_body [simp]: "r_PeekHeader ro k (r_SetBody ro b r) = r_PeekHeader ro k r"
    and peek_same: "\<not> specialKey k \<Longrightarrow> lowerKey k = lowerKey k' \<Longrightarrow> r_PeekHeader ro k (r_SetHeader ro k' v r) = v"
    and peek_other: "\<not> specialKey k \<Longrightarrow> lowerKey k \<noteq> lowerKey k' \<Longrightarrow> r_PeekHeader ro k (r_SetHeader ro k' v r) = r_PeekHeader ro k r"
    and peek_reset [simp]: "\<not> specialKey k \<Longrightarrow> r_PeekHeader ro k (r_Reset ro r) = []"
begin

lemma peek_set: "\<not> specialKey k \<Longrightarrow>
    r_PeekHeader ro k (r_SetHeader ro k' v r) = (if lowerKey k = lowerKey k' then v else r_PeekHeader ro k r)"
  by (simp add: peek_same peek_other)

text \<open>A list of headers set one after the other: the last value of a name is seen.\<close>

lemma peek_sets:
  assumes "\<not> specialKey k"
  shows "r_PeekHeader ro k (foldl (\<lambda>r (n, v). r_SetHeader ro n v r) r hs) =
    (case find (\<lambda>(n, v). lowerKey n = lowerKey k) (rev hs) of Some (n, v) \<Rightarrow> v | None \<Rightarrow> r_PeekHeader ro k r)"
proof (induction hs arbitrary: r rule: rev_induct)
  case (snoc h hs)
  then show ?case using assms by (cases h) (auto simp: peek_set)
qed simp

lemma sets_same [simp]:
  "r_StatusCode ro (foldl (\<lambda>r (n, v). r_SetHeader ro n v r) r hs) = r_StatusCode ro r"
  "r_Body ro (foldl (\<lambda>r (n, v). r_SetHeader ro n v r) r hs) = r_Body ro r"
  by (induction hs arbitrary: r) (auto split: prod.splits)

end

section \<open>A store with an association list\<close>

record assocResp =
  ar_status :: int
  ar_contentType :: bytes
  ar_body :: bytes
  ar_headers :: "(bytes \<times> bytes) list"

definition assocPeek :: "bytes \<Rightarrow> assocResp \<Rightarrow> bytes" where
  "assocPeek k r = (if lowerKey k = ''content-type'' then ar_contentType r
     else case find (\<lambda>(n, _). lowerKey n = lowerKey k) (ar_headers r) of Some (_, v) \<Rightarrow> v | None \<Rightarrow> [])"

definition assocSet :: "bytes \<Rightarrow> bytes \<Rightarrow> assocResp \<Rightarrow> assocResp" where
  "assocSet k v r = (if lowerKey k = ''content-type'' then r\<lparr>ar_contentType := v\<rparr>
     else r\<lparr>ar_headers := (k, v) # filter (\<lambda>(n, _). lowerKey n \<noteq> lowerKey k) (ar_headers r)\<rparr>)"

definition assocOps :: "assocResp respOps" where
  "assocOps = \<lparr>r_SetStatusCode = (\<lambda>s r. r\<lparr>ar_status := s\<rparr>), r_StatusCode = ar_status,
     r_SetContentType = (\<lambda>t r. r\<lparr>ar_contentType := t\<rparr>), r_ContentType = ar_contentType,
     r_SetBody = (\<lambda>b r. r\<lparr>ar_body := b\<rparr>), r_Body = ar_body,
     r_SetHeader = assocSet, r_AddHeader = (\<lambda>k v r. r\<lparr>ar_headers := ar_headers r @ [(k, v)]\<rparr>),
     r_PeekHeader = assocPeek,
     r_DelHeader = (\<lambda>k r. r\<lparr>ar_headers := filter (\<lambda>(n, _). lowerKey n \<noteq> lowerKey k) (ar_headers r)\<rparr>),
     r_Reset = (\<lambda>r. \<lparr>ar_status = 200, ar_contentType = [], ar_body = [], ar_headers = []\<rparr>),
     r_Redirect = (\<lambda>uri code r. (assocSet ''Location'' uri r)\<lparr>ar_status := code\<rparr>)\<rparr>"

definition emptyResp :: assocResp where
  "emptyResp = \<lparr>ar_status = 200, ar_contentType = [], ar_body = [], ar_headers = []\<rparr>"

lemma find_filter_other:
  "lowerKey k \<noteq> lowerKey k' \<Longrightarrow>
   find (\<lambda>(n, _). lowerKey n = lowerKey k) (filter (\<lambda>(n, _). lowerKey n \<noteq> lowerKey k') hs) =
   find (\<lambda>(n, _). lowerKey n = lowerKey k) hs"
  by (induction hs) auto

interpretation assoc: response_store assocOps
  by unfold_locales
    (auto simp: assocOps_def assocPeek_def assocSet_def specialKey_def find_filter_other split: option.splits)

end
