(* ===== verification/Request_Values.thy ===== *)
theory Request_Values
  imports Strconv
begin

text \<open>
  Typed access to route parameters, query and form values: \<open>src/params.go\<close>, \<open>src/query.go\<close>,
  \<open>src/form.go\<close>, \<open>ParseBoolValue\<close> of \<open>src/internal/utils/convert.go\<close> and the parameter errors of
  \<open>src/errors.go\<close>.

  What the server library holds is seen through its accessors: \<open>Args\<close> is a list of pairs (\<open>All\<close>) with
  \<open>Peek\<close>, a multipart form two maps from keys to value lists. User values are \<open>uvalue\<close>s: a
  string, an integer, a flag or anything else. The operations return \<open>reqErr + 'a\<close>; the optional ones \<open>reqErr + 'a option\<close>, where
  \<^const>\<open>None\<close> is a nil pointer. The unsafe string views of \<open>B2S\<close> are the bytes themselves.

  Query and form repeat the same seven operations over a required string access. The locale
  \<open>typed_values\<close> states what they promise over that access and is interpreted on both.
\<close>

section \<open>Errors\<close>

datatype reqErr =
    ParamRequiredError bytes
  | ParamInvalidError bytes bytes "numErr option"
  | BadRequestError bytes "bytes option"

abbreviation StatusBadRequest :: nat where "StatusBadRequest \<equiv> 400"
abbreviation StatusUnprocessableEntity :: nat where "StatusUnprocessableEntity \<equiv> 422"

fun reqStatusCode :: "reqErr \<Rightarrow> nat" where
  "reqStatusCode (ParamRequiredError _) = StatusBadRequest"
| "reqStatusCode (ParamInvalidError _ _ _) = StatusUnprocessableEntity"
| "reqStatusCode (BadRequestError _ _) = StatusBadRequest"

definition fieldErrMsg :: "bytes \<Rightarrow> bytes \<Rightarrow> bytes \<Rightarrow> bytes" where
  "fieldErrMsg a b c = ''Key: '' @ [CHR 0x27] @ a @ [CHR 0x27] @ '' Error:Field validation for '' @
     [CHR 0x27] @ b @ [CHR 0x27] @ '' failed on the '' @ [CHR 0x27] @ c @ [CHR 0x27] @ '' tag''"

fun reqSafeError :: "reqErr \<Rightarrow> bytes" where
  "reqSafeError (ParamRequiredError name) = fieldErrMsg name name ''required''"
| "reqSafeError (ParamInvalidError name tag _) = fieldErrMsg name name tag"
| "reqSafeError (BadRequestError d _) = (if d = [] then ''malformed request'' else d)"

text \<open>\<open>Error()\<close>, given the text \<open>et\<close> of a number-parsing error.\<close>

fun reqErrorText :: "(numErr \<Rightarrow> bytes) \<Rightarrow> reqErr \<Rightarrow> bytes" where
  "reqErrorText et (ParamRequiredError _) = ''parameter required''"
| "reqErrorText et (ParamInvalidError _ _ None) = ''invalid parameter value''"
| "reqErrorText et (ParamInvalidError _ _ (Some e)) = et e"
| "reqErrorText et (BadRequestError d (Some e)) = e"
| "reqErrorText et (BadRequestError d None) = reqSafeError (BadRequestError d None)"

section \<open>Route parameters\<close>

datatype uvalue = UString bytes | UInt int | UBool bool | UOther

type_synonym userValues = "bytes \<rightharpoonup> uvalue"

definition paramHas :: "userValues \<Rightarrow> bytes \<Rightarrow> bool" where
  "paramHas ctx key \<longleftrightarrow> ctx key \<noteq> None"

definition paramString :: "userValues \<Rightarrow> bytes \<Rightarrow> bytes" where
  "paramString ctx key = (case ctx key of None \<Rightarrow> [] | Some (UString s) \<Rightarrow> s | Some _ \<Rightarrow> [])"

definition parseNumeric :: "bytes \<Rightarrow> bytes \<Rightarrow> reqErr + int" where
  "parseNumeric key s =
     (case ParseInt s of Inl e \<Rightarrow> Inl (ParamInvalidError key ''numeric'' (Some e)) | Inr v \<Rightarrow> Inr v)"

definition paramInt64 :: "userValues \<Rightarrow> bytes \<Rightarrow> reqErr + int" where
  "paramInt64 ctx key =
     (let s = paramString ctx key in if s = [] then Inr 0 else parseNumeric key s)"

definition paramInt :: "userValues \<Rightarrow> bytes \<Rightarrow> reqErr + int" where
  "paramInt ctx key = (case paramInt64 ctx key of Inl e \<Rightarrow> Inl e | Inr v \<Rightarrow> Inr v)"

section \<open>Query\<close>

record args =
  args_All :: "(bytes \<times> bytes) list"
  args_Peek :: "bytes \<Rightarrow> bytes"

text \<open>The loop over the commas of one value.\<close>

function cutCommas :: "bytes \<Rightarrow> bytes list" where
  "cutCommas v =
     (case Index v [comma] of
        None \<Rightarrow> [v]
      | Some idx \<Rightarrow> take idx v # cutCommas (drop (idx + 1) v))"
  by pat_completeness auto
termination
  by (relation "measure length") (auto dest: Index_Some)

declare cutCommas.simps [simp del]

definition ParseBoolValue :: "(rune \<Rightarrow> rune \<Rightarrow> bool) \<Rightarrow> bytes \<Rightarrow> bool" where
  "ParseBoolValue uf v \<longleftrightarrow> EqualFold uf v ''true'' \<or> v = ''1''"

definition queryValues :: "(rune \<Rightarrow> rune \<Rightarrow> bool) \<Rightarrow> args \<Rightarrow> bytes \<Rightarrow> bytes list" where
  "queryValues uf q key =
     concat (map (\<lambda>(k, val). if \<not> EqualFold uf key k then [] else cutCommas val) (args_All q))"

definition queryString :: "args \<Rightarrow> bytes \<Rightarrow> reqErr + bytes" where
  "queryString q key =
     (let v = args_Peek q key in if length v = 0 then Inl (ParamRequiredError key) else Inr v)"

definition queryStringOptional :: "args \<Rightarrow> bytes \<Rightarrow> bytes option" where
  "queryStringOptional q key = (let v = args_Peek q key in if length v = 0 then None else Some v)"

definition queryInt64 :: "args \<Rightarrow> bytes \<Rightarrow> reqErr + int" where
  "queryInt64 q key = (case queryString q key of Inl e \<Rightarrow> Inl e | Inr s \<Rightarrow> parseNumeric key s)"

definition queryInt64Optional :: "args \<Rightarrow> bytes \<Rightarrow> reqErr + int option" where
  "queryInt64Optional q key =
     (case queryStringOptional q key of
        None \<Rightarrow> Inr None
      | Some s \<Rightarrow> (case parseNumeric key s of Inl e \<Rightarrow> Inl e | Inr v \<Rightarrow> Inr (Some v)))"

definition queryInt :: "args \<Rightarrow> bytes \<Rightarrow> reqErr + int" where
  "queryInt q key = (case queryInt64 q key of Inl e \<Rightarrow> Inl e | Inr v \<Rightarrow> Inr v)"

definition queryIntOptional :: "args \<Rightarrow> bytes \<Rightarrow> reqErr + int option" where
  "queryIntOptional q key =
     (case queryInt64Optional q key of
        Inl e \<Rightarrow> Inl e | Inr None \<Rightarrow> Inr None | Inr (Some v) \<Rightarrow> Inr (Some v))"

definition queryBool :: "(rune \<Rightarrow> rune \<Rightarrow> bool) \<Rightarrow> args \<Rightarrow> bytes \<Rightarrow> reqErr + bool" where
  "queryBool uf q key =
     (case queryString q key of Inl e \<Rightarrow> Inl e | Inr v \<Rightarrow> Inr (ParseBoolValue uf v))"

definition queryBoolOptional :: "(rune \<Rightarrow> rune \<Rightarrow> bool) \<Rightarrow> args \<Rightarrow> bytes \<Rightarrow> reqErr + bool option" where
  "queryBoolOptional uf q key =
     (case queryStringOptional q key of
        None \<Rightarrow> Inr None | Some v \<Rightarrow> Inr (Some (ParseBoolValue uf v)))"

section \<open>Form\<close>

text \<open>
  The three implementations of \<open>formKeyValuer\<close>: no form, a URL-encoded body and a multipart form, whose
  \<open>Value\<close> and \<open>File\<close> maps give lists (a missing key reads as an empty list).
\<close>

record 'f multipartForm =
  mp_Value :: "bytes \<Rightarrow> bytes list"
  mp_File :: "bytes \<Rightarrow> 'f list"

datatype 'f form = NilArgs | PostArgs args | MultiPartArgs "'f multipartForm"

fun formValue :: "'f form \<Rightarrow> bytes \<Rightarrow> bytes" where
  "formValue NilArgs key = []"
| "formValue (PostArgs a) key = args_Peek a key"
| "formValue (MultiPartArgs m) key = (case mp_Value m key of [] \<Rightarrow> [] | v # _ \<Rightarrow> v)"

fun formValues :: "(rune \<Rightarrow> rune \<Rightarrow> bool) \<Rightarrow> 'f form \<Rightarrow> bytes \<Rightarrow> bytes list" where
  "formValues uf NilArgs key = []"
| "formValues uf (PostArgs a) key =
     concat (map (\<lambda>(k, val). if \<not> EqualFold uf key k then []
       else if comma \<in> set val then Split val comma else [val]) (args_All a))"
| "formValues uf (MultiPartArgs m) key = mp_Value m key"

fun formFile :: "'f form \<Rightarrow> bytes \<Rightarrow> 'f option" where
  "formFile (MultiPartArgs m) key = (case mp_File m key of [] \<Rightarrow> None | f # _ \<Rightarrow> Some f)"
| "formFile _ key = None"

fun formFiles :: "'f form \<Rightarrow> bytes \<Rightarrow> 'f list" where
  "formFiles (MultiPartArgs m) key = mp_File m key"
| "formFiles _ key = []"

definition formString :: "'f form \<Rightarrow> bytes \<Rightarrow> reqErr + bytes" where
  "formString f key =
     (let v = formValue f key in if length v = 0 then Inl (ParamRequiredError key) else Inr v)"

definition formStringOptional :: "'f form \<Rightarrow> bytes \<Rightarrow> bytes option" where
  "formStringOptional f key = (let v = formValue f key in if length v = 0 then None else Some v)"

definition formInt64 :: "'f form \<Rightarrow> bytes \<Rightarrow> reqErr + int" where
  "formInt64 f key = (case formString f key of Inl e \<Rightarrow> Inl e | Inr s \<Rightarrow> parseNumeric key s)"

definition formInt64Optional :: "'f form \<Rightarrow> bytes \<Rightarrow> reqErr + int option" where
  "formInt64Optional f key =
     (case formStringOptional f key of
        None \<Rightarrow> Inr None
      | Some s \<Rightarrow> (case parseNumeric key s of Inl e \<Rightarrow> Inl e | Inr v \<Rightarrow> Inr (Some v)))"

definition formInt :: "'f form \<Rightarrow> bytes \<Rightarrow> reqErr + int" where
  "formInt f key = (case formInt64 f key of Inl e \<Rightarrow> Inl e | Inr v \<Rightarrow> Inr v)"

definition formIntOptional :: "'f form \<Rightarrow> bytes \<Rightarrow> reqErr + int option" where
  "formIntOptional f key =
     (case formInt64Optional f key of
        Inl e \<Rightarrow> Inl e | Inr None \<Rightarrow> Inr None | Inr (Some v) \<Rightarrow> Inr (Some v))"

definition formBool :: "(rune \<Rightarrow> rune \<Rightarrow> bool) \<Rightarrow> 'f form \<Rightarrow> bytes \<Rightarrow> reqErr + bool" where
  "formBool uf f key =
     (case formString f key of Inl e \<Rightarrow> Inl e | Inr v \<Rightarrow> Inr (ParseBoolValue uf v))"

definition formBoolOptional :: "(rune \<Rightarrow> rune \<Rightarrow> bool) \<Rightarrow> 'f form \<Rightarrow> bytes \<Rightarrow> reqErr + bool option" where
  "formBoolOptional uf f key =
     (case formStringOptional f key of
        None \<Rightarrow> Inr None | Some v \<Rightarrow> Inr (Some (ParseBoolValue uf v)))"

definition formFileRequired :: "'f form \<Rightarrow> bytes \<Rightarrow> reqErr + 'f" where
  "formFileRequired f key =
     (case formFile f key of None \<Rightarrow> Inl (ParamRequiredError key) | Some v \<Rightarrow> Inr v)"

section \<open>The contract of typed access\<close>

locale typed_values =
  fixes raw :: "'s \<Rightarrow> bytes \<Rightarrow> bytes"
    and str :: "'s \<Rightarrow> bytes \<Rightarrow> reqErr + bytes" and strOpt :: "'s \<Rightarrow> bytes \<Rightarrow> bytes option"
    and i64 :: "'s \<Rightarrow> bytes \<Rightarrow> reqErr + int" and i64Opt :: "'s \<Rightarrow> bytes \<Rightarrow> reqErr + int option"
    and i :: "'s \<Rightarrow> bytes \<Rightarrow> reqErr + int" and iOpt :: "'s \<Rightarrow> bytes \<Rightarrow> reqErr + int option"
  assumes str_raw: "str s key = (if raw s key = [] then Inl (ParamRequiredError key) else Inr (raw s key))"
    and strOpt_raw: "strOpt s key = (if raw s key = [] then None else Some (raw s key))"
    and i64_raw: "i64 s key = (if raw s key = [] then Inl (ParamRequiredError key) else parseNumeric key (raw s key))"
    and i64Opt_raw: "i64Opt s key = (if raw s key = [] then Inr None else map_sum id Some (parseNumeric key (raw s key)))"
    and i_i64: "i s key = i64 s key" and iOpt_i64: "iOpt s key = i64Opt s key"
begin

text \<open>The optional access is the required one with the missing value made a nil pointer.\<close>

lemma optional_required:
  "i64Opt s key = (case i64 s key of
     Inl (ParamRequiredError _) \<Rightarrow> Inr None | Inl e \<Rightarrow> Inl e | Inr v \<Rightarrow> Inr (Some v))"
  by (auto simp: i64Opt_raw i64_raw parseNumeric_def split: sum.splits)

lemma int_cases:
  "i64 s key = Inl (ParamRequiredError key) \<and> raw s key = [] \<or>
   (\<exists>e. i64 s key = Inl (ParamInvalidError key ''numeric'' (Some e)) \<and> ParseInt (raw s key) = Inl e \<and> raw s key \<noteq> []) \<or>
   (\<exists>v. i64 s key = Inr v \<and> ParseInt (raw s key) = Inr v \<and> - (2 ^ 63) \<le> v \<and> v < 2 ^ 63)"
  by (cases "ParseInt (raw s key)") (auto simp: i64_raw parseNumeric_def dest: ParseInt_range)

lemma int_shown: "raw s key = showInt v \<Longrightarrow> - (2 ^ 63) \<le> v \<Longrightarrow> v < 2 ^ 63 \<Longrightarrow> i s key = Inr v"
  by (simp add: i_i64 i64_raw parseNumeric_def ParseInt_show) (simp add: showInt_def)

end

interpretation query: typed_values args_Peek queryString queryStringOptional queryInt64 queryInt64Optional
  queryInt queryIntOptional
  by unfold_locales
    (auto simp: queryString_def queryStringOptional_def queryInt64_def queryInt64Optional_def queryInt_def
      queryIntOptional_def Let_def split: sum.splits option.splits)

interpretation form: typed_values formValue formString formStringOptional formInt64 formInt64Optional
  formInt formIntOptional
  by unfold_locales
    (auto simp: formString_def formStringOptional_def formInt64_def formInt64Optional_def formInt_def
      formIntOptional_def Let_def split: sum.splits option.splits)

section \<open>Properties\<close>

text \<open>
  C10 An integer of a query round-trips: the decimal text of any 64-bit integer, put in the query, is
  read back as that integer by \<open>Int\<close> and by \<open>IntOptional\<close>.
\<close>

theorem query_int_roundtrip:
  assumes "args_Peek q key = showInt v" "- (2 ^ 63) \<le> v" "v < 2 ^ 63"
  shows "queryInt q key = Inr v \<and> queryIntOptional q key = Inr (Some v)"
  using query.int_shown [OF assms] query.optional_required [of q key]
  by (simp add: query.i_i64 query.iOpt_i64)

theorem query_int_roundtrip_witness:
  "queryInt \<lparr>args_All = [], args_Peek = (\<lambda>_. showInt (-42))\<rparr> ''n'' = Inr (-42)"
  using query_int_roundtrip [of "\<lparr>args_All = [], args_Peek = (\<lambda>_. showInt (-42))\<rparr>" "''n''" "-42"] by simp

lemma cutCommas_Split: "cutCommas v = Split v comma"
proof (induction v rule: cutCommas.induct)
  case (1 v)
  show ?case
  proof (cases "Index v [comma]")
    case None
    then have "comma \<notin> set v" by (simp add: Index_byte_None)
    with None show ?thesis by (subst cutCommas.simps) (simp add: Split_no_sep)
  next
    case (Some idx)
    then have "comma \<in> set v" using Index_byte_None by (metis option.distinct(1))
    then obtain u w where v: "v = u @ comma # w" "comma \<notin> set u" by (meson split_list_first)
    then have "idx = length u" using Some by (simp add: Index_byte_append)
    with 1 [OF Some] Some v show ?thesis by (subst cutCommas.simps) (simp add: Split_append)
  qed
qed

text \<open>
  A list of values is read the same way from a query and from a URL-encoded form with the same
  pairs: the values of every key that equals the asked one up to case, in order, split at commas.
\<close>

theorem query_form_values:
  "queryValues uf a key = formValues uf (PostArgs a) key \<and>
   queryValues uf a key = concat [Split v comma. (k, v) \<leftarrow> args_All a, EqualFold uf key k]"
proof -
  have lists: "concat (map (\<lambda>(k, val). if \<not> EqualFold uf key k then [] else cutCommas val) xs) =
      concat (map (\<lambda>(k, val). if \<not> EqualFold uf key k then []
        else if comma \<in> set val then Split val comma else [val]) xs) \<and>
    concat (map (\<lambda>(k, val). if \<not> EqualFold uf key k then [] else cutCommas val) xs) =
      concat [Split v comma. (k, v) \<leftarrow> xs, EqualFold uf key k]" for xs :: "(bytes \<times> bytes) list"
    by (induction xs) (auto simp: cutCommas_Split Split_no_sep)
  show ?thesis using lists [of "args_All a"] unfolding queryValues_def formValues.simps by blast
qed

end
