(* ===== verification/Trust.thy ===== *)
theory Trust
  imports Prelude "HOL-Library.Word"
begin

unbundle bit_operations_syntax

text \<open>
  Trusted sources and proxies: \<open>src/trusted_source.go\<close>, \<open>src/proxy.go\<close>, the defaults of
  \<open>src/metrics_options.go\<close> and the address part of \<open>src/request.go\<close> (\<open>Context.IP\<close>).

  An address of package \<open>net\<close> is a list of bytes (four or sixteen; nil is the empty list), a network
  an address and a mask. \<open>IP.Equal\<close>, \<open>IP.To4\<close> and \<open>IPNet.Contains\<close> are written out. The text parsers
  \<open>net.ParseIP\<close> and \<open>net.ParseCIDR\<close> are parameters \<open>pip\<close> and \<open>pcidr\<close> of the operations that call them.

  \<open>TrustedSource\<close> and \<open>ProxyOptions\<close> repeat the same three operations; the locale \<open>trust_list\<close> states
  what both promise and is interpreted on each.
\<close>

section \<open>Addresses of package net\<close>

type_synonym ip = "8 word list"

record ipNet =
  net_IP :: ip
  net_Mask :: ip

definition v4InV6Prefix :: ip where
  "v4InV6Prefix = [0, 0, 0, 0, 0, 0, 0, 0, 0, 0, 0xff, 0xff]"

definition IPv4 :: "8 word \<Rightarrow> 8 word \<Rightarrow> 8 word \<Rightarrow> 8 word \<Rightarrow> ip" where
  "IPv4 a b c d = v4InV6Prefix @ [a, b, c, d]"

definition To4 :: "ip \<Rightarrow> ip option" where
  "To4 a = (if length a = 4 then Some a
     else if length a = 16 \<and> take 12 a = v4InV6Prefix then Some (drop 12 a) else None)"

definition ipEqual :: "ip \<Rightarrow> ip \<Rightarrow> bool" where
  "ipEqual a x \<longleftrightarrow>
     (if length a = length x then a = x
      else if length a = 4 \<and> length x = 16 then take 12 x = v4InV6Prefix \<and> a = drop 12 x
      else if length a = 16 \<and> length x = 4 then take 12 a = v4InV6Prefix \<and> x = drop 12 a
      else False)"

definition networkNumberAndMask :: "ipNet \<Rightarrow> ip \<times> ip" where
  "networkNumberAndMask n =
     (let a = (case To4 (net_IP n) of Some x \<Rightarrow> x | None \<Rightarrow> net_IP n); m = net_Mask n in
      if To4 (net_IP n) = None \<and> length a \<noteq> 16 then ([], [])
      else if length m = 4 then (if length a \<noteq> 4 then ([], []) else (a, m))
      else if length m = 16 then (if length a = 4 then (a, drop 12 m) else (a, m))
      else ([], []))"

definition netContains :: "ipNet \<Rightarrow> ip \<Rightarrow> bool" where
  "netContains n a =
     (let (nn, m) = networkNumberAndMask n; a = (case To4 a of Some x \<Rightarrow> x | None \<Rightarrow> a) in
      length a = length nn \<and> map2 (AND) nn m = map2 (AND) a m)"

text \<open>An IPv4 and an IPv6 network as \<open>ParseCIDR\<close> returns them for a masked address and a prefix length.\<close>

definition cidrMask :: "nat \<Rightarrow> nat \<Rightarrow> ip" where
  "cidrMask ones n = map (\<lambda>i. if 8 * (i + 1) \<le> ones then 0xff
     else if ones \<le> 8 * i then 0 else NOT (mask (8 - (ones - 8 * i)))) [0..<n]"

definition cidr :: "ip \<Rightarrow> nat \<Rightarrow> ipNet" where
  "cidr a ones = \<lparr>net_IP = a, net_Mask = cidrMask ones (length a)\<rparr>"

section \<open>TrustedSource\<close>

record TrustedSource =
  TrustAll :: bool
  TrustedIPs :: "ip list"
  TrustedNetworks :: "ipNet list"

definition tsClear :: "TrustedSource \<Rightarrow> TrustedSource" where
  "tsClear t = t\<lparr>TrustAll := False, TrustedIPs := [], TrustedNetworks := []\<rparr>"

definition tsAdd ::
  "(bytes \<Rightarrow> ip option) \<Rightarrow> (bytes \<Rightarrow> ipNet option) \<Rightarrow> bytes \<Rightarrow> TrustedSource \<Rightarrow> TrustedSource" where
  "tsAdd pip pcidr ipnet t =
     (if ipnet = ''*'' then t\<lparr>TrustAll := True\<rparr>
      else if slash \<in> set ipnet then
        (case pcidr ipnet of
           None \<Rightarrow> t
         | Some network \<Rightarrow> t\<lparr>TrustedNetworks := TrustedNetworks t @ [network]\<rparr>)
      else (case pip ipnet of
           None \<Rightarrow> t
         | Some a \<Rightarrow> t\<lparr>TrustedIPs := TrustedIPs t @ [a]\<rparr>))"

definition IsTrusted :: "TrustedSource \<Rightarrow> ip \<Rightarrow> bool" where
  "IsTrusted t a \<longleftrightarrow>
     (if TrustAll t then True
      else if \<exists>tip \<in> set (TrustedIPs t). ipEqual tip a then True
      else \<exists>tnet \<in> set (TrustedNetworks t). netContains tnet a)"

definition defaultHealthzTrustedSource :: TrustedSource where
  "defaultHealthzTrustedSource = \<lparr>TrustAll = False, TrustedIPs = [], TrustedNetworks =
     [cidr [127, 0, 0, 0] 8,
      cidr [0, 0, 0, 0, 0, 0, 0, 0, 0, 0, 0, 0, 0, 0, 0, 1] 128,
      cidr [10, 0, 0, 0] 8,
      cidr [172, 16, 0, 0] 12,
      cidr [192, 168, 0, 0] 16,
      cidr [0xfc, 0, 0, 0, 0, 0, 0, 0, 0, 0, 0, 0, 0, 0, 0, 0] 7]\<rparr>"

record MetricsOptions =
  mo_TrustedSource :: TrustedSource
  mo_SkipPaths :: "bytes list"

definition defaultMetricsOptions :: MetricsOptions where
  "defaultMetricsOptions = \<lparr>mo_TrustedSource =
     \<lparr>TrustAll = False, TrustedIPs = [IPv4 127 0 0 1], TrustedNetworks = []\<rparr>, mo_SkipPaths = []\<rparr>"

section \<open>ProxyOptions\<close>

record ProxyOptions =
  po_ForwardLimit :: int
  po_TrustAll :: bool
  po_TrustedIPs :: "ip list"
  po_TrustedNetworks :: "ipNet list"
  po_TrustedHeaders :: "bytes list"

definition defaultProxyOptions :: ProxyOptions where
  "defaultProxyOptions = \<lparr>po_ForwardLimit = 1, po_TrustAll = False, po_TrustedIPs = [IPv4 127 0 0 1],
     po_TrustedNetworks = [], po_TrustedHeaders = []\<rparr>"

definition poClear :: "ProxyOptions \<Rightarrow> ProxyOptions" where
  "poClear opts = opts\<lparr>po_TrustAll := False, po_TrustedIPs := [], po_TrustedNetworks := []\<rparr>"

definition poAdd ::
  "(bytes \<Rightarrow> ip option) \<Rightarrow> (bytes \<Rightarrow> ipNet option) \<Rightarrow> bytes \<Rightarrow> ProxyOptions \<Rightarrow> ProxyOptions" where
  "poAdd pip pcidr ipnet opts =
     (if ipnet = ''*'' then opts\<lparr>po_TrustAll := True\<rparr>
      else if slash \<in> set ipnet then
        (case pcidr ipnet of
           None \<Rightarrow> opts
         | Some netmask \<Rightarrow> opts\<lparr>po_TrustedNetworks := po_TrustedNetworks opts @ [netmask]\<rparr>)
      else (case pip ipnet of
           None \<Rightarrow> opts
         | Some ipaddr \<Rightarrow> opts\<lparr>po_TrustedIPs := po_TrustedIPs opts @ [ipaddr]\<rparr>))"

text \<open>The peer of a connection; \<open>Context.IP\<close> is nil unless it is a TCP address with an IP.\<close>

datatype netAddr = TCPAddr ip | OtherAddr

definition contextIP :: "netAddr \<Rightarrow> ip option" where
  "contextIP ad = (case ad of TCPAddr a \<Rightarrow> if a = [] then None else Some a | OtherAddr \<Rightarrow> None)"

definition IsTrustedProxy :: "ProxyOptions \<Rightarrow> netAddr \<Rightarrow> bool" where
  "IsTrustedProxy opts ad \<longleftrightarrow>
     (if po_TrustAll opts then True
      else case contextIP ad of
        None \<Rightarrow> False
      | Some a \<Rightarrow>
          if \<exists>tip \<in> set (po_TrustedIPs opts). ipEqual tip a then True
          else \<exists>tnet \<in> set (po_TrustedNetworks opts). netContains tnet a)"

section \<open>The contract of a trust list\<close>

locale trust_list =
  fixes clr :: "'t \<Rightarrow> 't" and ad :: "bytes \<Rightarrow> 't \<Rightarrow> 't" and trusted :: "'t \<Rightarrow> ip \<Rightarrow> bool"
    and entry :: "bytes \<Rightarrow> ip \<Rightarrow> bool"
  assumes trusted_clr: "\<not> trusted (clr t) a"
    and trusted_ad: "trusted (ad s t) a \<longleftrightarrow> trusted t a \<or> entry s a"
begin

lemma trusted_addAll: "trusted (foldl (\<lambda>t s. ad s t) t ss) a \<longleftrightarrow> trusted t a \<or> (\<exists>s \<in> set ss. entry s a)"
  by (induction ss arbitrary: t) (auto simp: trusted_ad)

lemma trusted_from_clear: "trusted (foldl (\<lambda>t s. ad s t) (clr t) ss) a \<longleftrightarrow> (\<exists>s \<in> set ss. entry s a)"
  by (simp add: trusted_addAll trusted_clr)

lemma trusted_order: "set ss = set ss' \<Longrightarrow>
    trusted (foldl (\<lambda>t s. ad s t) (clr t) ss) a = trusted (foldl (\<lambda>t s. ad s t) (clr t') ss') a"
  by (simp add: trusted_from_clear)

end

text \<open>Which addresses one entry of a list stands for.\<close>

definition trustEntry :: "(bytes \<Rightarrow> ip option) \<Rightarrow> (bytes \<Rightarrow> ipNet option) \<Rightarrow> bytes \<Rightarrow> ip \<Rightarrow> bool" where
  "trustEntry pip pcidr s a \<longleftrightarrow> s = ''*'' \<or>
     s \<noteq> ''*'' \<and> (if slash \<in> set s then \<exists>n. pcidr s = Some n \<and> netContains n a
       else \<exists>t. pip s = Some t \<and> ipEqual t a)"

interpretation source: trust_list tsClear "tsAdd pip pcidr" IsTrusted "trustEntry pip pcidr" for pip pcidr
  by unfold_locales (auto simp: tsClear_def tsAdd_def IsTrusted_def trustEntry_def split: option.splits)

text \<open>
  For a proxy the peer counts only when it has an address; without one only the wildcard matches.
\<close>

definition proxyEntry :: "(bytes \<Rightarrow> ip option) \<Rightarrow> (bytes \<Rightarrow> ipNet option) \<Rightarrow> bytes \<Rightarrow> ip \<Rightarrow> bool" where
  "proxyEntry pip pcidr s a \<longleftrightarrow> (if a = [] then s = ''*'' else trustEntry pip pcidr s a)"

interpretation proxy: trust_list poClear "poAdd pip pcidr" "\<lambda>opts a. IsTrustedProxy opts (TCPAddr a)"
  "proxyEntry pip pcidr" for pip pcidr
  by unfold_locales
    (auto simp: poClear_def poAdd_def proxyEntry_def trustEntry_def IsTrustedProxy_def contextIP_def
      split: option.splits)

section \<open>Addresses: normal form and masks\<close>

definition normIP :: "ip \<Rightarrow> ip" where
  "normIP a = (case To4 a of Some x \<Rightarrow> x | None \<Rightarrow> a)"

lemma length_prefix [simp]: "length v4InV6Prefix = 12"
  by (simp add: v4InV6Prefix_def)

lemma To4_cases: "To4 a = Some x \<longleftrightarrow> length x = 4 \<and> (a = x \<or> a = v4InV6Prefix @ x)"
proof
  assume "To4 a = Some x"
  then show "length x = 4 \<and> (a = x \<or> a = v4InV6Prefix @ x)"
    by (auto simp: To4_def split: if_splits) (metis append_take_drop_id)
qed (auto simp: To4_def)

lemma mask_byte:
  assumes "i < n" "j < 8"
  shows "bit (cidrMask ones n ! i) j \<longleftrightarrow> 8 * i + (7 - j) < ones"
proof -
  have ff: "bit (0xff :: 8 word) j \<longleftrightarrow> j < 8" using assms(2)
    by (auto simp: less_Suc_eq numeral_eq_Suc)
  show ?thesis using assms ff
    by (auto simp: cidrMask_def bit_not_iff bit_mask_iff)
qed

lemma length_cidrMask [simp]: "length (cidrMask ones n) = n"
  by (simp add: cidrMask_def)

lemma word8_eq: "a = (b :: 8 word) \<longleftrightarrow> (\<forall>j < 8. bit a j \<longleftrightarrow> bit b j)"
  by (auto simp: bit_eq_iff dest: bit_imp_le_length)

lemma byte_index: "k < 8 * n \<Longrightarrow> k div 8 < n \<and> 7 - k mod 8 < (8 :: nat) \<and> 8 * (k div 8) + (7 - (7 - k mod 8)) = k"
  for k n :: nat
  using div_mult_mod_eq [of k 8] by (auto simp: less_mult_imp_div_less mult.commute)

lemma masked_bytes:
  assumes "length a = n" "length x = n" "ones \<le> 8 * n"
  shows "map2 (AND) a (cidrMask ones n) = map2 (AND) x (cidrMask ones n) \<longleftrightarrow>
    (\<forall>k < ones. bit (a ! (k div 8)) (7 - k mod 8) \<longleftrightarrow> bit (x ! (k div 8)) (7 - k mod 8))"
proof -
  have "map2 (AND) a (cidrMask ones n) = map2 (AND) x (cidrMask ones n) \<longleftrightarrow>
    (\<forall>i < n. \<forall>j < 8. 8 * i + (7 - j) < ones \<longrightarrow> (bit (a ! i) j \<longleftrightarrow> bit (x ! i) j))"
    using assms(1,2) by (auto simp: list_eq_iff_nth_eq word8_eq bit_and_iff mask_byte)
  also have "\<dots> \<longleftrightarrow> (\<forall>k < ones. bit (a ! (k div 8)) (7 - k mod 8) \<longleftrightarrow> bit (x ! (k div 8)) (7 - k mod 8))"
  proof
    assume l: "\<forall>i < n. \<forall>j < 8. 8 * i + (7 - j) < ones \<longrightarrow> (bit (a ! i) j \<longleftrightarrow> bit (x ! i) j)"
    show "\<forall>k < ones. bit (a ! (k div 8)) (7 - k mod 8) \<longleftrightarrow> bit (x ! (k div 8)) (7 - k mod 8)"
    proof (intro allI impI)
      fix k assume "k < ones"
      with assms(3) byte_index [of k n] l show "bit (a ! (k div 8)) (7 - k mod 8) \<longleftrightarrow> bit (x ! (k div 8)) (7 - k mod 8)"
        by simp
    qed
  next
    assume r: "\<forall>k < ones. bit (a ! (k div 8)) (7 - k mod 8) \<longleftrightarrow> bit (x ! (k div 8)) (7 - k mod 8)"
    show "\<forall>i < n. \<forall>j < 8. 8 * i + (7 - j) < ones \<longrightarrow> (bit (a ! i) j \<longleftrightarrow> bit (x ! i) j)"
    proof (intro allI impI)
      fix i j :: nat assume j: "j < 8" "8 * i + (7 - j) < ones"
      define d where "d = 7 - j"
      have d: "d < 8" "j = 7 - d" using j(1) by (auto simp: d_def)
      then have "(8 * i + d) div 8 = i" "(8 * i + d) mod 8 = d" by simp_all
      with d(2) j(2) have "8 * i + d < ones" "(8 * i + d) div 8 = i" "7 - (8 * i + d) mod 8 = j"
        by (simp_all add: d_def)
      then show "bit (a ! i) j \<longleftrightarrow> bit (x ! i) j" using r by metis
    qed
  qed
  finally show ?thesis .
qed

section \<open>Properties\<close>

text \<open>
  C7 A trusted source that is cleared and then filled from a list trusts an address exactly when some
  entry of the list stands for it: the wildcard, a network that contains it or an equal address.
  Entries that do not parse are ignored, and the order of the entries and the state before the clear
  do not matter.
\<close>

theorem trusted_source_entries:
  "IsTrusted (foldl (\<lambda>t s. tsAdd pip pcidr s t) (tsClear t) entries) a \<longleftrightarrow>
     (\<exists>s \<in> set entries. trustEntry pip pcidr s a)"
  by (rule source.trusted_from_clear)

text \<open>
  The same lists give the same answer whether they are held in \<open>ProxyOptions\<close> or in a
  \<open>TrustedSource\<close>: \<open>Context.IsTrustedProxy\<close> for a TCP peer with an address agrees with \<open>IsTrusted\<close>.
\<close>

theorem trusted_proxy_equiv:
  assumes "a \<noteq> []"
  shows "IsTrustedProxy (foldl (\<lambda>t s. poAdd pip pcidr s t) (poClear opts) entries) (TCPAddr a) \<longleftrightarrow>
     IsTrusted (foldl (\<lambda>t s. tsAdd pip pcidr s t) (tsClear t) entries) a"
  using assms by (simp add: proxy.trusted_from_clear source.trusted_from_clear proxyEntry_def)

theorem trusted_proxy_equiv_witness:
  "IsTrustedProxy (foldl (\<lambda>t s. poAdd (\<lambda>_. Some [10, 0, 0, 1]) (\<lambda>_. None) s t) (poClear defaultProxyOptions) [''10.0.0.1''])
     (TCPAddr [10, 0, 0, 1]) \<longleftrightarrow>
   IsTrusted (foldl (\<lambda>t s. tsAdd (\<lambda>_. Some [10, 0, 0, 1]) (\<lambda>_. None) s t) (tsClear defaultHealthzTrustedSource) [''10.0.0.1''])
     [10, 0, 0, 1]"
  by (rule trusted_proxy_equiv) simp

text \<open>
  \<open>IPNet.Contains\<close> for a network of an IPv4 address and a prefix length compares exactly the leading
  bits, most significant first, for an address in the short or in the IPv4-in-IPv6 form.
\<close>

theorem cidr_contains_prefix:
  assumes "length a = 4" "length x = 4" "ones \<le> 32"
  shows "netContains (cidr a ones) x = (\<forall>k < ones. bit (a ! (k div 8)) (7 - k mod 8) \<longleftrightarrow> bit (x ! (k div 8)) (7 - k mod 8))
    \<and> netContains (cidr a ones) (v4InV6Prefix @ x) = netContains (cidr a ones) x"
proof -
  have "networkNumberAndMask (cidr a ones) = (a, cidrMask ones 4)"
    using assms(1) by (simp add: networkNumberAndMask_def cidr_def To4_def)
  then show ?thesis
    using masked_bytes [of a 4 x ones] assms by (simp add: netContains_def To4_def)
qed

theorem cidr_contains_prefix_witness:
  "netContains (cidr [172, 16, 0, 0] 12) [172, 31, 255, 1] \<and>
   (\<forall>k < 12. bit ([172, 16, 0, 0 :: 8 word] ! (k div 8)) (7 - k mod 8) \<longleftrightarrow>
      bit ([172, 31, 255, 1 :: 8 word] ! (k div 8)) (7 - k mod 8))"
proof -
  have "netContains (cidr [172, 16, 0, 0] 12) [172, 31, 255, 1]" by code_simp
  with cidr_contains_prefix [of "[172, 16, 0, 0]" "[172, 31, 255, 1]" 12] show ?thesis by simp
qed

text \<open>
  \<open>IP.Equal\<close> is equality of addresses up to the two forms of an IPv4 address, so it is symmetric and
  transitive.
\<close>

theorem ip_equal_norm: "ipEqual a x \<longleftrightarrow> normIP a = normIP x"
proof (cases "length a = length x")
  case True
  then show ?thesis by (auto simp: ipEqual_def normIP_def To4_def) (metis append_take_drop_id)+
next
  case False
  then show ?thesis by (auto simp: ipEqual_def normIP_def To4_def)
qed

end
