(* ===== verification/User.thy ===== *)
theory User
  imports Strconv
begin

text \<open>
  Users: claims (\<open>src/token/claim.go\<close>), the basic user with its scopes (\<open>src/user/basic.go\<close>), its JSON form
  (\<open>src/user/marshal.go\<close>) and the anonymous user (\<open>src/user/anonymous.go\<close>).

  A nil slice is \<^const>\<open>None\<close>. \<open>Basic\<close> values are reached through a pointer, so the methods take an option.
  A Go map is an association list with distinct keys. JSON text is handled by a library: the methods
  are modelled on decoded values. The interface \<open>User\<close> of \<open>src/user.go\<close> is the locale \<open>user_scopes\<close>,
  interpreted on both implementations.
\<close>

section \<open>Claims\<close>

type_synonym ClaimStrings = "bytes list option"

definition claimList :: "ClaimStrings \<Rightarrow> bytes list" where
  "claimList s = (case s of None \<Rightarrow> [] | Some l \<Rightarrow> l)"

datatype json = JNull | JBool bool | JNum int | JString bytes | JArr "json list" | JObj "(bytes \<times> json) list"

fun stringsOf :: "json list \<Rightarrow> bytes list option" where
  "stringsOf [] = Some []"
| "stringsOf (v # vs) = (case v of JString s \<Rightarrow> map_option ((#) s) (stringsOf vs) | _ \<Rightarrow> None)"

text \<open>\<open>UnmarshalJSON\<close> on the decoded value; \<open>Inl\<close> is the unsupported-type error.\<close>

definition claimUnmarshal :: "json \<Rightarrow> ClaimStrings \<Rightarrow> unit + ClaimStrings" where
  "claimUnmarshal v s =
     (case v of
        JString x \<Rightarrow> Inr (Some [x])
      | JArr vs \<Rightarrow> (case stringsOf vs of None \<Rightarrow> Inl () | Some [] \<Rightarrow> Inr None | Some xs \<Rightarrow> Inr (Some xs))
      | JNull \<Rightarrow> Inr s
      | _ \<Rightarrow> Inl ())"

definition claimMarshal :: "ClaimStrings \<Rightarrow> json" where
  "claimMarshal s =
     (case s of
        None \<Rightarrow> JNull
      | Some l \<Rightarrow> if length l = 1 then JString (l ! 0) else JArr (map JString l))"

definition claimValue :: "ClaimStrings \<Rightarrow> bytes" where
  "claimValue s = (case claimList s of [] \<Rightarrow> [] | x # _ \<Rightarrow> x)"

section \<open>Strings\<close>

text \<open>\<open>strings.Split\<close> at any separator and \<open>strings.Fields\<close>.\<close>

function splitOn :: "bytes \<Rightarrow> bytes \<Rightarrow> bytes list" where
  "splitOn s sep =
     (case Index s sep of
        None \<Rightarrow> [s]
      | Some i \<Rightarrow> if sep = [] then [s] else take i s # splitOn (drop (i + length sep) s) sep)"
  by pat_completeness auto
termination
proof (relation "measure (\<lambda>(s, _). length s)", goal_cases)
  case (2 s sep i)
  then have "i + length sep \<le> length s" "0 < length sep" using Index_Some by (blast, simp)
  then show ?case by (simp del: length_greater_0_conv)
qed simp

declare splitOn.simps [simp del]

function explode :: "bytes \<Rightarrow> bytes list" where
  "explode s = (if s = [] then [] else take (snd (DecodeRune s)) s # explode (drop (snd (DecodeRune s)) s))"
  by pat_completeness auto
termination
  by (relation "measure length") (auto simp: DecodeRune_width)

declare explode.simps [simp del]

definition stringsSplit :: "bytes \<Rightarrow> bytes \<Rightarrow> bytes list" where
  "stringsSplit s sep = (if sep = [] then explode s else splitOn s sep)"

function Fields :: "bytes \<Rightarrow> bytes list" where
  "Fields s =
     (let rs = decodeAll s;
          a = sum_list (map snd (takeWhile (isSpaceRune \<circ> fst) rs));
          w = sum_list (map snd (takeWhile (Not \<circ> isSpaceRune \<circ> fst) (dropWhile (isSpaceRune \<circ> fst) rs)))
      in if w = 0 then [] else take w (drop a s) # Fields (drop (a + w) s))"
  by pat_completeness auto
termination
proof (relation "measure length", goal_cases)
  case (2 s rs a w)
  from 2(4) have "w \<noteq> 0" .
  moreover from this have "s \<noteq> []" using 2(1-3) by auto
  ultimately show ?case by simp
qed simp

declare Fields.simps [simp del]

lemma splitOn_byte: "splitOn s [c] = Split s c"
proof (induction "length s" arbitrary: s rule: less_induct)
  case less
  show ?case
  proof (cases "c \<in> set s")
    case True
    then obtain u v where s: "s = u @ c # v" "c \<notin> set u" by (meson split_list_first)
    with less [of v] show ?thesis
      by (subst splitOn.simps) (simp add: Index_byte_append Split_append)
  next
    case False
    then have "Index s [c] = None" by (simp add: Index_byte_None)
    with False show ?thesis by (subst splitOn.simps) (simp add: Split_no_sep)
  qed
qed

section \<open>The basic user\<close>

record Basic =
  scopeSeparator :: bytes
  scopeLevelSeparator :: bytes
  scopeGroupSeparator :: bytes
  scopeClaimName :: "bytes list"
  claims :: "(bytes \<times> ClaimStrings) list"
  scopes :: "(bytes \<times> bytes list) list option"

datatype userOption = ScopeGroupSeparator bytes | ScopeLevelSeparator bytes | ScopeClaimName bytes

fun applyOption :: "userOption \<Rightarrow> Basic \<Rightarrow> Basic" where
  "applyOption (ScopeGroupSeparator s) u = u\<lparr>scopeGroupSeparator := s\<rparr>"
| "applyOption (ScopeLevelSeparator s) u = u\<lparr>scopeLevelSeparator := s\<rparr>"
| "applyOption (ScopeClaimName s) u = u\<lparr>scopeClaimName := [s]\<rparr>"

fun firstClaim :: "(bytes \<times> ClaimStrings) list \<Rightarrow> bytes list \<Rightarrow> ClaimStrings option" where
  "firstClaim cs [] = None"
| "firstClaim cs (n # ns) = (case map_of cs n of Some c \<Rightarrow> Some c | None \<Rightarrow> firstClaim cs ns)"

definition basicClaim :: "Basic option \<Rightarrow> bytes list \<Rightarrow> ClaimStrings" where
  "basicClaim u name =
     (case u of None \<Rightarrow> None
      | Some u \<Rightarrow> (case firstClaim (claims u) name of Some c \<Rightarrow> c | None \<Rightarrow> None))"

definition basicClaimValue :: "Basic option \<Rightarrow> bytes list \<Rightarrow> bytes" where
  "basicClaimValue u name =
     (case u of None \<Rightarrow> []
      | Some u \<Rightarrow> (case firstClaim (claims u) name of Some c \<Rightarrow> claimValue c | None \<Rightarrow> []))"

fun addLevel :: "bytes \<Rightarrow> bytes \<Rightarrow> (bytes \<times> bytes list) list \<Rightarrow> (bytes \<times> bytes list) list" where
  "addLevel rr l [] = [(rr, [l])]"
| "addLevel rr l ((k, ls) # xs) = (if k = rr then (k, ls @ [l]) # xs else (k, ls) # addLevel rr l xs)"

definition scopeEntries :: "Basic \<Rightarrow> bytes list" where
  "scopeEntries u =
     (let ss = claimList (basicClaim (Some u) (scopeClaimName u)) in
      if length ss = 1 then stringsSplit (ss ! 0) (scopeSeparator u) else ss)"

definition parseScopes :: "Basic \<Rightarrow> Basic" where
  "parseScopes u =
     (if scopes u \<noteq> None then u
      else u\<lparr>scopes := Some (foldl (\<lambda>m r. let (rr, l, _) = Cut r (scopeLevelSeparator u) in addLevel rr l m) []
             (scopeEntries u))\<rparr>)"

definition defaultScopeClaims :: "bytes list" where
  "defaultScopeClaims = [''scope'', ''rights'', ''http://docs.oasis-open.org/wsfed/authorization/200706/claims/action'']"

definition newBasic :: "(bytes \<times> ClaimStrings) list \<Rightarrow> Basic" where
  "newBasic cs =
     \<lparr>scopeSeparator = '','', scopeLevelSeparator = '':'', scopeGroupSeparator = ''/'',
      scopeClaimName = defaultScopeClaims,
      claims = cs, scopes = None\<rparr>"

definition newUser :: "(bytes \<times> ClaimStrings) list \<Rightarrow> userOption list \<Rightarrow> Basic" where
  "newUser cs options = parseScopes (foldl (\<lambda>u opt. applyOption opt u) (newBasic cs) options)"

definition mapSet :: "'k \<Rightarrow> 'v \<Rightarrow> ('k \<times> 'v) list \<Rightarrow> ('k \<times> 'v) list" where
  "mapSet k v m = (k, v) # filter (\<lambda>(n, _). n \<noteq> k) m"

definition newIdentity :: "bytes \<Rightarrow> bytes \<Rightarrow> (bytes \<times> ClaimStrings) list \<Rightarrow> userOption list \<Rightarrow> Basic" where
  "newIdentity ident scope cs options =
     (let merged = (if ident \<noteq> [] then mapSet ''sub'' (Some [ident]) cs else cs);
          merged = (if scope \<noteq> [] then mapSet ''scope'' (Some (Fields scope)) merged else merged)
      in newUser merged options)"

definition basicGivenName :: "Basic option \<Rightarrow> bytes" where
  "basicGivenName u = basicClaimValue u [''given_name'', ''http://schemas.xmlsoap.org/ws/2005/05/identity/claims/givenname'']"

definition basicFamilyName :: "Basic option \<Rightarrow> bytes" where
  "basicFamilyName u = basicClaimValue u [''family_name'', ''http://schemas.xmlsoap.org/ws/2005/05/identity/claims/surname'']"

definition basicDisplayName :: "Basic option \<Rightarrow> bytes" where
  "basicDisplayName u =
     (let name = basicClaimValue u [''name'', ''http://schemas.xmlsoap.org/ws/2005/05/identity/claims/name''] in
      if length name > 0 then name
      else let gn = basicGivenName u; fn = basicFamilyName u in
           if length fn > 0 then (if length gn > 0 then gn @ [space] @ fn else fn) else gn)"

definition basicAuthorized :: "Basic option \<Rightarrow> bool" where
  "basicAuthorized u \<longleftrightarrow> u \<noteq> None"

definition basicID :: "Basic option \<Rightarrow> bytes" where
  "basicID u = basicClaimValue u [''sub'', ''http://schemas.xmlsoap.org/ws/2005/05/identity/claims/nameidentifier'']"

definition scopeMap :: "Basic \<Rightarrow> (bytes \<times> bytes list) list" where
  "scopeMap u = (case scopes u of None \<Rightarrow> [] | Some m \<Rightarrow> m)"

definition basicHasScopeGroup :: "Basic option \<Rightarrow> bytes \<Rightarrow> bool" where
  "basicHasScopeGroup u name =
     (case u of None \<Rightarrow> False
      | Some u \<Rightarrow> \<exists>(scope, _) \<in> set (scopeMap u). scope = name \<or> HasPrefix scope (name @ scopeGroupSeparator u))"

definition basicHasScope :: "Basic option \<Rightarrow> bytes \<Rightarrow> bool" where
  "basicHasScope u name = (case u of None \<Rightarrow> False | Some u \<Rightarrow> map_of (scopeMap u) name \<noteq> None)"

definition basicHasScopeLevel :: "Basic option \<Rightarrow> bytes \<Rightarrow> bytes \<Rightarrow> bool" where
  "basicHasScopeLevel u name level =
     (case u of None \<Rightarrow> False
      | Some u \<Rightarrow> (case map_of (scopeMap u) name of None \<Rightarrow> False | Some levels \<Rightarrow> level \<in> set levels))"

definition basicHasScopeAnyLevel :: "Basic option \<Rightarrow> bytes \<Rightarrow> bytes list \<Rightarrow> bool" where
  "basicHasScopeAnyLevel u name levels = (case u of None \<Rightarrow> False | Some _ \<Rightarrow> \<exists>l \<in> set levels. basicHasScopeLevel u name l)"

text \<open>\<open>UnmarshalJSON\<close> with the result of decoding the claims (an error is its text), and the claims that \<open>MarshalJSON\<close> hands to the encoder.\<close>

definition basicUnmarshal :: "bytes + (bytes \<times> ClaimStrings) list \<Rightarrow> Basic \<Rightarrow> Basic \<times> bytes option" where
  "basicUnmarshal value u =
     (case value of Inl err \<Rightarrow> (u, Some err) | Inr cs \<Rightarrow> (parseScopes (u\<lparr>claims := cs\<rparr>), None))"

definition basicMarshal :: "Basic \<Rightarrow> (bytes \<times> ClaimStrings) list" where
  "basicMarshal u = claims u"

definition zeroBasic :: Basic where
  "zeroBasic = \<lparr>scopeSeparator = [], scopeLevelSeparator = [], scopeGroupSeparator = [], scopeClaimName = [], claims = [],
     scopes = None\<rparr>"

section \<open>The anonymous user\<close>

definition anonClaimValue :: "unit \<Rightarrow> bytes list \<Rightarrow> bytes" where "anonClaimValue u names = []"
definition anonClaim :: "unit \<Rightarrow> bytes list \<Rightarrow> ClaimStrings" where "anonClaim u names = None"
definition anonGivenName :: "unit \<Rightarrow> bytes" where "anonGivenName u = []"
definition anonFamilyName :: "unit \<Rightarrow> bytes" where "anonFamilyName u = []"
definition anonDisplayName :: "unit \<Rightarrow> bytes" where "anonDisplayName u = []"
definition anonAuthorized :: "unit \<Rightarrow> bool" where "anonAuthorized u = False"
definition anonHasScopeGroup :: "unit \<Rightarrow> bytes \<Rightarrow> bool" where "anonHasScopeGroup u name = False"
definition anonHasScope :: "unit \<Rightarrow> bytes \<Rightarrow> bool" where "anonHasScope u name = False"
definition anonHasScopeLevel :: "unit \<Rightarrow> bytes \<Rightarrow> bytes \<Rightarrow> bool" where "anonHasScopeLevel u name level = False"
definition anonHasScopeAnyLevel :: "unit \<Rightarrow> bytes \<Rightarrow> bytes list \<Rightarrow> bool" where "anonHasScopeAnyLevel u name levels = False"
definition anonID :: "unit \<Rightarrow> bytes" where "anonID u = []"

lemmas anon_defs = anonClaimValue_def anonClaim_def anonAuthorized_def anonHasScopeGroup_def anonHasScope_def
  anonHasScopeLevel_def anonHasScopeAnyLevel_def anonID_def

section \<open>The interface\<close>

text \<open>A value of the interface \<open>User\<close> is the record of its methods.\<close>

record userObj =
  u_Authorized :: bool
  u_ID :: bytes
  u_GivenName :: bytes
  u_FamilyName :: bytes
  u_DisplayName :: bytes
  u_Claim :: "bytes list \<Rightarrow> ClaimStrings"
  u_ClaimValue :: "bytes list \<Rightarrow> bytes"
  u_HasScopeGroup :: "bytes \<Rightarrow> bool"
  u_HasScope :: "bytes \<Rightarrow> bool"
  u_HasScopeLevel :: "bytes \<Rightarrow> bytes \<Rightarrow> bool"
  u_HasScopeAnyLevel :: "bytes \<Rightarrow> bytes list \<Rightarrow> bool"

definition anonymousUser :: userObj where
  "anonymousUser = \<lparr>u_Authorized = anonAuthorized (), u_ID = anonID (), u_GivenName = anonGivenName (),
     u_FamilyName = anonFamilyName (), u_DisplayName = anonDisplayName (), u_Claim = anonClaim (),
     u_ClaimValue = anonClaimValue (), u_HasScopeGroup = anonHasScopeGroup (), u_HasScope = anonHasScope (),
     u_HasScopeLevel = anonHasScopeLevel (), u_HasScopeAnyLevel = anonHasScopeAnyLevel ()\<rparr>"

definition basicUser :: "Basic option \<Rightarrow> userObj" where
  "basicUser u = \<lparr>u_Authorized = basicAuthorized u, u_ID = basicID u, u_GivenName = basicGivenName u,
     u_FamilyName = basicFamilyName u, u_DisplayName = basicDisplayName u, u_Claim = basicClaim u,
     u_ClaimValue = basicClaimValue u, u_HasScopeGroup = basicHasScopeGroup u, u_HasScope = basicHasScope u,
     u_HasScopeLevel = basicHasScopeLevel u, u_HasScopeAnyLevel = basicHasScopeAnyLevel u\<rparr>"

section \<open>The contract of a user\<close>

locale user_scopes =
  fixes authorized :: "'u \<Rightarrow> bool" and ident :: "'u \<Rightarrow> bytes"
    and claim :: "'u \<Rightarrow> bytes list \<Rightarrow> ClaimStrings" and claimVal :: "'u \<Rightarrow> bytes list \<Rightarrow> bytes"
    and group :: "'u \<Rightarrow> bytes \<Rightarrow> bool" and scope :: "'u \<Rightarrow> bytes \<Rightarrow> bool"
    and level :: "'u \<Rightarrow> bytes \<Rightarrow> bytes \<Rightarrow> bool" and anyLevel :: "'u \<Rightarrow> bytes \<Rightarrow> bytes list \<Rightarrow> bool"
  assumes level_scope: "level u n l \<Longrightarrow> scope u n"
    and scope_group: "scope u n \<Longrightarrow> group u n"
    and group_auth: "group u n \<Longrightarrow> authorized u"
    and anyLevel_iff: "anyLevel u n ls \<longleftrightarrow> (\<exists>l \<in> set ls. level u n l)"
    and claim_value: "claimVal u ns = claimValue (claim u ns)"
begin

lemma no_access: "\<not> authorized u \<Longrightarrow> \<not> group u n \<and> \<not> scope u n \<and> \<not> level u n l \<and> \<not> anyLevel u n ls"
  using level_scope scope_group group_auth anyLevel_iff by blast

lemma anyLevel_scope: "anyLevel u n ls \<Longrightarrow> scope u n"
  using level_scope anyLevel_iff by blast

end

interpretation anon: user_scopes anonAuthorized anonID anonClaim anonClaimValue anonHasScopeGroup anonHasScope
  anonHasScopeLevel anonHasScopeAnyLevel
  by unfold_locales (simp_all add: anon_defs claimValue_def claimList_def)

interpretation basic: user_scopes basicAuthorized basicID basicClaim basicClaimValue basicHasScopeGroup basicHasScope
  basicHasScopeLevel basicHasScopeAnyLevel
proof
  show "basicHasScopeGroup u n" if "basicHasScope u n" for u n
    using that by (force simp: basicHasScopeGroup_def basicHasScope_def split: option.splits dest: map_of_SomeD)
  show "basicHasScopeAnyLevel u n ls \<longleftrightarrow> (\<exists>l \<in> set ls. basicHasScopeLevel u n l)" for u n ls
    by (auto simp: basicHasScopeAnyLevel_def basicHasScopeLevel_def split: option.splits)
qed (auto simp: basicHasScopeLevel_def basicHasScope_def basicHasScopeGroup_def basicAuthorized_def basicClaimValue_def
    basicClaim_def claimValue_def claimList_def split: option.splits)

section \<open>Scopes\<close>

lemma addLevel_map:
  "map_of (addLevel rr l m) = (map_of m)(rr \<mapsto> (case map_of m rr of Some ls \<Rightarrow> ls @ [l] | None \<Rightarrow> [l]))"
  by (induction rr l m rule: addLevel.induct) (auto simp: fun_eq_iff)

lemma scopes_fold:
  "(case map_of (foldl (\<lambda>m r. let (rr, l, _) = Cut r sep in addLevel rr l m) m rs) n of Some ls \<Rightarrow> ls | None \<Rightarrow> []) =
     (case map_of m n of Some ls \<Rightarrow> ls | None \<Rightarrow> []) @ [fst (snd (Cut r sep)). r \<leftarrow> rs, fst (Cut r sep) = n] \<and>
   (map_of (foldl (\<lambda>m r. let (rr, l, _) = Cut r sep in addLevel rr l m) m rs) n = None \<longleftrightarrow>
      map_of m n = None \<and> (\<forall>r \<in> set rs. fst (Cut r sep) \<noteq> n))"
proof (induction rs arbitrary: m)
  case (Cons r rs)
  obtain a b c where r: "Cut r sep = (a, b, c)" by (cases "Cut r sep")
  show ?case
    using Cons.IH [of "addLevel a b m"] by (auto simp: r addLevel_map split: option.splits)
qed simp

lemma parsed_scope:
  assumes "scopes u = None"
  shows "basicHasScope (Some (parseScopes u)) n \<longleftrightarrow> (\<exists>r \<in> set (scopeEntries u). fst (Cut r (scopeLevelSeparator u)) = n)"
    "basicHasScopeLevel (Some (parseScopes u)) n l \<longleftrightarrow>
       (\<exists>r \<in> set (scopeEntries u). fst (Cut r (scopeLevelSeparator u)) = n \<and> fst (snd (Cut r (scopeLevelSeparator u))) = l)"
proof -
  let ?m = "foldl (\<lambda>m r. let (rr, l, _) = Cut r (scopeLevelSeparator u) in addLevel rr l m) [] (scopeEntries u)"
  have m: "scopeMap (parseScopes u) = ?m" using assms by (simp add: parseScopes_def scopeMap_def)
  note F = scopes_fold [of "scopeLevelSeparator u" "[]" "scopeEntries u" n]
  show "basicHasScope (Some (parseScopes u)) n \<longleftrightarrow> (\<exists>r \<in> set (scopeEntries u). fst (Cut r (scopeLevelSeparator u)) = n)"
    using F by (simp add: basicHasScope_def m)
  have "basicHasScopeLevel (Some (parseScopes u)) n l \<longleftrightarrow> l \<in> set (case map_of ?m n of Some ls \<Rightarrow> ls | None \<Rightarrow> [])"
    by (simp add: basicHasScopeLevel_def m split: option.splits)
  also have "\<dots> \<longleftrightarrow> (\<exists>r \<in> set (scopeEntries u). fst (Cut r (scopeLevelSeparator u)) = n \<and> fst (snd (Cut r (scopeLevelSeparator u))) = l)"
    using F by auto
  finally show "basicHasScopeLevel (Some (parseScopes u)) n l \<longleftrightarrow>
       (\<exists>r \<in> set (scopeEntries u). fst (Cut r (scopeLevelSeparator u)) = n \<and> fst (snd (Cut r (scopeLevelSeparator u))) = l)" .
qed

lemma options_scopes: "scopes (foldl (\<lambda>u opt. applyOption opt u) u options) = scopes u"
proof (induction options arbitrary: u)
  case (Cons opt options)
  then show ?case by (cases opt) simp_all
qed simp

lemma stringsOf_Some: "stringsOf vs = Some xs \<longleftrightarrow> vs = map JString xs"
proof (induction vs arbitrary: xs)
  case (Cons v vs)
  then show ?case by (cases v; cases xs) auto
qed auto

lemma stringsOf_None: "stringsOf vs = None \<longleftrightarrow> (\<forall>xs. vs \<noteq> map JString xs)"
  using stringsOf_Some by (metis not_None_eq option.distinct(1))

lemma stringsOf_strings [simp]: "stringsOf (map JString xs) = Some xs"
  by (induction xs) simp_all

text \<open>The entries of the scope claim: the texts of a claim with several, or the one text split at commas.\<close>

definition scopeTexts :: "(bytes \<times> ClaimStrings) list \<Rightarrow> bytes list" where
  "scopeTexts cs =
     (case firstClaim cs defaultScopeClaims of
        Some (Some [s]) \<Rightarrow> Split s comma
      | Some (Some ss) \<Rightarrow> ss
      | _ \<Rightarrow> [])"

lemma stringsSplit_byte [simp]: "stringsSplit s [c] = Split s c"
  by (simp add: stringsSplit_def splitOn_byte)

lemma newBasic_fields [simp]:
  "scopes (newBasic cs) = None" "claims (newBasic cs) = cs" "scopeLevelSeparator (newBasic cs) = [colon]"
  by (simp_all add: newBasic_def)

lemma newUser_entries:
  "newUser cs [] = parseScopes (newBasic cs)" "scopeEntries (newBasic cs) = scopeTexts cs"
  by (simp add: newUser_def newBasic_def)
    (auto simp: scopeEntries_def basicClaim_def newBasic_def claimList_def scopeTexts_def length_Suc_conv
       split: option.splits list.splits)

lemma Cut_byte:
  "c \<notin> set n \<Longrightarrow> fst (Cut r [c]) = n \<longleftrightarrow> r = n \<or> HasPrefix r (n @ [c])"
  "c \<notin> set n \<Longrightarrow> fst (Cut r [c]) = n \<and> fst (snd (Cut r [c])) = l \<longleftrightarrow> r = n @ c # l \<or> r = n \<and> l = []"
proof -
  assume n: "c \<notin> set n"
  have *: "(fst (Cut r [c]) = n \<longleftrightarrow> r = n \<or> HasPrefix r (n @ [c])) \<and>
      (fst (Cut r [c]) = n \<and> fst (snd (Cut r [c])) = l \<longleftrightarrow> r = n @ c # l \<or> r = n \<and> l = [])"
  proof (cases "c \<in> set r")
    case True
    then obtain u v where r: "r = u @ c # v" "c \<notin> set u" by (meson split_list_first)
    have "u @ c # v = n @ c # w \<longleftrightarrow> u = n \<and> v = w" for w
      using n r(2) by (auto simp: append_eq_append_conv2 append_eq_Cons_conv Cons_eq_append_conv)
    moreover have "HasPrefix r (n @ [c]) \<longleftrightarrow> (\<exists>w. r = n @ c # w)"
      by (auto simp: HasPrefix_iff)
    ultimately show ?thesis
      using n r by (auto simp: Cut_def Index_byte_append)
  next
    case False
    then have "\<not> HasPrefix r (n @ [c])" "Cut r [c] = (r, [], False)" "r \<noteq> n @ c # l"
      by (auto simp: HasPrefix_iff Cut_def Index_byte_None [THEN iffD2])
    then show ?thesis by auto
  qed
  then show "fst (Cut r [c]) = n \<longleftrightarrow> r = n \<or> HasPrefix r (n @ [c])" by blast
  from * show "fst (Cut r [c]) = n \<and> fst (snd (Cut r [c])) = l \<longleftrightarrow> r = n @ c # l \<or> r = n \<and> l = []" by blast
qed

section \<open>Properties\<close>

text \<open>
  C24. The scopes of a new user are the entries of its scope claim. For a name without the level separator, the
  user has the scope exactly when an entry is the name or starts with the name and a colon, and has it at a level
  exactly when an entry is the name, a colon and the level, or the bare name for the empty level.
\<close>

theorem user_scopes_entries:
  assumes "colon \<notin> set n"
  shows "(basicHasScope (Some (newUser cs [])) n \<longleftrightarrow> (\<exists>r \<in> set (scopeTexts cs). r = n \<or> HasPrefix r (n @ [colon]))) \<and>
    (basicHasScopeLevel (Some (newUser cs [])) n l \<longleftrightarrow>
       (\<exists>r \<in> set (scopeTexts cs). r = n @ colon # l \<or> r = n \<and> l = []))"
  unfolding newUser_entries parsed_scope [OF newBasic_fields(1)] newBasic_fields(3) Cut_byte(2) [OF assms]
  unfolding Cut_byte(1) [OF assms] by (rule conjI refl)+

theorem user_scopes_entries_witness:
  "basicHasScopeLevel (Some (newUser [(''scope'', Some [''doc:read,doc:write,admin''])] [])) ''doc'' ''write''"
  using user_scopes_entries [of "''doc''" "[(''scope'', Some [''doc:read,doc:write,admin''])]" "''write''"]
  by (simp add: scopeTexts_def defaultScopeClaims_def)

text \<open>
  A claim printed as JSON is read back as the same claim, whatever it holds; only the empty list comes back
  as a nil one. Any JSON value that is not a string, an array of strings or null is refused, and null leaves the
  claim as it was.
\<close>

theorem claim_roundtrip:
  "claimUnmarshal (claimMarshal c) None = Inr (if claimList c = [] then None else c) \<and>
   (claimUnmarshal v d = Inl () \<longleftrightarrow>
      \<not> (v = JNull \<or> (\<exists>x. v = JString x) \<or> (\<exists>xs. v = JArr (map JString xs)))) \<and>
   claimUnmarshal JNull d = Inr d"
proof -
  have "claimUnmarshal (claimMarshal c) None = Inr (if claimList c = [] then None else c)"
    by (auto simp: claimUnmarshal_def claimMarshal_def claimList_def length_Suc_conv split: option.splits list.splits)
  moreover have "claimUnmarshal v d = Inl () \<longleftrightarrow>
      \<not> (v = JNull \<or> (\<exists>x. v = JString x) \<or> (\<exists>xs. v = JArr (map JString xs)))"
  proof (cases v)
    case (JArr vs)
    have "claimUnmarshal v d = Inl () \<longleftrightarrow> stringsOf vs = None"
      by (auto simp: JArr claimUnmarshal_def split: option.splits list.splits)
    then show ?thesis by (auto simp: JArr stringsOf_None)
  qed (auto simp: claimUnmarshal_def)
  moreover have "claimUnmarshal JNull d = Inr d"
    by (simp add: claimUnmarshal_def)
  ultimately show ?thesis by blast
qed

text \<open>
  The JSON form of a user keeps its claims and with them its id and names, but not how its scopes are read:
  a user decoded into a fresh value has no scope at all.
\<close>

theorem user_json_scopes:
  "(let v = Some (fst (basicUnmarshal (Inr (basicMarshal u)) zeroBasic)) in
      basicID v = basicID (Some u) \<and> basicDisplayName v = basicDisplayName (Some u) \<and>
      basicClaimValue v names = basicClaimValue (Some u) names \<and>
      basicAuthorized v \<and> \<not> basicHasScope v n \<and> \<not> basicHasScopeGroup v n \<and> \<not> basicHasScopeLevel v n l)"
proof -
  let ?v = "fst (basicUnmarshal (Inr (basicMarshal u)) zeroBasic)"
  have v: "claims ?v = claims u" "scopes ?v = Some []"
    by (simp_all add: basicUnmarshal_def basicMarshal_def parseScopes_def zeroBasic_def scopeEntries_def basicClaim_def claimList_def)
  then have c: "basicClaimValue (Some ?v) m = basicClaimValue (Some u) m" for m
    by (simp add: basicClaimValue_def)
  then show ?thesis
    by (simp add: v Let_def basicID_def basicDisplayName_def basicGivenName_def basicFamilyName_def basicAuthorized_def
        basicHasScope_def basicHasScopeGroup_def basicHasScopeLevel_def scopeMap_def)
qed
end
