(* ===== verification/Server_Context.thy ===== *)
theory Server_Context
  imports Response_Store Request_Values Trust User "HOL-Library.Word"
begin

text \<open>
  The request context of \<open>src/request.go\<close>, its header access (\<open>src/header.go\<close>) and the plain response
  setters of \<open>src/response.go\<close>.

  \<open>fhReq\<close> is a request of the server library as the sources read it, \<open>reqCtx\<close> the pair of request and
  response with the user values, and \<open>Ctx\<close> the azugo context that \<open>acquireCtx\<close> puts around it. The
  operations of the response are the parameter \<open>ro\<close>. A context is never shared: it is passed along and
  returned updated. The rest of its state (request ids, the logger, the standard-library context) is in \<open>Context_State\<close>.
\<close>

record fhReq =
  rq_Method :: bytes
  rq_PathOriginal :: bytes
  rq_Path :: bytes
  rq_QueryString :: bytes
  rq_Body :: bytes
  rq_ContentType :: bytes
  rq_Host :: bytes
  rq_TLS :: bool
  rq_RemoteAddr :: netAddr
  rq_Peek :: "bytes \<Rightarrow> bytes"
  rq_All :: "(bytes \<times> bytes) list"
  rq_QueryArgs :: args

record 'r reqCtx =
  fc_Request :: fhReq
  fc_Response :: 'r
  fc_UserValues :: userValues

record 'r Ctx =
  c_context :: "'r reqCtx"
  c_method :: bytes
  c_path :: bytes
  c_routerPath :: bytes
  c_user :: "userObj option"
  c_alwaysHeaders :: "(bytes \<times> bytes) list"

abbreviation c_Request :: "'r Ctx \<Rightarrow> fhReq" where "c_Request c \<equiv> fc_Request (c_context c)"
abbreviation c_Response :: "'r Ctx \<Rightarrow> 'r" where "c_Response c \<equiv> fc_Response (c_context c)"

definition onResponse :: "('r \<Rightarrow> 'r) \<Rightarrow> 'r Ctx \<Rightarrow> 'r Ctx" where
  "onResponse f c = c\<lparr>c_context := (c_context c)\<lparr>fc_Response := f (c_Response c)\<rparr>\<rparr>"

lemma onResponse_sel [simp]:
  "c_Response (onResponse f c) = f (c_Response c)" "c_Request (onResponse f c) = c_Request c"
  "c_method (onResponse f c) = c_method c" "c_path (onResponse f c) = c_path c"
  "c_routerPath (onResponse f c) = c_routerPath c" "c_alwaysHeaders (onResponse f c) = c_alwaysHeaders c"
  "fc_UserValues (c_context (onResponse f c)) = fc_UserValues (c_context c)"
  by (simp_all add: onResponse_def)

abbreviation MethodGet :: bytes where "MethodGet \<equiv> ''GET''"
abbreviation MethodHead :: bytes where "MethodHead \<equiv> ''HEAD''"
abbreviation MethodPost :: bytes where "MethodPost \<equiv> ''POST''"
abbreviation MethodPut :: bytes where "MethodPut \<equiv> ''PUT''"
abbreviation MethodPatch :: bytes where "MethodPatch \<equiv> ''PATCH''"
abbreviation MethodDelete :: bytes where "MethodDelete \<equiv> ''DELETE''"
abbreviation MethodConnect :: bytes where "MethodConnect \<equiv> ''CONNECT''"
abbreviation MethodOptions :: bytes where "MethodOptions \<equiv> ''OPTIONS''"
abbreviation MethodTrace :: bytes where "MethodTrace \<equiv> ''TRACE''"
abbreviation MethodQuery :: bytes where "MethodQuery \<equiv> ''QUERY''"

abbreviation ContentTypeJSON :: bytes where "ContentTypeJSON \<equiv> ''application/json''"
abbreviation ContentTypeXML :: bytes where "ContentTypeXML \<equiv> ''application/xml''"
abbreviation ContentTypeFormURLEncoded :: bytes where
  "ContentTypeFormURLEncoded \<equiv> ''application/x-www-form-urlencoded''"
abbreviation ContentTypeMultipartFormData :: bytes where
  "ContentTypeMultipartFormData \<equiv> ''multipart/form-data''"

section \<open>Acquiring a context\<close>

definition acquireCtx :: "bytes \<Rightarrow> 'r reqCtx \<Rightarrow> 'r Ctx" where
  "acquireCtx path c = \<lparr>c_context = c, c_method = rq_Method (fc_Request c), c_path = rq_Path (fc_Request c),
     c_routerPath = path, c_user = Some anonymousUser, c_alwaysHeaders = []\<rparr>"

text \<open>
  The form of the request, given its parsed URL-encoded body and the result of \<open>MultipartForm\<close>.
\<close>

definition acquireForm :: "args \<Rightarrow> 'f multipartForm option \<Rightarrow> fhReq \<Rightarrow> 'f form" where
  "acquireForm post mp rq =
     (if rq_Method rq = MethodPost \<or> rq_Method rq = MethodPut \<or> rq_Method rq = MethodPatch \<or> rq_Method rq = MethodQuery
      then if HasPrefix (rq_ContentType rq) ContentTypeFormURLEncoded then PostArgs post
           else if HasPrefix (rq_ContentType rq) ContentTypeMultipartFormData
           then (case mp of None \<Rightarrow> NilArgs | Some f \<Rightarrow> MultiPartArgs f)
           else NilArgs
      else NilArgs)"

definition SetUser :: "userObj option \<Rightarrow> 'r Ctx \<Rightarrow> 'r Ctx" where
  "SetUser u c = c\<lparr>c_user := u\<rparr>"

definition contextUser :: "'r Ctx \<Rightarrow> userObj option" where
  "contextUser c = c_user c"

section \<open>Response setters\<close>

definition setStatusCode :: "'r respOps \<Rightarrow> int \<Rightarrow> 'r Ctx \<Rightarrow> 'r Ctx" where
  "setStatusCode ro status = onResponse (r_SetStatusCode ro status)"

definition setContentType :: "'r respOps \<Rightarrow> bytes \<Rightarrow> bytes option \<Rightarrow> 'r Ctx \<Rightarrow> 'r Ctx" where
  "setContentType ro ct charset = onResponse (r_SetContentType ro
     (case charset of Some cs \<Rightarrow> ct @ ''; charset='' @ cs | None \<Rightarrow> ct))"

abbreviation contentTypeText :: bytes where "contentTypeText \<equiv> ''text/plain; charset=utf-8''"

definition respText :: "'r respOps \<Rightarrow> bytes \<Rightarrow> 'r Ctx \<Rightarrow> 'r Ctx" where
  "respText ro txt = onResponse (r_SetBody ro txt \<circ> r_SetContentType ro contentTypeText)"

definition respRaw :: "'r respOps \<Rightarrow> bytes \<Rightarrow> 'r Ctx \<Rightarrow> 'r Ctx" where
  "respRaw ro b = onResponse (r_SetBody ro b)"

definition RedirectUnsafe :: "'r respOps \<Rightarrow> (int \<Rightarrow> bool) \<Rightarrow> bytes \<Rightarrow> 'r Ctx \<Rightarrow> 'r Ctx" where
  "RedirectUnsafe ro isRedirect url c =
     (let c = (if \<not> isRedirect (r_StatusCode ro (c_Response c)) then setStatusCode ro 302 c else c) in
      onResponse (r_SetHeader ro ''Location'' url) c)"

section \<open>Headers\<close>

definition headerGet :: "'r Ctx \<Rightarrow> bytes \<Rightarrow> bytes" where
  "headerGet c key = rq_Peek (c_Request c) key"

definition headerValues :: "(rune \<Rightarrow> rune \<Rightarrow> bool) \<Rightarrow> 'r Ctx \<Rightarrow> bytes \<Rightarrow> bytes list" where
  "headerValues uf c key =
     concat (map (\<lambda>(k, val). if \<not> EqualFold uf key k then []
       else if comma \<in> set val then Split val comma else [val]) (rq_All (c_Request c)))"

definition headerKeys :: "'r Ctx \<Rightarrow> bytes list" where
  "headerKeys c = map fst (rq_All (c_Request c))"

definition headerSet :: "'r respOps \<Rightarrow> bytes \<Rightarrow> bytes \<Rightarrow> 'r Ctx \<Rightarrow> 'r Ctx" where
  "headerSet ro key v = onResponse (r_SetHeader ro key v)"

definition headerAdd :: "'r respOps \<Rightarrow> bytes \<Rightarrow> bytes \<Rightarrow> 'r Ctx \<Rightarrow> 'r Ctx" where
  "headerAdd ro key v = onResponse (r_AddHeader ro key v)"

definition preserveHeader :: "bytes \<Rightarrow> 'r Ctx \<Rightarrow> 'r Ctx" where
  "preserveHeader name c =
     (if \<exists>e \<in> set (c_alwaysHeaders c). fst e = name then c
      else c\<lparr>c_alwaysHeaders := c_alwaysHeaders c @ [(name, [])]\<rparr>)"

definition headerSetAlways :: "'r respOps \<Rightarrow> bytes \<Rightarrow> bytes \<Rightarrow> 'r Ctx \<Rightarrow> 'r Ctx" where
  "headerSetAlways ro key v c = preserveHeader key (headerSet ro key v c)"

definition captureAlwaysHeaders :: "'r respOps \<Rightarrow> 'r Ctx \<Rightarrow> 'r Ctx" where
  "captureAlwaysHeaders ro c =
     c\<lparr>c_alwaysHeaders := map (\<lambda>(n, _). (n, r_PeekHeader ro n (c_Response c))) (c_alwaysHeaders c)\<rparr>"

definition applyAlwaysHeaders :: "'r respOps \<Rightarrow> 'r Ctx \<Rightarrow> 'r Ctx" where
  "applyAlwaysHeaders ro c =
     onResponse (\<lambda>r. foldl (\<lambda>r (n, v). r_SetHeader ro n v r) r (filter (\<lambda>(n, v). length v > 0) (c_alwaysHeaders c))) c"

definition headerDel :: "(bytes \<Rightarrow> fhReq \<Rightarrow> fhReq) \<Rightarrow> 'r respOps \<Rightarrow> bytes \<Rightarrow> 'r Ctx \<Rightarrow> 'r Ctx" where
  "headerDel rqDel ro key c =
     onResponse (r_DelHeader ro key) (c\<lparr>c_context := (c_context c)\<lparr>fc_Request := rqDel key (c_Request c)\<rparr>\<rparr>)"

abbreviation HeaderExpose :: bytes where "HeaderExpose \<equiv> ''Access-Control-Expose-Headers''"

definition AppendAccessControlExposeHeaders :: "'r respOps \<Rightarrow> bytes list \<Rightarrow> 'r Ctx \<Rightarrow> 'r Ctx" where
  "AppendAccessControlExposeHeaders ro names c =
     (let val = r_PeekHeader ro HeaderExpose (c_Response c) in
      if length val \<noteq> 0 then headerSet ro HeaderExpose (val @ '', '' @ Join names '', '') c
      else headerSet ro HeaderExpose (Join names '', '') c)"

definition InheritAuthorization :: "'r Ctx \<Rightarrow> (bytes \<times> bytes) option" where
  "InheritAuthorization c =
     (let auth = headerGet c ''Authorization'' in if auth \<noteq> [] then Some (''Authorization'', auth) else None)"

section \<open>Where the request came from\<close>

definition IsTLS :: "ProxyOptions \<Rightarrow> 'r Ctx \<Rightarrow> bool" where
  "IsTLS po c =
     (let proto = rq_Peek (c_Request c) ''X-Forwarded-Proto'' in
      if IsTrustedProxy po (rq_RemoteAddr (c_Request c)) \<and> proto = ''https'' then True
      else if IsTrustedProxy po (rq_RemoteAddr (c_Request c)) \<and> proto = ''http'' then False
      else rq_TLS (c_Request c))"

definition requestHost :: "bytes \<Rightarrow> ProxyOptions \<Rightarrow> 'r Ctx \<Rightarrow> bytes" where
  "requestHost muxHost po c =
     (if length muxHost > 0 then muxHost
      else let host = rq_Peek (c_Request c) ''X-Forwarded-Host'' in
           if IsTrustedProxy po (rq_RemoteAddr (c_Request c)) \<and> length host > 0 then host
           else rq_Host (c_Request c))"

definition BaseURL :: "bytes \<Rightarrow> bytes \<Rightarrow> ProxyOptions \<Rightarrow> 'r Ctx \<Rightarrow> bytes" where
  "BaseURL muxHost basePath po c =
     (if IsTLS po c then ''https'' else ''http'') @ ''://'' @ requestHost muxHost po c @ basePath"

section \<open>Paging\<close>

text \<open>
  The page sizes of the configuration are \<open>cfgDefault\<close> and \<open>cfgMax\<close>. The paginator is built by
  \<open>paginator.New(total, pageSize, page)\<close>; its total is the 64-bit product of page and page size.
\<close>

record paging =
  pg_total :: int
  pg_pageSize :: int
  pg_page :: int

definition wrap64 :: "int \<Rightarrow> int" where
  "wrap64 n = sint (word_of_int n :: 64 word)"

lemma wrap64_exact: "- (2 ^ 63) \<le> n \<Longrightarrow> n < 2 ^ 63 \<Longrightarrow> wrap64 n = n"
  by (simp add: wrap64_def sint_sbintrunc' signed_take_bit_int_eq_self)

definition MaxPageSize :: "int \<Rightarrow> 'r Ctx \<Rightarrow> int" where
  "MaxPageSize cfgMax c =
     (case fc_UserValues (c_context c) ''__max_page_size'' of Some (UInt n) \<Rightarrow> n | _ \<Rightarrow> cfgMax)"

definition SetMaxPageSize :: "int \<Rightarrow> int \<Rightarrow> 'r Ctx \<Rightarrow> 'r Ctx" where
  "SetMaxPageSize cfgMax n c =
     (let n = (if n \<le> 0 then cfgMax else n) in
      c\<lparr>c_context := (c_context c)\<lparr>fc_UserValues := (fc_UserValues (c_context c))(''__max_page_size'' \<mapsto> UInt n)\<rparr>\<rparr>)"

definition Paging :: "bytes \<Rightarrow> bytes \<Rightarrow> int \<Rightarrow> int \<Rightarrow> 'r Ctx \<Rightarrow> paging" where
  "Paging pageKey perPageKey cfgDefault cfgMax c =
     (let q = rq_QueryArgs (c_Request c);
          page = (case queryInt q pageKey of Inl _ \<Rightarrow> 1 | Inr p \<Rightarrow> if p \<le> 0 then 1 else p);
          pageSize = (case queryInt q perPageKey of Inl _ \<Rightarrow> cfgDefault | Inr p \<Rightarrow> if p \<le> 0 then cfgDefault else p);
          pageSize = (if pageSize > MaxPageSize cfgMax c then MaxPageSize cfgMax c else pageSize)
      in \<lparr>pg_total = wrap64 (page * pageSize), pg_pageSize = pageSize, pg_page = page\<rparr>)"

section \<open>Content negotiation\<close>

text \<open>One entry of the header without the priority.\<close>

definition mediaRange :: "bytes \<Rightarrow> bytes" where
  "mediaRange e =
     (let part = Trim e space in
      case Index part '';'' of Some f \<Rightarrow> TrimRight (take f part) space | None \<Rightarrow> part)"

function acceptsLoop :: "bytes \<Rightarrow> bytes \<Rightarrow> bytes \<Rightarrow> bool" where
  "acceptsLoop ct ctGroup h =
     (if length h = 0 then False
      else let pos = Index h [comma];
               part = mediaRange (case pos of Some p \<Rightarrow> take p h | None \<Rightarrow> h) in
        if part = ''*/*'' then True
        else if part = ct then True
        else if part = ctGroup then True
        else case pos of Some p \<Rightarrow> acceptsLoop ct ctGroup (drop (p + 1) h) | None \<Rightarrow> False)"
  by pat_completeness auto
termination
  by (relation "measure (\<lambda>(_, _, h). length h)") auto

declare acceptsLoop.simps [simp del]

definition Accepts :: "'r Ctx \<Rightarrow> bytes \<Rightarrow> bool" where
  "Accepts c contentType =
     (let h = headerGet c ''Accept'' in
      if length h = 0 then True
      else let (ctGroup, _, _) = Cut contentType [slash] in acceptsLoop contentType (ctGroup @ ''/*'') h)"

function acceptsExplicitLoop :: "bytes \<Rightarrow> bytes \<Rightarrow> bytes \<Rightarrow> bool" where
  "acceptsExplicitLoop ct ctGroup h =
     (if length h = 0 then False
      else let (e, h') = (case Index h [comma] of Some i \<Rightarrow> (take i h, drop (i + 1) h) | None \<Rightarrow> (h, []));
               part = mediaRange e in
        if part = ct then True
        else if HasPrefix part ctGroup \<and> drop (length ctGroup) part = ''/*'' then True
        else acceptsExplicitLoop ct ctGroup h')"
  by pat_completeness auto
termination
  by (relation "measure (\<lambda>(_, _, h). length h)") (auto split: option.splits)

declare acceptsExplicitLoop.simps [simp del]

definition AcceptsExplicit :: "'r Ctx \<Rightarrow> bytes \<Rightarrow> bool" where
  "AcceptsExplicit c contentType =
     (let h = headerGet c ''Accept'' in
      if length h = 0 then False
      else let (ctGroup, _, _) = Cut contentType [slash] in acceptsExplicitLoop contentType ctGroup h)"

text \<open>Entries of a header that the loops visit: the pieces between commas, less an empty last one.\<close>

definition headerEntries :: "bytes \<Rightarrow> bytes list" where
  "headerEntries h = (let es = Split h comma in if last es = [] then butlast es else es)"

lemma headerEntries_comma:
  assumes "comma \<notin> set u"
  shows "headerEntries (u @ comma # v) = u # headerEntries v"
  using assms by (simp add: headerEntries_def Split_append Let_def)

lemma headerEntries_last:
  assumes "comma \<notin> set h" "h \<noteq> []"
  shows "headerEntries h = [h]"
  using assms by (simp add: headerEntries_def Split_no_sep)

lemma headerEntries_Nil [simp]: "headerEntries [] = []"
  by (simp add: headerEntries_def)

lemma comma_cases:
  obtains "h = []" | "h \<noteq> []" "comma \<notin> set h" "Index h [comma] = None"
  | u v where "h = u @ comma # v" "comma \<notin> set u" "Index h [comma] = Some (length u)"
proof (cases "comma \<in> set h")
  case True
  then obtain u v where "h = u @ comma # v" "comma \<notin> set u" by (meson split_list_first)
  with that(3) show thesis by (simp add: Index_byte_append)
next
  case False
  then have "Index h [comma] = None" by (simp add: Index_byte_None)
  with that(1,2) False show thesis by blast
qed

lemma acceptsLoop_entries:
  "acceptsLoop ct g h \<longleftrightarrow> (\<exists>e \<in> set (headerEntries h). mediaRange e \<in> {''*/*'', ct, g})"
proof (induction ct g h rule: acceptsLoop.induct)
  case (1 ct g h)
  show ?case
  proof (cases h rule: comma_cases)
    case 1
    then show ?thesis by (subst acceptsLoop.simps) simp
  next
    case 2
    then show ?thesis by (subst acceptsLoop.simps) (auto simp: headerEntries_last Let_def)
  next
    case (3 u v)
    then show ?thesis using "1.IH" [OF _ refl refl, of "length u"]
      by (subst acceptsLoop.simps) (auto simp: headerEntries_comma Let_def)
  qed
qed

lemma acceptsExplicitLoop_entries:
  "acceptsExplicitLoop ct g h \<longleftrightarrow> (\<exists>e \<in> set (headerEntries h). mediaRange e \<in> {ct, g @ ''/*''})"
proof (induction ct g h rule: acceptsExplicitLoop.induct)
  case (1 ct g h)
  have pre: "HasPrefix p g \<and> drop (length g) p = ''/*'' \<longleftrightarrow> p = g @ ''/*''" for p
    by (auto simp: HasPrefix_iff)
  show ?case
  proof (cases h rule: comma_cases)
    case 1
    then show ?thesis by (subst acceptsExplicitLoop.simps) simp
  next
    case 2
    then show ?thesis
      by (subst acceptsExplicitLoop.simps)
        (auto simp: headerEntries_last pre Let_def acceptsExplicitLoop.simps [of _ _ "[]"])
  next
    case (3 u v)
    then show ?thesis using "1.IH" [of "(u, v)" u v "mediaRange u"]
      by (subst acceptsExplicitLoop.simps) (auto simp: headerEntries_comma pre Let_def)
  qed
qed

section \<open>Properties\<close>

text \<open>
  Content negotiation. A client accepts a content type exactly when it sends no \<open>Accept\<close> header,
  when it accepts the type explicitly, or when an entry of the header is \<open>*/*\<close>; it accepts it
  explicitly exactly when an entry, without its priority, is the type or its group.
\<close>

theorem accepts_explicit:
  "(Accepts c ct \<longleftrightarrow> headerGet c ''Accept'' = [] \<or> AcceptsExplicit c ct \<or>
      (\<exists>e \<in> set (headerEntries (headerGet c ''Accept'')). mediaRange e = ''*/*'')) \<and>
   (AcceptsExplicit c ct \<longleftrightarrow> (\<exists>e \<in> set (headerEntries (headerGet c ''Accept'')).
      mediaRange e = ct \<or> mediaRange e = fst (Cut ct [slash]) @ ''/*''))"
  by (cases "Cut ct [slash]")
    (auto simp: Accepts_def AcceptsExplicit_def acceptsLoop_entries acceptsExplicitLoop_entries Let_def)

text \<open>
  C23 The page of a listing is at least one and the page size never exceeds the maximum, whatever the
  query holds; it is at least one when the default and the maximum are, and the total is the exact
  product whenever that fits 64 bits.
\<close>

theorem paging_bounds:
  assumes "1 \<le> cfgDefault" "1 \<le> MaxPageSize cfgMax c"
  shows "let p = Paging k1 k2 cfgDefault cfgMax c in
    1 \<le> pg_page p \<and> 1 \<le> pg_pageSize p \<and> pg_pageSize p \<le> MaxPageSize cfgMax c \<and>
    (pg_page p * pg_pageSize p < 2 ^ 63 \<longrightarrow> pg_total p = pg_page p * pg_pageSize p)"
proof -
  let ?p = "Paging k1 k2 cfgDefault cfgMax c"
  have b: "1 \<le> pg_page ?p" "1 \<le> pg_pageSize ?p" "pg_pageSize ?p \<le> MaxPageSize cfgMax c"
    using assms by (auto simp: Paging_def Let_def split: sum.splits)
  have t: "pg_total ?p = wrap64 (pg_page ?p * pg_pageSize ?p)" by (simp add: Paging_def Let_def)
  have "0 \<le> pg_page ?p * pg_pageSize ?p" using b by simp
  with wrap64_exact [of "pg_page ?p * pg_pageSize ?p"] t
  have "pg_page ?p * pg_pageSize ?p < 2 ^ 63 \<longrightarrow> pg_total ?p = pg_page ?p * pg_pageSize ?p" by linarith
  with b show ?thesis by (simp add: Let_def)
qed

definition demoReq :: fhReq where
  "demoReq = \<lparr>rq_Method = MethodGet, rq_PathOriginal = ''/users'', rq_Path = ''/users'', rq_QueryString = [],
     rq_Body = [], rq_ContentType = [], rq_Host = ''example.com'', rq_TLS = False,
     rq_RemoteAddr = TCPAddr [127, 0, 0, 1], rq_Peek = (\<lambda>_. []), rq_All = [],
     rq_QueryArgs = \<lparr>args_All = [], args_Peek = (\<lambda>k. if k = ''page'' then ''3'' else ''500'')\<rparr>\<rparr>"

definition demoRaw :: "assocResp reqCtx" where
  "demoRaw = \<lparr>fc_Request = demoReq, fc_Response = emptyResp, fc_UserValues = Map.empty\<rparr>"

theorem paging_bounds_witness:
  "let p = Paging ''page'' ''per_page'' 20 100 (acquireCtx [] demoRaw) in 1 \<le> pg_page p \<and> pg_pageSize p \<le> 100"
proof -
  have m: "MaxPageSize 100 (acquireCtx [] demoRaw) = 100"
    by (simp add: MaxPageSize_def acquireCtx_def demoRaw_def)
  with paging_bounds [of 20 100 "acquireCtx [] demoRaw" "''page''" "''per_page''"] show ?thesis
    by (simp add: Let_def)
qed

end
