(* ===== verification/Errors.thy ===== *)
theory Errors
  imports Server_Context
begin

text \<open>
  Errors and request handlers. \<open>goErr\<close> is an error value seen through everything the sources ask of
  one: its text, and what \<open>errors.As\<close> or a type assertion finds for the interfaces of \<open>src/errors.go\<close>
  (\<open>None\<close> when it finds nothing). A nil error is \<^const>\<open>None\<close> of an option.

  A \<open>RequestHandler\<close> maps a context to the context it leaves behind and the value it panicked with, if
  it did. \<open>NewErrorResponse\<close> turns an error into the list of (type, message) pairs a client may see.
\<close>

record goErr =
  e_Error :: bytes
  e_StatusCode :: "int option"
  e_Validation :: "bytes list option"
  e_Headers :: "(bytes \<times> bytes) list option"
  e_Marshal :: "(bytes \<Rightarrow> (bytes \<times> bytes) option) option"
  e_Safe :: "(bytes \<times> bytes) option"

definition plainErr :: "bytes \<Rightarrow> goErr" where
  "plainErr s = \<lparr>e_Error = s, e_StatusCode = None, e_Validation = None, e_Headers = None, e_Marshal = None, e_Safe = None\<rparr>"

datatype panicVal = PanicErr goErr | PanicStr bytes | PanicOther bytes

type_synonym 'r RequestHandler = "'r Ctx \<Rightarrow> 'r Ctx \<times> panicVal option"
type_synonym 'r RequestHandlerFunc = "'r RequestHandler \<Rightarrow> 'r RequestHandler"

text \<open>The parameter errors as error values; their type names are what reflection reports.\<close>

fun reqTypeName :: "reqErr \<Rightarrow> bytes" where
  "reqTypeName (ParamRequiredError _) = ''ParamRequiredError''"
| "reqTypeName (ParamInvalidError _ _ _) = ''ParamInvalidError''"
| "reqTypeName (BadRequestError _ _) = ''BadRequestError''"

definition reqGoErr :: "(numErr \<Rightarrow> bytes) \<Rightarrow> reqErr \<Rightarrow> goErr" where
  "reqGoErr et e = (plainErr (reqErrorText et e))
     \<lparr>e_StatusCode := Some (int (reqStatusCode e)), e_Safe := Some (reqTypeName e, reqSafeError e)\<rparr>"

definition fromSafeError :: "bytes \<times> bytes \<Rightarrow> (bytes \<times> bytes) option" where
  "fromSafeError err = (let msg = snd err in if length msg = 0 then None else Some (fst err, msg))"

definition NewErrorResponse :: "goErr option \<Rightarrow> (bytes \<times> bytes) list option" where
  "NewErrorResponse err =
     (case err of
        None \<Rightarrow> None
      | Some err \<Rightarrow>
          (let errs = (case e_Validation err of Some verr \<Rightarrow> map (Pair ''FieldError'') verr | None \<Rightarrow> []);
               errs = (case e_Safe err of
                         Some serr \<Rightarrow> (case fromSafeError serr of Some r \<Rightarrow> errs @ [r] | None \<Rightarrow> errs)
                       | None \<Rightarrow> errs)
           in if length errs = 0 then None else Some errs))"

lemma fieldErrMsg_ne [simp]: "fieldErrMsg a b c \<noteq> []"
  by (simp add: fieldErrMsg_def)

lemma reqSafeError_ne [simp]: "reqSafeError e \<noteq> []"
  by (cases e) auto

lemma NewErrorResponse_req:
  "NewErrorResponse (Some (reqGoErr et e)) = Some [(reqTypeName e, reqSafeError e)]"
  by (simp add: NewErrorResponse_def reqGoErr_def plainErr_def fromSafeError_def)

text \<open>An error shows a client nothing unless it is a validation error or names a safe message.\<close>

lemma NewErrorResponse_None:
  "NewErrorResponse (Some e) = None \<longleftrightarrow>
     (e_Validation e = None \<or> e_Validation e = Some []) \<and> (e_Safe e = None \<or> (\<exists>t. e_Safe e = Some (t, [])))"
  by (auto simp: NewErrorResponse_def fromSafeError_def Let_def split: option.splits)

end
