(* ===== verification/Cors.thy ===== *)
theory Cors
  imports Errors
begin

text \<open>
  Cross-origin requests: the options of \<open>src/cors_options.go\<close> and the middleware of
  \<open>src/middleware/cors.go\<close>. The map of allowed origins is a list of its keys in the order they are set;
  the setters return the options, so the pointer they return is the updated value.
\<close>

definition defaultAllowedMethods :: "bytes list" where
  "defaultAllowedMethods = [MethodGet, MethodPost, MethodPut, MethodPatch, MethodDelete, MethodOptions]"

record CORSOptions =
  allowedMethods :: bytes
  allowedHeaders :: bytes
  allowAllOrigins :: bool
  allowedOrigins :: "bytes list"
  allowCredentials :: bool

definition defaultCORSOptions :: CORSOptions where
  "defaultCORSOptions = \<lparr>allowedMethods = Join defaultAllowedMethods '', '', allowedHeaders = [],
     allowAllOrigins = False, allowedOrigins = [], allowCredentials = False\<rparr>"

definition SetMethods :: "bytes list \<Rightarrow> CORSOptions \<Rightarrow> CORSOptions" where
  "SetMethods methods c = c\<lparr>allowedMethods := Join methods '', ''\<rparr>"

definition Methods :: "CORSOptions \<Rightarrow> bytes" where
  "Methods c = allowedMethods c"

definition AllowCredentials :: "CORSOptions \<Rightarrow> bool" where
  "AllowCredentials c = allowCredentials c"

definition SetHeaders :: "bytes list \<Rightarrow> CORSOptions \<Rightarrow> CORSOptions" where
  "SetHeaders headers c = c\<lparr>allowedHeaders := Join headers '', ''\<rparr>"

definition Headers :: "CORSOptions \<Rightarrow> bytes" where
  "Headers c = allowedHeaders c"

fun addOrigins :: "bytes list \<Rightarrow> CORSOptions \<Rightarrow> CORSOptions" where
  "addOrigins [] c = c"
| "addOrigins (origin # origins) c =
     (if origin = ''*'' then c\<lparr>allowAllOrigins := True\<rparr>
      else addOrigins origins (c\<lparr>allowedOrigins := List.insert origin (allowedOrigins c)\<rparr>))"

definition SetOrigins :: "bytes list \<Rightarrow> CORSOptions \<Rightarrow> CORSOptions" where
  "SetOrigins origins c = addOrigins origins (c\<lparr>allowedOrigins := [], allowAllOrigins := False\<rparr>)"

definition ValidOrigin :: "CORSOptions \<Rightarrow> bytes \<Rightarrow> bool" where
  "ValidOrigin c origin = (if allowAllOrigins c then True else origin \<in> set (allowedOrigins c))"

text \<open>The middleware; the next handler may be nil.\<close>

definition callNext :: "'r RequestHandler option \<Rightarrow> 'r RequestHandler" where
  "callNext h ctx = (case h of Some h \<Rightarrow> h ctx | None \<Rightarrow> (ctx, None))"

definition corsHeaders :: "'r respOps \<Rightarrow> CORSOptions \<Rightarrow> bytes \<Rightarrow> 'r Ctx \<Rightarrow> 'r Ctx" where
  "corsHeaders ro opts origin ctx =
     (let ctx = headerSetAlways ro ''Access-Control-Allow-Origin'' origin ctx;
          ctx = headerSetAlways ro ''Access-Control-Allow-Methods'' (Methods opts) ctx;
          ctx = headerSetAlways ro ''Access-Control-Allow-Headers'' (Headers opts) ctx
      in if AllowCredentials opts then headerSetAlways ro ''Access-Control-Allow-Credentials'' ''true'' ctx else ctx)"

definition setUserValue :: "bytes \<Rightarrow> uvalue \<Rightarrow> 'r Ctx \<Rightarrow> 'r Ctx" where
  "setUserValue k v c = c\<lparr>c_context := (c_context c)\<lparr>fc_UserValues := (fc_UserValues (c_context c))(k \<mapsto> v)\<rparr>\<rparr>"

definition CORS :: "'r respOps \<Rightarrow> CORSOptions \<Rightarrow> 'r RequestHandler option \<Rightarrow> 'r RequestHandler" where
  "CORS ro opts h ctx =
     (let origin = headerGet ctx ''Origin'' in
      if length origin = 0 \<or> \<not> ValidOrigin opts origin then callNext h ctx
      else let ctx = corsHeaders ro opts origin ctx;
               ctx = (if c_method ctx = MethodOptions \<and> headerGet ctx ''Access-Control-Request-Method'' \<noteq> []
                      then setUserValue ''__cors_preflight'' (UBool True) ctx else ctx)
           in callNext h ctx)"

section \<open>Origins\<close>

lemma addOrigins_creds: "AllowCredentials (addOrigins os c) = AllowCredentials c"
  by (induction os c rule: addOrigins.induct) (auto simp: AllowCredentials_def)

lemma addOrigins_valid:
  "ValidOrigin (addOrigins os c) o' \<longleftrightarrow> ''*'' \<in> set os \<or> o' \<in> set os \<or> ValidOrigin c o'"
proof (induction os c rule: addOrigins.induct)
  case (2 origin origins c)
  show ?case
  proof (cases "origin = ''*''")
    case False
    then show ?thesis using 2 [OF False] by (auto simp: ValidOrigin_def)
  qed (simp add: ValidOrigin_def)
qed simp

section \<open>Properties\<close>

text \<open>
  After \<open>SetOrigins\<close> an origin is valid exactly when the list holds it or holds the wildcard,
  whatever was set before and in any order, although the loop stops at the wildcard.
\<close>

theorem cors_origins:
  "ValidOrigin (SetOrigins origins c) o' \<longleftrightarrow> ''*'' \<in> set origins \<or> o' \<in> set origins"
  by (simp add: SetOrigins_def addOrigins_valid) (simp add: ValidOrigin_def)

text \<open>
  No sequence of the setters ever allows credentials: the options start without and no operation of
  the type turns them on.
\<close>

inductive corsReachable :: "CORSOptions \<Rightarrow> bool" where
  start: "corsReachable defaultCORSOptions"
| setMethods: "corsReachable c \<Longrightarrow> corsReachable (SetMethods ms c)"
| setHeaders: "corsReachable c \<Longrightarrow> corsReachable (SetHeaders hs c)"
| setOrigins: "corsReachable c \<Longrightarrow> corsReachable (SetOrigins os c)"

lemma cors_no_credentials: "corsReachable c \<Longrightarrow> \<not> AllowCredentials c"
  by (induction rule: corsReachable.induct)
    (simp_all add: defaultCORSOptions_def SetMethods_def SetHeaders_def SetOrigins_def addOrigins_creds,
      simp_all add: AllowCredentials_def)

end
