(* ===== verification/Error_Handler.thy ===== *)
theory Error_Handler
  imports Cors Radix_Wf
begin

text \<open>
  The router options of \<open>src/router.go\<close> and the error side of \<open>src/mux.go\<close>: \<open>HandleNotFound\<close>,
  \<open>HandleError\<close>, \<open>Recv\<close> and \<open>WrapHandler\<close>, with \<open>Context.Error\<close> and \<open>Context.NotFound\<close> of
  \<open>src/response.go\<close>. The serializers, the status texts, the regular expressions and the Unicode case
  table are parameters, collected in \<open>srvEnv\<close> with the response operations. Logging and the instrumenter are left out. A handler the options do not set is
  \<^const>\<open>None\<close>; the custom error handler returns whether it handled the error, or panics.
\<close>

record 'r srvEnv =
  e_ro :: "'r respOps"
  e_StatusMessage :: "int \<Rightarrow> bytes"
  e_jsonMarshal :: "(bytes \<times> bytes) list \<Rightarrow> bytes option"
  e_xmlMarshal :: "(bytes \<times> bytes) list \<Rightarrow> bytes option"
  e_rx :: regexp
  e_uf :: "rune \<Rightarrow> rune \<Rightarrow> bool"

record 'r RouterOptions =
  ro_Proxy :: ProxyOptions
  ro_CORS :: CORSOptions
  ro_Host :: bytes
  ro_BasePath :: bytes
  RedirectTrailingSlash :: bool
  RedirectFixedPath :: bool
  HandleMethodNotAllowed :: bool
  HandleOPTIONS :: bool
  GlobalOPTIONS :: "'r RequestHandler option"
  ro_NotFound :: "'r RequestHandler option"
  MethodNotAllowed :: "'r RequestHandler option"
  ErrorHandler :: "('r Ctx \<Rightarrow> goErr \<Rightarrow> 'r Ctx \<times> (panicVal + bool)) option"

section \<open>Not found\<close>

definition HandleNotFound :: "'r srvEnv \<Rightarrow> 'r RouterOptions \<Rightarrow> 'r RequestHandler" where
  "HandleNotFound ev opts ctx =
     (case ro_NotFound opts of
        Some h \<Rightarrow> h ctx
      | None \<Rightarrow> (respText (e_ro ev) (e_StatusMessage ev 404) (setStatusCode (e_ro ev) 404 ctx), None))"

definition NotFound :: "'r srvEnv \<Rightarrow> 'r RouterOptions \<Rightarrow> 'r RequestHandler" where
  "NotFound ev opts c = HandleNotFound ev opts (onResponse (r_Reset (e_ro ev)) c)"

section \<open>Errors\<close>

text \<open>The response is reset, but the headers registered with \<open>SetAlways\<close> are put back.\<close>

definition resetForError :: "'r respOps \<Rightarrow> 'r Ctx \<Rightarrow> 'r Ctx" where
  "resetForError ro ctx = applyAlwaysHeaders ro (onResponse (r_Reset ro) (captureAlwaysHeaders ro ctx))"

definition errorStatus :: "goErr \<Rightarrow> int" where
  "errorStatus err =
     (case e_StatusCode err of Some s \<Rightarrow> s | None \<Rightarrow> if e_Validation err \<noteq> None then 422 else 500)"

definition setErrorHeaders :: "'r respOps \<Rightarrow> goErr \<Rightarrow> 'r Ctx \<Rightarrow> 'r Ctx" where
  "setErrorHeaders ro err ctx =
     (case e_Headers err of
        Some hs \<Rightarrow> onResponse (\<lambda>r. foldl (\<lambda>r (n, v). r_SetHeader ro n v r) r hs) ctx
      | None \<Rightarrow> ctx)"

definition wants :: "bytes \<Rightarrow> bytes \<Rightarrow> 'r Ctx \<Rightarrow> bool" where
  "wants ct t ctx \<longleftrightarrow> HasPrefix ct t \<or> AcceptsExplicit ctx t"

text \<open>A body made by the error itself, in JSON first and then in XML.\<close>

definition customMarshal :: "bytes \<Rightarrow> goErr \<Rightarrow> 'r Ctx \<Rightarrow> (bytes \<times> bytes) option" where
  "customMarshal ct err ctx =
     (case e_Marshal err of
        None \<Rightarrow> None
      | Some enc \<Rightarrow>
          (case (if wants ct ContentTypeJSON ctx \<or> \<not> wants ct ContentTypeXML ctx then enc ContentTypeJSON else None) of
             Some b \<Rightarrow> Some b
           | None \<Rightarrow> if wants ct ContentTypeXML ctx then enc ContentTypeXML else None))"

definition renderError :: "'r srvEnv \<Rightarrow> bytes \<Rightarrow> (bytes \<times> bytes) list \<Rightarrow> 'r Ctx \<Rightarrow> 'r Ctx" where
  "renderError ev ct resp ctx =
     (if wants ct ContentTypeJSON ctx then
        (case e_jsonMarshal ev resp of
           None \<Rightarrow> ctx
         | Some d \<Rightarrow> respRaw (e_ro ev) d (setContentType (e_ro ev) ContentTypeJSON None ctx))
      else if wants ct ContentTypeXML ctx then
        (case e_xmlMarshal ev resp of
           None \<Rightarrow> ctx
         | Some d \<Rightarrow> respRaw (e_ro ev) d (setContentType (e_ro ev) ContentTypeXML None ctx))
      else respText (e_ro ev) (snd (resp ! 0)) ctx)"

definition defaultError :: "'r srvEnv \<Rightarrow> bytes \<Rightarrow> goErr \<Rightarrow> 'r Ctx \<Rightarrow> 'r Ctx" where
  "defaultError ev ct err ctx =
     (let ctx = setErrorHeaders (e_ro ev) err (setStatusCode (e_ro ev) (errorStatus err) ctx) in
      case customMarshal ct err ctx of
        Some (body, bodyCT) \<Rightarrow> respRaw (e_ro ev) body (setContentType (e_ro ev) bodyCT None ctx)
      | None \<Rightarrow>
          (case NewErrorResponse (Some err) of
             None \<Rightarrow> ctx
           | Some resp \<Rightarrow> renderError ev ct resp ctx))"

text \<open>
  The custom handler is announced in the log with the text of the error, so a nil error panics there.
\<close>

definition nilDeref :: panicVal where
  "nilDeref = PanicErr (plainErr ''runtime error: invalid memory address or nil pointer dereference'')"

definition HandleError ::
  "'r srvEnv \<Rightarrow> 'r RouterOptions \<Rightarrow> goErr option \<Rightarrow> 'r RequestHandler" where
  "HandleError ev opts err ctx =
     (let ct = r_ContentType (e_ro ev) (c_Response ctx);
          ctx = resetForError (e_ro ev) ctx;
          (ctx, out) = (case ErrorHandler opts of
             None \<Rightarrow> (ctx, Inr False)
           | Some eh \<Rightarrow> (case err of None \<Rightarrow> (ctx, Inl nilDeref) | Some e \<Rightarrow> eh ctx e))
      in case out of
           Inl p \<Rightarrow> (ctx, Some p)
         | Inr True \<Rightarrow> (ctx, None)
         | Inr False \<Rightarrow> (case err of None \<Rightarrow> (ctx, None) | Some e \<Rightarrow> (defaultError ev ct e ctx, None)))"

definition ctxError :: "'r srvEnv \<Rightarrow> 'r RouterOptions \<Rightarrow> goErr option \<Rightarrow> 'r RequestHandler" where
  "ctxError ev opts err c = HandleError ev opts err c"

section \<open>Recovering from panics\<close>

fun recvError :: "panicVal \<Rightarrow> goErr" where
  "recvError (PanicErr e) = e"
| "recvError (PanicStr s) = plainErr s"
| "recvError (PanicOther s) = plainErr (''panic: '' @ s)"

definition Recv :: "'r srvEnv \<Rightarrow> 'r RouterOptions \<Rightarrow> 'r Ctx \<times> panicVal option \<Rightarrow> 'r Ctx \<times> panicVal option" where
  "Recv ev opts res =
     (case res of (ctx, None) \<Rightarrow> (ctx, None) | (ctx, Some rcv) \<Rightarrow> HandleError ev opts (Some (recvError rcv)) ctx)"

text \<open>
  The wrapped handler: acquire a context, run the handler under \<open>Recv\<close>, release the context and leave
  the request and response of the server library.
\<close>

definition WrapHandler ::
  "'r srvEnv \<Rightarrow> 'r RouterOptions \<Rightarrow> bytes \<Rightarrow> 'r RequestHandler \<Rightarrow> 'r reqCtx \<Rightarrow> 'r reqCtx \<times> panicVal option" where
  "WrapHandler ev opts path handler ctx =
     (let (c, esc) = Recv ev opts (handler (acquireCtx path ctx)) in (c_context c, esc))"

section \<open>What an error leaves of a response\<close>

lemma capture_sel [simp]:
  "c_context (captureAlwaysHeaders ro c) = c_context c"
  "map fst (c_alwaysHeaders (captureAlwaysHeaders ro c)) = map fst (c_alwaysHeaders c)"
  by (auto simp: captureAlwaysHeaders_def)

lemma respond_sel [simp]:
  "c_Response (setStatusCode ro s c) = r_SetStatusCode ro s (c_Response c)"
  "c_Response (setContentType ro t None c) = r_SetContentType ro t (c_Response c)"
  "c_Response (respText ro b c) = r_SetBody ro b (r_SetContentType ro contentTypeText (c_Response c))"
  "c_Response (respRaw ro b c) = r_SetBody ro b (c_Response c)"
  "c_Request (setStatusCode ro s c) = c_Request c" "c_Request (setContentType ro t None c) = c_Request c"
  by (simp_all add: setStatusCode_def setContentType_def respText_def respRaw_def)

text \<open>A parameter error makes no body of its own.\<close>

lemma customMarshal_req [simp]: "customMarshal ct (reqGoErr et e) c = None"
  by (simp add: customMarshal_def reqGoErr_def plainErr_def)

lemma reset_sel [simp]:
  "c_Request (resetForError ro c) = c_Request c"
  by (simp add: resetForError_def applyAlwaysHeaders_def)

lemma wants_request: "c_Request c' = c_Request c \<Longrightarrow> wants ct t c' = wants ct t c"
  by (simp add: wants_def AcceptsExplicit_def headerGet_def)

text \<open>The header store of a reset response: each registered header with a value, and nothing else.\<close>

definition kept :: "'r respOps \<Rightarrow> 'r Ctx \<Rightarrow> (bytes \<times> bytes) list" where
  "kept ro c = filter (\<lambda>(n, v). length v > 0) (map (\<lambda>(n, _). (n, r_PeekHeader ro n (c_Response c))) (c_alwaysHeaders c))"

context response_store
begin

lemma reset_response:
  "c_Response (resetForError ro c) = foldl (\<lambda>r (n, v). r_SetHeader ro n v r) (r_Reset ro (c_Response c)) (kept ro c)"
  by (simp add: resetForError_def applyAlwaysHeaders_def captureAlwaysHeaders_def kept_def)

lemma kept_value:
  assumes "\<not> specialKey k" "k \<in> fst ` set (c_alwaysHeaders c)"
    and coh: "\<forall>n \<in> fst ` set (c_alwaysHeaders c). lowerKey n = lowerKey k \<longrightarrow> n = k"
  shows "r_PeekHeader ro k (c_Response (resetForError ro c)) = r_PeekHeader ro k (c_Response c)"
proof (cases "r_PeekHeader ro k (c_Response c) = []")
  case True
  have "List.find (\<lambda>(n, v). lowerKey n = lowerKey k) (rev (kept ro c)) = None"
    using coh True by (auto simp: find_None_iff kept_def)
  then show ?thesis using assms(1) True by (simp add: reset_response peek_sets)
next
  case False
  let ?P = "\<lambda>(n, v :: bytes). lowerKey n = lowerKey k"
  have mem: "(k, r_PeekHeader ro k (c_Response c)) \<in> set (rev (kept ro c))"
    using assms(2) False by (force simp: kept_def)
  then obtain n v where f: "List.find ?P (rev (kept ro c)) = Some (n, v)"
    by (cases "List.find ?P (rev (kept ro c))") (auto simp: find_None_iff)
  then have "(n, v) \<in> set (kept ro c)" "lowerKey n = lowerKey k" by (auto simp: find_Some_iff) (metis nth_mem set_rev length_rev)
  moreover from this coh have "n = k" by (force simp: kept_def)
  ultimately have "v = r_PeekHeader ro k (c_Response c)" by (auto simp: kept_def)
  with f show ?thesis using assms(1) by (simp add: reset_response peek_sets)
qed

lemma lost_value:
  assumes "\<not> specialKey k" "\<forall>n \<in> fst ` set (c_alwaysHeaders c). lowerKey n \<noteq> lowerKey k"
  shows "r_PeekHeader ro k (c_Response (resetForError ro c)) = []"
proof -
  have "List.find (\<lambda>(n, v). lowerKey n = lowerKey k) (rev (kept ro c)) = None"
    using assms(2) by (auto simp: find_None_iff kept_def)
  then show ?thesis using assms(1) by (simp add: reset_response peek_sets)
qed

lemma errHeaders_sel [simp]:
  "r_StatusCode ro (c_Response (setErrorHeaders ro err c)) = r_StatusCode ro (c_Response c)"
  "r_Body ro (c_Response (setErrorHeaders ro err c)) = r_Body ro (c_Response c)"
  by (auto simp: setErrorHeaders_def split: option.splits)

lemma render_status [simp]:
  "e_ro ev = ro \<Longrightarrow> r_StatusCode ro (c_Response (renderError ev ct resp c)) = r_StatusCode ro (c_Response c)"
  by (auto simp: renderError_def split: option.splits)

lemma default_status:
  "e_ro ev = ro \<Longrightarrow> r_StatusCode ro (c_Response (defaultError ev ct err c)) = errorStatus err"
  by (auto simp: defaultError_def Let_def split: option.splits)

lemma reset_body [simp]: "r_Body ro (c_Response (resetForError ro c)) = []"
  by (simp add: reset_response)

lemma default_silent:
  "e_ro ev = ro \<Longrightarrow> e_Safe err = None \<Longrightarrow> e_Validation err = None \<Longrightarrow> e_Marshal err = None \<Longrightarrow>
   r_Body ro (c_Response (defaultError ev ct err (resetForError ro c))) = []"
  by (simp add: defaultError_def customMarshal_def NewErrorResponse_def Let_def)

text \<open>A parameter error in plain text: the client reads its safe message.\<close>

lemma default_plain:
  assumes "e_ro ev = ro" "\<not> wants ct ContentTypeJSON c" "\<not> wants ct ContentTypeXML c"
  shows "r_Body ro (c_Response (defaultError ev ct (reqGoErr et e) c)) = reqSafeError e"
proof -
  have w: "wants ct t (setErrorHeaders ro err (setStatusCode ro s c)) = wants ct t c" for t err s
    by (rule wants_request) (simp add: setErrorHeaders_def split: option.split)
  with assms w show ?thesis by (simp add: defaultError_def NewErrorResponse_req renderError_def Let_def)
qed

lemma render_peek:
  "e_ro ev = ro \<Longrightarrow> \<not> specialKey k \<Longrightarrow>
   r_PeekHeader ro k (c_Response (renderError ev ct resp c)) = r_PeekHeader ro k (c_Response c)"
  by (auto simp: renderError_def split: option.splits)

lemma errHeaders_peek:
  assumes "\<not> specialKey k" "\<forall>hs. e_Headers err = Some hs \<longrightarrow> (\<forall>(n, v) \<in> set hs. lowerKey n \<noteq> lowerKey k)"
  shows "r_PeekHeader ro k (c_Response (setErrorHeaders ro err c)) = r_PeekHeader ro k (c_Response c)"
proof (cases "e_Headers err")
  case (Some hs)
  then have "List.find (\<lambda>(n, v). lowerKey n = lowerKey k) (rev hs) = None"
    using assms(2) by (auto simp: find_None_iff)
  with Some assms(1) show ?thesis by (simp add: setErrorHeaders_def peek_sets)
qed (simp add: setErrorHeaders_def)

lemma default_peek:
  assumes "e_ro ev = ro" "\<not> specialKey k" "\<forall>hs. e_Headers err = Some hs \<longrightarrow> (\<forall>(n, v) \<in> set hs. lowerKey n \<noteq> lowerKey k)"
  shows "r_PeekHeader ro k (c_Response (defaultError ev ct err c)) = r_PeekHeader ro k (c_Response c)"
  using assms(1,2) errHeaders_peek [OF assms(2,3)] render_peek [OF assms(1,2)]
  by (auto simp: defaultError_def Let_def split: option.splits)

end

section \<open>Properties\<close>

text \<open>
  C21 Without a custom error handler, handling an error never panics and answers with the status the error asks for, 422
  for a validation error that asks for none, and 500 for any other. A missing parameter and a malformed request ask for 400, an
  invalid parameter for 422. An error without a safe message, a validation result or a body of its own shows the client nothing.
\<close>

theorem error_status:
  assumes "response_store (e_ro ev)" "ErrorHandler opts = None"
  shows "\<exists>ctx'. HandleError ev opts (Some err) ctx = (ctx', None) \<and>
     r_StatusCode (e_ro ev) (c_Response ctx') =
       (case e_StatusCode err of Some s \<Rightarrow> s | None \<Rightarrow> if e_Validation err = None then 500 else 422) \<and>
     (\<forall>et e. err = reqGoErr et e \<longrightarrow>
       r_StatusCode (e_ro ev) (c_Response ctx') = (case e of ParamInvalidError _ _ _ \<Rightarrow> 422 | _ \<Rightarrow> 400)) \<and>
     (e_Safe err = None \<and> e_Validation err = None \<and> e_Marshal err = None \<longrightarrow> r_Body (e_ro ev) (c_Response ctx') = [])"
proof -
  let ?ct = "r_ContentType (e_ro ev) (c_Response ctx)"
  let ?c = "defaultError ev ?ct err (resetForError (e_ro ev) ctx)"
  have st: "r_StatusCode (e_ro ev) (c_Response ?c) = errorStatus err"
    by (rule response_store.default_status [OF assms(1) refl])
  have "HandleError ev opts (Some err) ctx = (?c, None)" using assms(2) by (simp add: HandleError_def Let_def)
  moreover have "r_StatusCode (e_ro ev) (c_Response ?c) = (case e_StatusCode err of Some s \<Rightarrow> s | None \<Rightarrow> if e_Validation err = None then 500 else 422)"
    unfolding st errorStatus_def by (cases "e_StatusCode err") auto
  moreover have "\<forall>et e. err = reqGoErr et e \<longrightarrow>
      r_StatusCode (e_ro ev) (c_Response ?c) = (case e of ParamInvalidError _ _ _ \<Rightarrow> 422 | _ \<Rightarrow> 400)"
    unfolding st by (auto simp: errorStatus_def reqGoErr_def split: reqErr.split)
  moreover have "r_Body (e_ro ev) (c_Response ?c) = []" if "e_Safe err = None" "e_Validation err = None" "e_Marshal err = None"
    by (rule response_store.default_silent [OF assms(1) refl that])
  ultimately show ?thesis by (intro exI [of _ ?c] conjI) (assumption, assumption, assumption, simp)
qed

definition demoEnv :: "assocResp srvEnv" where
  "demoEnv = \<lparr>e_ro = assocOps, e_StatusMessage = (\<lambda>s. if s = 404 then ''Not Found'' else ''Method Not Allowed''),
     e_jsonMarshal = (\<lambda>es. Some (snd (es ! 0))), e_xmlMarshal = (\<lambda>es. None),
     e_rx = noMatch, e_uf = (\<lambda>_ _. False)\<rparr>"

definition demoOptions :: "assocResp RouterOptions" where
  "demoOptions = \<lparr>ro_Proxy = defaultProxyOptions, ro_CORS = SetOrigins [''https://a.example''] defaultCORSOptions,
     ro_Host = [], ro_BasePath = [], RedirectTrailingSlash = True, RedirectFixedPath = True,
     HandleMethodNotAllowed = True, HandleOPTIONS = True, GlobalOPTIONS = None, ro_NotFound = None,
     MethodNotAllowed = None, ErrorHandler = None\<rparr>"

theorem error_status_witness:
  "\<exists>ctx'. HandleError demoEnv demoOptions (Some (reqGoErr (\<lambda>_. []) (ParamRequiredError ''id''))) (acquireCtx [] demoRaw)
       = (ctx', None) \<and> ar_status (c_Response ctx') = 400"
proof -
  have "response_store (e_ro demoEnv)" "ErrorHandler demoOptions = None"
    by (simp_all add: demoEnv_def demoOptions_def assoc.response_store_axioms)
  from error_status [OF this, of "reqGoErr (\<lambda>_. []) (ParamRequiredError ''id'')" "acquireCtx [] demoRaw"]
  show ?thesis by (auto simp: demoEnv_def assocOps_def)
qed

text \<open>What a client without a preferred format gets of an error: a status and a text.\<close>

definition answered ::
  "'r srvEnv \<Rightarrow> 'r RouterOptions \<Rightarrow> (numErr \<Rightarrow> bytes) \<Rightarrow> 'r Ctx \<Rightarrow> reqErr \<Rightarrow> int \<Rightarrow> bytes \<Rightarrow> bool" where
  "answered ev opts et ctx e status msg \<longleftrightarrow>
     (\<exists>ctx'. ctxError ev opts (Some (reqGoErr et e)) ctx = (ctx', None) \<and>
        r_StatusCode (e_ro ev) (c_Response ctx') = status \<and>
        (\<not> wants (r_ContentType (e_ro ev) (c_Response ctx)) ContentTypeJSON ctx \<longrightarrow>
         \<not> wants (r_ContentType (e_ro ev) (c_Response ctx)) ContentTypeXML ctx \<longrightarrow> r_Body (e_ro ev) (c_Response ctx') = msg))"

abbreviation quoted :: "bytes \<Rightarrow> bytes" where
  "quoted s \<equiv> CHR 0x27 # s @ [CHR 0x27]"

lemma answered_req:
  assumes "response_store (e_ro ev)" "ErrorHandler opts = None"
  shows "answered ev opts et ctx e (int (reqStatusCode e)) (reqSafeError e)"
proof -
  let ?ct = "r_ContentType (e_ro ev) (c_Response ctx)" and ?c = "resetForError (e_ro ev) ctx"
  have "ctxError ev opts (Some (reqGoErr et e)) ctx = (defaultError ev ?ct (reqGoErr et e) ?c, None)"
    using assms(2) by (simp add: ctxError_def HandleError_def Let_def)
  moreover have "errorStatus (reqGoErr et e) = int (reqStatusCode e)" by (simp add: errorStatus_def reqGoErr_def)
  moreover have "wants ?ct t ?c = wants ?ct t ctx" for t by (rule wants_request) simp
  ultimately show ?thesis
    using response_store.default_status [OF assms(1) refl] response_store.default_plain [OF assms(1) refl]
    by (auto simp: answered_def)
qed

text \<open>
  C11 Every integer access to a form ends in exactly one of three ways. Without a value it is an error that is answered with
  400 and says that the key is required, and no error of the optional access. A value that is no 64-bit decimal
  integer is an error of both that is answered with 422 and says that the key must be numeric. Otherwise both give the value, within
  64 bits. The text goes to a client that asks for neither JSON nor XML; there is no custom error handler.
\<close>

theorem form_int_cases:
  assumes "response_store (e_ro ev)" "ErrorHandler opts = None"
  shows "(formValue f key = [] \<and> formIntOptional f key = Inr None \<and>
      (\<exists>e. formInt f key = Inl e \<and> answered ev opts et ctx e 400
         (''Key: '' @ quoted key @ '' Error:Field validation for '' @ quoted key @ '' failed on the '' @ quoted ''required'' @ '' tag''))) \<or>
   (formValue f key \<noteq> [] \<and> (\<exists>n. ParseInt (formValue f key) = Inl n) \<and>
      (\<exists>e. formInt f key = Inl e \<and> formIntOptional f key = Inl e \<and> answered ev opts et ctx e 422
         (''Key: '' @ quoted key @ '' Error:Field validation for '' @ quoted key @ '' failed on the '' @ quoted ''numeric'' @ '' tag''))) \<or>
   (\<exists>v. formInt f key = Inr v \<and> formIntOptional f key = Inr (Some v) \<and> ParseInt (formValue f key) = Inr v \<and>
      - (2 ^ 63) \<le> v \<and> v < 2 ^ 63)"
proof -
  let ?msg = "\<lambda>tag. ''Key: '' @ quoted key @ '' Error:Field validation for '' @ quoted key @ '' failed on the '' @ quoted tag @ '' tag''"
  have A: "answered ev opts et ctx (ParamRequiredError key) 400 (?msg ''required'')"
    "answered ev opts et ctx (ParamInvalidError key ''numeric'' (Some n)) 422 (?msg ''numeric'')" for n
    using answered_req [OF assms, of et ctx "ParamRequiredError key"]
      answered_req [OF assms, of et ctx "ParamInvalidError key ''numeric'' (Some n)"] by (simp_all add: fieldErrMsg_def)
  from form.int_cases [of f key] show ?thesis
  proof (elim disjE exE conjE)
    assume "formInt64 f key = Inl (ParamRequiredError key)" "formValue f key = []"
    with A(1) form.optional_required [of f key] show ?thesis by (simp add: form.i_i64 form.iOpt_i64)
  next
    fix n assume "formInt64 f key = Inl (ParamInvalidError key ''numeric'' (Some n))" "ParseInt (formValue f key) = Inl n"
      "formValue f key \<noteq> []"
    with A(2) form.optional_required [of f key] show ?thesis by (simp add: form.i_i64 form.iOpt_i64)
  next
    fix v assume "formInt64 f key = Inr v" "ParseInt (formValue f key) = Inr v" "- (2 ^ 63) \<le> v" "v < 2 ^ 63"
    with form.optional_required [of f key] show ?thesis by (simp add: form.i_i64 form.iOpt_i64)
  qed
qed

theorem form_int_cases_witness:
  "\<exists>e ctx'. formInt (PostArgs \<lparr>args_All = [], args_Peek = (\<lambda>_. ''12a'')\<rparr> :: unit form) ''n'' = Inl e \<and>
     ctxError demoEnv demoOptions (Some (reqGoErr (\<lambda>_. []) e)) (acquireCtx [] demoRaw) = (ctx', None) \<and>
     ar_status (c_Response ctx') = 422 \<and>
     ar_body (c_Response ctx') = ''Key: '' @ quoted ''n'' @ '' Error:Field validation for '' @ quoted ''n'' @ '' failed on the '' @
       quoted ''numeric'' @ '' tag''"
proof -
  let ?f = "PostArgs \<lparr>args_All = [], args_Peek = (\<lambda>_. ''12a'')\<rparr> :: unit form" and ?c = "acquireCtx [] demoRaw"
  have o: "response_store (e_ro demoEnv)" "ErrorHandler demoOptions = None"
    by (simp_all add: demoEnv_def demoOptions_def assoc.response_store_axioms)
  have v: "formValue ?f ''n'' = ''12a''" by simp
  have p: "\<exists>n. ParseInt ''12a'' = Inl n" by (simp add: ParseInt_def Let_def HasPrefix_iff digitVal_def isDigit_def)
  have w: "\<not> wants (r_ContentType (e_ro demoEnv) (c_Response ?c)) ContentTypeJSON ?c"
    "\<not> wants (r_ContentType (e_ro demoEnv) (c_Response ?c)) ContentTypeXML ?c" by code_simp+
  have e: "r_StatusCode (e_ro demoEnv) = ar_status" "r_Body (e_ro demoEnv) = ar_body" by (simp_all add: demoEnv_def assocOps_def)
  have "\<not> (\<exists>v. ParseInt (formValue ?f ''n'') = Inr v)" "formValue ?f ''n'' \<noteq> []"
    using v p by auto
  with form_int_cases [OF o, of ?f "''n''" "\<lambda>_. []" ?c] obtain er where
    "formInt ?f ''n'' = Inl er" "answered demoEnv demoOptions (\<lambda>_. []) ?c er 422
       (''Key: '' @ quoted ''n'' @ '' Error:Field validation for '' @ quoted ''n'' @ '' failed on the '' @ quoted ''numeric'' @ '' tag'')"
    by blast
  with w show ?thesis unfolding answered_def e by blast
qed

text \<open>A handler that leaves a header and the list of registered headers alone, whether it panics or not.\<close>

abbreviation HeaderACAO :: bytes where "HeaderACAO \<equiv> ''Access-Control-Allow-Origin''"

lemma setAlways_sel [simp]:
  "c_Response (headerSetAlways ro k v c) = r_SetHeader ro k v (c_Response c)"
  "fst ` set (c_alwaysHeaders (headerSetAlways ro k v c)) = insert k (fst ` set (c_alwaysHeaders c))"
  "c_Request (headerSetAlways ro k v c) = c_Request c" "c_method (headerSetAlways ro k v c) = c_method c"
  by (auto simp: headerSetAlways_def preserveHeader_def headerSet_def)

lemma corsHeaders_always:
  "fst ` set (c_alwaysHeaders (corsHeaders ro opts origin c)) =
     {HeaderACAO, ''Access-Control-Allow-Methods'', ''Access-Control-Allow-Headers''} \<union>
     (if AllowCredentials opts then {''Access-Control-Allow-Credentials''} else {}) \<union> fst ` set (c_alwaysHeaders c)"
  by (auto simp: corsHeaders_def Let_def)

lemma setUserValue_sel [simp]:
  "c_Response (setUserValue k v c) = c_Response c" "c_alwaysHeaders (setUserValue k v c) = c_alwaysHeaders c"
  "c_Request (setUserValue k v c) = c_Request c"
  by (simp_all add: setUserValue_def)

lemma acquire_sel [simp]:
  "c_Request (acquireCtx path r) = fc_Request r" "c_alwaysHeaders (acquireCtx path r) = []"
  by (simp_all add: acquireCtx_def)

lemma acao_key: "\<not> specialKey HeaderACAO"
  by code_simp

context response_store
begin

lemma cors_peek:
  "r_PeekHeader ro HeaderACAO (c_Response (corsHeaders ro opts origin c)) = origin"
proof -
  have d: "lowerKey HeaderACAO \<noteq> lowerKey ''Access-Control-Allow-Methods''"
    "lowerKey HeaderACAO \<noteq> lowerKey ''Access-Control-Allow-Headers''"
    "lowerKey HeaderACAO \<noteq> lowerKey ''Access-Control-Allow-Credentials''" by code_simp+
  show ?thesis
    by (simp add: corsHeaders_def Let_def peek_other [OF acao_key d(1)] peek_other [OF acao_key d(2)]
        peek_other [OF acao_key d(3)] peek_same [OF acao_key refl])
qed

lemma cors_kept:
  assumes "c_alwaysHeaders c' = c_alwaysHeaders (corsHeaders ro opts origin (acquireCtx path r))"
    and "r_PeekHeader ro HeaderACAO (c_Response c') = origin"
  shows "r_PeekHeader ro HeaderACAO (c_Response (resetForError ro c')) = origin"
proof -
  have names: "fst ` set (c_alwaysHeaders c') \<subseteq> {HeaderACAO, ''Access-Control-Allow-Methods'',
      ''Access-Control-Allow-Headers'', ''Access-Control-Allow-Credentials''}" "HeaderACAO \<in> fst ` set (c_alwaysHeaders c')"
    unfolding assms(1) corsHeaders_always by auto
  have d: "lowerKey HeaderACAO \<noteq> lowerKey ''Access-Control-Allow-Methods''"
    "lowerKey HeaderACAO \<noteq> lowerKey ''Access-Control-Allow-Headers''"
    "lowerKey HeaderACAO \<noteq> lowerKey ''Access-Control-Allow-Credentials''" by code_simp+
  have "\<forall>n \<in> fst ` set (c_alwaysHeaders c'). lowerKey n = lowerKey HeaderACAO \<longrightarrow> n = HeaderACAO"
  proof (intro ballI impI)
    fix n assume "n \<in> fst ` set (c_alwaysHeaders c')" and k: "lowerKey n = lowerKey HeaderACAO"
    with names(1) have "n = HeaderACAO \<or> n = ''Access-Control-Allow-Methods'' \<or>
      n = ''Access-Control-Allow-Headers'' \<or> n = ''Access-Control-Allow-Credentials''" by blast
    with k d show "n = HeaderACAO" by metis
  qed
  with kept_value [OF acao_key names(2)] assms(2) show ?thesis by simp
qed

end

definition keepsHeader :: "'r respOps \<Rightarrow> bytes \<Rightarrow> 'r RequestHandler \<Rightarrow> bool" where
  "keepsHeader ro k h \<longleftrightarrow> (\<forall>c. c_alwaysHeaders (fst (h c)) = c_alwaysHeaders c \<and>
     r_PeekHeader ro k (c_Response (fst (h c))) = r_PeekHeader ro k (c_Response c) \<and>
     (\<forall>p hs. snd (h c) = Some p \<longrightarrow> e_Headers (recvError p) = Some hs \<longrightarrow> (\<forall>(n, v) \<in> set hs. lowerKey n \<noteq> lowerKey k)))"

lemma cors_call:
  assumes "headerGet c ''Origin'' = origin" "origin \<noteq> []" "ValidOrigin opts origin"
  shows "\<exists>c1. CORS ro opts (Some h) c = h c1 \<and> c_Response c1 = c_Response (corsHeaders ro opts origin c) \<and>
     c_alwaysHeaders c1 = c_alwaysHeaders (corsHeaders ro opts origin c)"
proof -
  let ?c = "corsHeaders ro opts origin c"
  let ?c1 = "if c_method ?c = MethodOptions \<and> headerGet ?c ''Access-Control-Request-Method'' \<noteq> []
     then setUserValue ''__cors_preflight'' (UBool True) ?c else ?c"
  have "CORS ro opts (Some h) c = h ?c1" using assms by (simp add: CORS_def callNext_def Let_def)
  moreover have "c_Response ?c1 = c_Response ?c" "c_alwaysHeaders ?c1 = c_alwaysHeaders ?c" by simp_all
  ultimately show ?thesis by blast
qed

text \<open>
  C22 Cross-origin headers survive errors. When the \<open>CORS\<close> middleware accepts the origin of a request, the
  response allows that origin whether the handler behind it returns or panics, although a panic resets
  the response; the handler must not touch that header, and its error must not set it.
\<close>

theorem cors_on_error:
  assumes "response_store (e_ro ev)" "ErrorHandler opts = None"
    and "headerGet (acquireCtx path r) ''Origin'' = origin" "origin \<noteq> []" "ValidOrigin (ro_CORS opts) origin"
    and "keepsHeader (e_ro ev) HeaderACAO h"
  shows "\<exists>r'. WrapHandler ev opts path (CORS (e_ro ev) (ro_CORS opts) (Some h)) r = (r', None) \<and>
     r_PeekHeader (e_ro ev) HeaderACAO (fc_Response r') = origin"
proof -
  let ?ro = "e_ro ev" and ?c0 = "acquireCtx path r"
  obtain c1 where c1: "CORS ?ro (ro_CORS opts) (Some h) ?c0 = h c1"
    "c_Response c1 = c_Response (corsHeaders ?ro (ro_CORS opts) origin ?c0)"
    "c_alwaysHeaders c1 = c_alwaysHeaders (corsHeaders ?ro (ro_CORS opts) origin ?c0)"
    using cors_call [OF assms(3-5)] by metis
  obtain c' p where h: "h c1 = (c', p)" by (cases "h c1")
  have k: "c_alwaysHeaders c' = c_alwaysHeaders c1" "r_PeekHeader ?ro HeaderACAO (c_Response c') = origin"
    "\<And>q hs. p = Some q \<Longrightarrow> e_Headers (recvError q) = Some hs \<Longrightarrow> \<forall>(n, v) \<in> set hs. lowerKey n \<noteq> lowerKey HeaderACAO"
    using assms(6) h c1(2) response_store.cors_peek [OF assms(1)] unfolding keepsHeader_def by (metis fst_conv snd_conv)+
  show ?thesis
  proof (cases p)
    case None
    with h k(2) c1(1) show ?thesis by (simp add: WrapHandler_def Recv_def)
  next
    case (Some q)
    have "r_PeekHeader ?ro HeaderACAO (c_Response (resetForError ?ro c')) = origin"
      using response_store.cors_kept [OF assms(1) _ k(2), of "ro_CORS opts" path r] k(1) c1(3) by simp
    then have "r_PeekHeader ?ro HeaderACAO (c_Response (defaultError ev ct (recvError q) (resetForError ?ro c'))) = origin" for ct
      using response_store.default_peek [OF assms(1) refl acao_key] k(3) [OF Some] by metis
    with h c1(1) Some assms(2) show ?thesis by (simp add: WrapHandler_def Recv_def HandleError_def Let_def)
  qed
qed

theorem cors_on_error_witness:
  "\<exists>r'. WrapHandler demoEnv demoOptions ''/users'' (CORS assocOps (ro_CORS demoOptions) (Some (\<lambda>c. (c, Some (PanicStr ''boom'')))))
       (demoRaw\<lparr>fc_Request := demoReq\<lparr>rq_Peek := (\<lambda>_. ''https://a.example'')\<rparr>\<rparr>) = (r', None) \<and>
     assocPeek HeaderACAO (fc_Response r') = ''https://a.example''"
proof -
  let ?r = "demoRaw\<lparr>fc_Request := demoReq\<lparr>rq_Peek := (\<lambda>_. ''https://a.example'')\<rparr>\<rparr>"
  have e: "e_ro demoEnv = assocOps" "r_PeekHeader assocOps = assocPeek" by (simp_all add: demoEnv_def assocOps_def)
  have o: "ErrorHandler demoOptions = None" by (simp add: demoOptions_def)
  have v: "ValidOrigin (ro_CORS demoOptions) ''https://a.example''"
    by (simp add: demoOptions_def SetOrigins_def ValidOrigin_def)
  have g: "headerGet (acquireCtx ''/users'' ?r) ''Origin'' = ''https://a.example''" by (simp add: headerGet_def)
  have k: "keepsHeader (e_ro demoEnv) HeaderACAO (\<lambda>c. (c, Some (PanicStr ''boom'')))"
    by (simp add: keepsHeader_def plainErr_def)
  from cors_on_error [OF _ o g _ v k] show ?thesis by (simp add: e assoc.response_store_axioms)
qed

end
