(* ===== verification/Router_Path.thy ===== *)
theory Router_Path
  imports Radix_Utils
begin

text \<open>
  The path helpers of \<open>src/internal/router/path.go\<close>: \<open>CleanPath\<close>, \<open>includesPath\<close> and
  \<open>GetOptionalPaths\<close>, which expands a route with optional parameters \<open>{name?}\<close> to the routes the
  router registers. The labelled loop is \<open>walkPaths\<close> over the state (path, position, paths found); the
  inner loop over one pair of braces is \<open>scanOptional\<close>, and a slice out of range is a panic.
\<close>

definition CleanPath :: "bytes \<Rightarrow> bytes" where
  "CleanPath path = TrimSuffix path ''.''"

definition includesPath :: "bytes list \<Rightarrow> bytes \<Rightarrow> bool" where
  "includesPath paths path \<longleftrightarrow> path \<in> set paths"

text \<open>
  How the inner loop leaves: a panic, \<open>continue walk\<close> (or the end of the input) with the paths found,
  or the closing brace of an optional parameter with its offset and the position of its question mark.
\<close>

datatype optScan = OptPanic | OptWalk "bytes list" | OptFound nat nat bytes "bytes list"

fun scanOptional ::
  "bytes \<Rightarrow> nat \<Rightarrow> bytes \<Rightarrow> nat \<Rightarrow> bytes \<Rightarrow> bool \<Rightarrow> nat option \<Rightarrow> nat \<Rightarrow> bytes list \<Rightarrow> optScan" where
  "scanOptional path start [] end newPath hasRegex qm brackets paths = OptWalk paths"
| "scanOptional path start (c # cs) end newPath hasRegex qm brackets paths =
     (if c = lbrace then scanOptional path start cs (Suc end) newPath hasRegex qm (Suc brackets) paths
      else if c = rbrace then
        (if brackets > 0 then scanOptional path start cs (Suc end) newPath hasRegex qm (brackets - 1) paths
         else case qm of
           None \<Rightarrow> OptWalk paths
         | Some q \<Rightarrow> OptFound (end + 1) q (newPath @ take (start + (end + 1) - (q + 1)) (drop (q + 1) path)) paths)
      else if c = colon then scanOptional path start cs (Suc end) newPath True qm brackets paths
      else if c = qmark \<and> \<not> hasRegex then
        (if start < 2 then OptPanic
         else let q = start + end; before = take (start - 2) path;
                paths = (if length before = 0 then paths @ [[slash]]
                         else if \<not> includesPath paths before then paths @ [before] else paths)
              in scanOptional path start cs (Suc end) (newPath @ take q path) hasRegex (Some q) brackets paths)
      else scanOptional path start cs (Suc end) newPath hasRegex qm brackets paths)"

lemma scanOptional_found:
  "scanOptional path start cs k newPath hasRegex qm brackets paths = OptFound e q np ps \<Longrightarrow> k < e"
proof (induction cs arbitrary: k newPath hasRegex qm brackets paths)
  case (Cons c cs)
  from Cons.prems show ?case
    by (auto simp: Let_def split: if_splits option.splits dest!: Cons.IH Suc_lessD)
qed simp

function walkPaths :: "bytes \<Rightarrow> nat \<Rightarrow> bytes list \<Rightarrow> panic + bytes list" where
  "walkPaths path start paths =
     (if start \<ge> length path then Inr paths
      else if path ! start \<noteq> lbrace then walkPaths path (start + 1) paths
      else case scanOptional path (start + 1) (drop (start + 1) path) 0 [] False None 0 paths of
        OptPanic \<Rightarrow> Inl IndexOutOfRange
      | OptWalk ps \<Rightarrow> walkPaths path (start + 1) ps
      | OptFound end q newPath ps \<Rightarrow>
          walkPaths (take q path @ drop (q + 1) path) (start + 1 + (end - 1)) (ps @ [newPath]))"
  by pat_completeness auto
termination
  by (relation "measure (\<lambda>(path, start, paths). length path - start)")
    (auto simp: min_def dest!: scanOptional_found)

declare walkPaths.simps [simp del]

definition GetOptionalPaths :: "bytes \<Rightarrow> panic + bytes list" where
  "GetOptionalPaths path = walkPaths path 0 []"

section \<open>Expansion of optional parameters\<close>

lemma scanOptional_plain:
  "qmark \<notin> set cs \<Longrightarrow> scanOptional path start cs k newPath hasRegex None brackets paths = OptWalk paths"
  by (induction path start cs k newPath hasRegex "None :: nat option" brackets paths rule: scanOptional.induct) auto

lemma walkPaths_plain: "qmark \<notin> set path \<Longrightarrow> walkPaths path start paths = Inr paths"
proof (induction "length path - start" arbitrary: start)
  case 0
  then show ?case by (subst walkPaths.simps) simp
next
  case (Suc n)
  then have "walkPaths path (Suc start) paths = Inr paths" by simp
  moreover have "qmark \<notin> set (drop (Suc start) path)" using Suc.prems by (auto dest: in_set_dropD)
  ultimately show ?case using Suc.hyps(2)
    by (subst walkPaths.simps) (simp add: scanOptional_plain)
qed

lemma walkPaths_skip: "lbrace \<notin> set u \<Longrightarrow> start = length v \<Longrightarrow>
    walkPaths (v @ u @ w) start paths = walkPaths (v @ u @ w) (start + length u) paths"
proof (induction u arbitrary: v start)
  case (Cons c u)
  from Cons.IH [of "start + 1" "v @ [c]"] Cons.prems show ?case
    by (subst walkPaths.simps) (auto simp: nth_append)
qed simp

definition plainName :: "bytes \<Rightarrow> bool" where
  "plainName n \<longleftrightarrow> set n \<inter> {lbrace, rbrace, colon, qmark} = {}"

lemma scanOptional_name:
  "plainName n \<Longrightarrow> scanOptional path start (n @ cs) k newPath hasRegex qm 0 paths =
     scanOptional path start cs (k + length n) newPath hasRegex qm 0 paths"
  by (induction n arbitrary: k) (auto simp: plainName_def)

section \<open>Properties\<close>

text \<open>
  A route without a question mark has no optional parameters: \<open>GetOptionalPaths\<close> returns the empty
  list, and the router registers the route as it is written.
\<close>

theorem optional_none:
  assumes "qmark \<notin> set path"
  shows "GetOptionalPaths path = Inr []"
  using assms by (simp add: GetOptionalPaths_def walkPaths_plain)

theorem optional_none_witness: "GetOptionalPaths ''/users/{id}'' = Inr []"
  by (rule optional_none) simp

text \<open>
  A route that ends in an optional parameter stands for two routes, the one without the segment
  (the root when nothing is left) and the one with a required parameter of the same name.
\<close>

theorem optional_last:
  assumes "lbrace \<notin> set p" "plainName n"
  shows "GetOptionalPaths (p @ ''/{'' @ n @ ''?}'') =
    Inr [if p = [] then [slash] else p, p @ ''/{'' @ n @ ''}'']"
proof -
  let ?path = "p @ ''/{'' @ n @ ''?}''" and ?s = "length p + 2"
  let ?base = "if p = [] then [slash] else p"
  have "GetOptionalPaths ?path = walkPaths ?path (length p + 1) []"
    using walkPaths_skip [of "p @ [slash]" 0 "[]" "[lbrace] @ n @ ''?}''" "[]"] assms(1)
    by (simp add: GetOptionalPaths_def)
  also have "\<dots> = walkPaths (p @ ''/{'' @ n @ ''}'') (?s + length n + 1) [?base, p @ ''/{'' @ n @ ''}'']"
  proof -
    have d: "drop ?s ?path = n @ ''?}''" by simp
    have f: "scanOptional ?path ?s (n @ ''?}'') 0 [] False None 0 [] =
        OptFound (length n + 2) (?s + length n) (p @ ''/{'' @ n @ ''}'') [?base]"
      by (subst scanOptional_name [OF assms(2)]) (simp add: Let_def includesPath_def numeral_eq_Suc)
    have cut: "take (?s + length n) ?path @ drop (?s + length n + 1) ?path = p @ ''/{'' @ n @ ''}''"
      by (simp add: numeral_eq_Suc)
    have "walkPaths ?path (length p + 1) [] =
        walkPaths (take (?s + length n) ?path @ drop (?s + length n + 1) ?path) (length p + 1 + 1 + (length n + 2 - 1))
          [?base, p @ ''/{'' @ n @ ''}'']"
      using f d by (subst walkPaths.simps) (simp add: nth_append)
    then show ?thesis unfolding cut by (simp add: add.assoc)
  qed
  also have "\<dots> = Inr [?base, p @ ''/{'' @ n @ ''}'']"
    by (subst walkPaths.simps) simp
  finally show ?thesis .
qed

theorem optional_last_witness:
  "GetOptionalPaths ''/users/{id?}'' = Inr [''/users'', ''/users/{id}'']"
  using optional_last [of "''/users''" "''id''"] by (simp add: plainName_def)

text \<open>\<open>CleanPath\<close> removes one dot at the end and leaves every other path alone.\<close>

theorem clean_path: "CleanPath path = (if \<exists>q. path = q @ ''.'' then butlast path else path)"
proof (cases "\<exists>q. path = q @ ''.''")
  case True
  then obtain q where "path = q @ ''.''" by blast
  then show ?thesis by (simp add: CleanPath_def TrimSuffix_def HasSuffix_iff)
next
  case False
  then have "\<not> HasSuffix path ''.''" by (simp add: HasSuffix_iff)
  with False show ?thesis by (simp add: CleanPath_def TrimSuffix_def)
qed

end
