(* ===== verification/Mux.thy ===== *)
theory Mux
  imports Error_Handler Router_Path "HOL-Library.List_Lexorder" "HOL-Library.Char_ord"
begin

text \<open>
  The router of \<open>src/mux.go\<close>: its state, registration (\<open>Handle\<close> and the operations before serving) and
  the list of allowed methods. A tree holds wrapped handlers, kept as the pair of the registered path
  and the chained handler, which \<open>WrapHandler\<close> runs.

  \<open>Handle\<close> returns the state it leaves behind and how it ended, so a panic shows what was registered
  before it. The iteration order of the map of registered paths is the order of an association list;
  the results are shown not to depend on it. The pointer \<open>originalBasePath\<close> is only ever taken of one
  field, the base path of the options, and is read through it.
\<close>

type_synonym 'r routeHandler = "bytes \<times> 'r RequestHandler"

datatype basePathPtr = OptionsBasePath

record 'r mux =
  trees :: "'r routeHandler Tree option list"
  treeMutable :: bool
  customMethodsIndex :: "bytes \<rightharpoonup> nat"
  registeredPaths :: "(bytes \<times> bytes list) list"
  middlewares :: "'r RequestHandlerFunc list"
  priorityMiddlewares :: "'r RequestHandlerFunc list"
  globalAllowed :: bytes
  originalBasePath :: "basePathPtr option"
  fixedBasePath :: bytes
  m_RouterOptions :: "'r RouterOptions"

abbreviation MethodWild :: bytes where "MethodWild \<equiv> ''*''"

definition defaultRouterOptions :: "'r respOps \<Rightarrow> 'r RouterOptions" where
  "defaultRouterOptions ro = \<lparr>ro_Proxy = defaultProxyOptions, ro_CORS = defaultCORSOptions, ro_Host = [], ro_BasePath = [],
     RedirectTrailingSlash = True, RedirectFixedPath = True, HandleMethodNotAllowed = True, HandleOPTIONS = True,
     GlobalOPTIONS = Some (\<lambda>ctx. (setStatusCode ro 204 ctx, None)), ro_NotFound = None, MethodNotAllowed = None,
     ErrorHandler = None\<rparr>"

definition newMux :: "'r respOps \<Rightarrow> 'r mux" where
  "newMux ro = \<lparr>trees = replicate 11 None, treeMutable = False, customMethodsIndex = Map.empty, registeredPaths = [],
     middlewares = [], priorityMiddlewares = [], globalAllowed = [], originalBasePath = None, fixedBasePath = [],
     m_RouterOptions = defaultRouterOptions ro\<rparr>"

definition Host :: "'r mux \<Rightarrow> bytes" where
  "Host m = ro_Host (m_RouterOptions m)"

section \<open>Base path\<close>

definition derefBasePath :: "'r mux \<Rightarrow> basePathPtr \<Rightarrow> bytes" where
  "derefBasePath m p = (case p of OptionsBasePath \<Rightarrow> ro_BasePath (m_RouterOptions m))"

definition fixBasePath :: "bytes \<Rightarrow> bytes" where
  "fixBasePath p =
     (let p = (if length p > 0 \<and> p ! 0 \<noteq> slash then slash # p else p) in
      if length p > 0 \<and> p ! (length p - 1) = slash then take (length p - 1) p else p)"

definition BasePath :: "'r mux \<Rightarrow> 'r mux \<times> bytes" where
  "BasePath m =
     (let m = (if (case originalBasePath m of None \<Rightarrow> True
                   | Some p \<Rightarrow> derefBasePath m p \<noteq> ro_BasePath (m_RouterOptions m))
               then m\<lparr>originalBasePath := Some OptionsBasePath,
                      fixedBasePath := fixBasePath (ro_BasePath (m_RouterOptions m))\<rparr>
               else m)
      in (m, fixedBasePath m))"

section \<open>Options and middlewares\<close>

definition setTreeMutable :: "bool \<Rightarrow> 'h Tree \<Rightarrow> 'h Tree" where
  "setTreeMutable v t = t\<lparr>Mutable := v\<rparr>"

definition muxMutable :: "bool \<Rightarrow> 'r mux \<Rightarrow> 'r mux" where
  "muxMutable v m = m\<lparr>treeMutable := v, trees := map (map_option (setTreeMutable v)) (trees m)\<rparr>"

definition Routes :: "'r mux \<Rightarrow> (bytes \<times> bytes list) list" where
  "Routes m = registeredPaths m"

definition Use :: "'r RequestHandlerFunc list \<Rightarrow> 'r mux \<Rightarrow> 'r mux" where
  "Use mws m = m\<lparr>middlewares := middlewares m @ mws\<rparr>"

definition UsePriority :: "'r RequestHandlerFunc list \<Rightarrow> 'r mux \<Rightarrow> 'r mux" where
  "UsePriority mws m = m\<lparr>priorityMiddlewares := priorityMiddlewares m @ mws\<rparr>"

text \<open>The loops of \<open>Chain\<close> apply the last middleware first.\<close>

fun chainLoop :: "'r RequestHandlerFunc list \<Rightarrow> 'r RequestHandler \<Rightarrow> 'r RequestHandler" where
  "chainLoop [] handler = handler"
| "chainLoop (mw # mws) handler = mw (chainLoop mws handler)"

definition Chain :: "'r mux \<Rightarrow> 'r RequestHandler \<Rightarrow> 'r RequestHandler" where
  "Chain m handler = chainLoop (priorityMiddlewares m) (chainLoop (middlewares m) handler)"

section \<open>Methods\<close>

definition MethodIndexOf :: "'r mux \<Rightarrow> bytes \<Rightarrow> nat option" where
  "MethodIndexOf m method =
     (if method = MethodGet then Some 0
      else if method = MethodHead then Some 1
      else if method = MethodPost then Some 2
      else if method = MethodPut then Some 3
      else if method = MethodPatch then Some 4
      else if method = MethodDelete then Some 5
      else if method = MethodConnect then Some 6
      else if method = MethodOptions then Some 7
      else if method = MethodTrace then Some 8
      else if method = MethodQuery then Some 9
      else if method = MethodWild then Some 10
      else customMethodsIndex m method)"

section \<open>Allowed methods\<close>

text \<open>The insertion sort in place: \<open>sinkLeft\<close> is the inner loop.\<close>

fun sinkLeft :: "bytes list \<Rightarrow> nat \<Rightarrow> bytes list" where
  "sinkLeft xs 0 = xs"
| "sinkLeft xs (Suc j) =
     (if xs ! Suc j < xs ! j then sinkLeft (xs[Suc j := xs ! j, j := xs ! Suc j]) j else xs)"

fun sortFrom :: "nat \<Rightarrow> bytes list \<Rightarrow> nat \<Rightarrow> bytes list" where
  "sortFrom 0 xs i = xs"
| "sortFrom (Suc k) xs i = sortFrom k (sinkLeft xs i) (i + 1)"

definition sortAllowed :: "bytes list \<Rightarrow> bytes list" where
  "sortAllowed xs = sortFrom (length xs - 1) xs 1"

definition allowHeader :: "bytes list \<Rightarrow> bytes" where
  "allowHeader allowed =
     (if length allowed > 0 then Join (sortAllowed (allowed @ [MethodOptions])) '', '' else [])"

fun pathMethods :: "regexp \<Rightarrow> 'r mux \<Rightarrow> bytes \<Rightarrow> bytes \<Rightarrow> bytes list \<Rightarrow> panic + bytes list" where
  "pathMethods rx m path reqMethod [] = Inr []"
| "pathMethods rx m path reqMethod (method # ms) =
     (if method = reqMethod \<or> method = MethodOptions then pathMethods rx m path reqMethod ms
      else case MethodIndexOf m method of
        None \<Rightarrow> Inl IndexOutOfRange
      | Some i \<Rightarrow>
          if i \<ge> length (trees m) then Inl IndexOutOfRange
          else (case trees m ! i of
            None \<Rightarrow> Inl NilDereference
          | Some t \<Rightarrow>
              (case Get rx t path None of
                 GetPanic p \<Rightarrow> Inl p
               | Got handle _ _ \<Rightarrow>
                   (case pathMethods rx m path reqMethod ms of
                      Inl p \<Rightarrow> Inl p
                    | Inr allowed \<Rightarrow> Inr (if handle \<noteq> None then method # allowed else allowed)))))"

definition Allowed :: "regexp \<Rightarrow> 'r mux \<Rightarrow> bytes \<Rightarrow> bytes \<Rightarrow> panic + bytes" where
  "Allowed rx m path reqMethod =
     (if path = ''*'' \<or> path = ''/*'' then
        (if reqMethod = [] then Inr (allowHeader (filter (\<lambda>k. k \<noteq> MethodOptions) (map fst (registeredPaths m))))
         else Inr (globalAllowed m))
      else case pathMethods rx m path reqMethod (map fst (registeredPaths m)) of
        Inl p \<Rightarrow> Inl p
      | Inr allowed \<Rightarrow> Inr (allowHeader allowed))"

section \<open>Registration\<close>

datatype handleOut =
    HandleOk
  | MethodEmpty
  | PathNoSlash bytes
  | NilHandlerPanic
  | OptionalPanic panic
  | TreePanics treeOut

fun addPath :: "bytes \<Rightarrow> bytes \<Rightarrow> (bytes \<times> bytes list) list \<Rightarrow> (bytes \<times> bytes list) list" where
  "addPath method path [] = [(method, [path])]"
| "addPath method path ((k, ps) # xs) =
     (if k = method then (k, ps @ [path]) # xs else (k, ps) # addPath method path xs)"

text \<open>The tree of a method, made on first use: a slot of its own for a custom method.\<close>

definition customTree :: "bytes \<Rightarrow> 'r mux \<Rightarrow> 'r mux \<times> nat" where
  "customTree method m =
     (case MethodIndexOf m method of
        Some i \<Rightarrow> (m, i)
      | None \<Rightarrow>
          (let i = length (trees m) in
           (m\<lparr>trees := trees m @ [Some (New\<lparr>Mutable := treeMutable m\<rparr>)],
              customMethodsIndex := (customMethodsIndex m)(method \<mapsto> i)\<rparr>, i)))"

definition methodTree :: "regexp \<Rightarrow> nat \<Rightarrow> 'r mux \<Rightarrow> 'r mux \<times> 'r routeHandler Tree" where
  "methodTree rx i m =
     (case trees m ! i of
        Some t \<Rightarrow> (m, t)
      | None \<Rightarrow>
          (let t = New\<lparr>Mutable := treeMutable m\<rparr>; m = m\<lparr>trees := (trees m)[i := Some t]\<rparr> in
           (m\<lparr>globalAllowed := (case Allowed rx m ''*'' [] of Inr s \<Rightarrow> s | Inl _ \<Rightarrow> [])\<rparr>, t)))"

fun addPaths ::
  "regexp \<Rightarrow> ('h node list \<Rightarrow> 'h node list) \<Rightarrow> 'h \<Rightarrow> bytes list \<Rightarrow> 'h Tree \<Rightarrow> 'h Tree \<times> treeOut" where
  "addPaths rx srt h [] t = (t, TreeOk)"
| "addPaths rx srt h (p # ps) t =
     (case Add rx srt p (Some h) t of (t', TreeOk) \<Rightarrow> addPaths rx srt h ps t' | (t', out) \<Rightarrow> (t', out))"

definition Handle ::
  "regexp \<Rightarrow> ('r routeHandler node list \<Rightarrow> 'r routeHandler node list) \<Rightarrow>
   bytes \<Rightarrow> bytes \<Rightarrow> 'r RequestHandler option \<Rightarrow> 'r mux \<Rightarrow> 'r mux \<times> handleOut" where
  "Handle rx srt method path handler m =
     (if length method = 0 then (m, MethodEmpty)
      else if length path < 1 \<or> path ! 0 \<noteq> slash then (m, PathNoSlash path)
      else case handler of
        None \<Rightarrow> (m, NilHandlerPanic)
      | Some handler \<Rightarrow>
          (let m = m\<lparr>registeredPaths := addPath method path (registeredPaths m)\<rparr>;
               (m, i) = customTree method m;
               (m, tree) = methodTree rx i m
           in case GetOptionalPaths path of
                Inl p \<Rightarrow> (m, OptionalPanic p)
              | Inr optionalPaths \<Rightarrow>
                  (let wrappedHandler = (path, Chain m handler);
                       (t', out) = addPaths rx srt wrappedHandler
                         (if length optionalPaths = 0 then [path] else optionalPaths) tree
                   in (m\<lparr>trees := (trees m)[i := Some t']\<rparr>, case out of TreeOk \<Rightarrow> HandleOk | e \<Rightarrow> TreePanics e))))"

end
