(* ===== verification/Mux_Inv.thy ===== *)
theory Mux_Inv
  imports Mux
begin

text \<open>
  The invariant of the router and what registration does to it. \<open>muxCore\<close> says that every slot a method
  can name exists, that custom methods have slots of their own and that every tree is well-formed;
  \<open>muxInv\<close> adds that every registered method has a tree. \<open>registered_mono\<close> collects what every
  operation keeps.
\<close>

definition standardMethods :: "bytes list" where
  "standardMethods = [MethodGet, MethodHead, MethodPost, MethodPut, MethodPatch, MethodDelete, MethodConnect,
     MethodOptions, MethodTrace, MethodQuery, MethodWild]"

definition hasTree :: "'r mux \<Rightarrow> bytes \<Rightarrow> bool" where
  "hasTree m meth \<longleftrightarrow> (\<exists>i t. MethodIndexOf m meth = Some i \<and> i < length (trees m) \<and> trees m ! i = Some t)"

definition muxCore :: "'r mux \<Rightarrow> bool" where
  "muxCore m \<longleftrightarrow> 11 \<le> length (trees m) \<and>
     (\<forall>meth i. customMethodsIndex m meth = Some i \<longrightarrow> 11 \<le> i \<and> i < length (trees m) \<and> trees m ! i \<noteq> None) \<and>
     (\<forall>a b i. customMethodsIndex m a = Some i \<longrightarrow> customMethodsIndex m b = Some i \<longrightarrow> a = b) \<and>
     (\<forall>t. Some t \<in> set (trees m) \<longrightarrow> wfTree t \<and> Mutable t = treeMutable m)"

definition muxInv :: "'r mux \<Rightarrow> bool" where
  "muxInv m \<longleftrightarrow> muxCore m \<and> distinct (map fst (registeredPaths m)) \<and>
     (\<forall>meth \<in> fst ` set (registeredPaths m). hasTree m meth)"

section \<open>Slots\<close>

lemma MethodIndexOf_cases:
  "MethodIndexOf m x = Some i \<Longrightarrow> (i < 11 \<and> standardMethods ! i = x) \<or> (x \<notin> set standardMethods \<and> customMethodsIndex m x = Some i)"
  by (auto simp: MethodIndexOf_def standardMethods_def split: if_splits)

lemma MethodIndexOf_custom: "x \<notin> set standardMethods \<Longrightarrow> MethodIndexOf m x = customMethodsIndex m x"
  by (simp add: MethodIndexOf_def standardMethods_def)

lemma MethodIndexOf_None: "MethodIndexOf m x = None \<longleftrightarrow> x \<notin> set standardMethods \<and> customMethodsIndex m x = None"
  by (auto simp: MethodIndexOf_def standardMethods_def)

lemma MethodIndexOf_cong:
  "customMethodsIndex m' = customMethodsIndex m \<Longrightarrow> MethodIndexOf m' = MethodIndexOf m"
  by (rule ext) (simp add: MethodIndexOf_def)

lemma index_bound: "muxCore m \<Longrightarrow> MethodIndexOf m x = Some i \<Longrightarrow> i < length (trees m)"
  by (drule MethodIndexOf_cases) (auto simp: muxCore_def)

lemma index_inj: "muxCore m \<Longrightarrow> MethodIndexOf m a = Some i \<Longrightarrow> MethodIndexOf m b = Some i \<Longrightarrow> a = b"
  by (drule MethodIndexOf_cases, drule MethodIndexOf_cases) (unfold muxCore_def, metis leD)

lemma wildSlot [simp]: "MethodIndexOf m MethodWild = Some 10"
  by (simp add: MethodIndexOf_def)

lemma core_New: "muxCore (newMux ro)"
  by (simp add: muxCore_def newMux_def)

lemma inv_New: "muxInv (newMux ro)"
  using core_New [of ro] by (simp add: muxInv_def) (simp add: newMux_def)

section \<open>The steps of Handle\<close>

lemma wf_New [simp]: "wfTree (New\<lparr>Mutable := v\<rparr>)"
  by (simp add: wfTree_def wfBody_def)

lemma New_Mutable [simp]: "Mutable (New\<lparr>Mutable := v\<rparr>) = v"
  by simp

lemma customTree_core:
  assumes "muxCore m" "customTree meth m = (m', i)"
  shows "muxCore m'" "MethodIndexOf m' meth = Some i" "i < length (trees m')"
    "registeredPaths m' = registeredPaths m" "hasTree m x \<Longrightarrow> hasTree m' x" "treeMutable m' = treeMutable m"
    "middlewares m' = middlewares m" "priorityMiddlewares m' = priorityMiddlewares m"
    "m_RouterOptions m' = m_RouterOptions m" "x \<noteq> meth \<Longrightarrow> MethodIndexOf m' x = MethodIndexOf m x"
    "j < length (trees m) \<Longrightarrow> trees m' ! j = trees m ! j" "length (trees m) \<le> length (trees m')"
proof -
  have "muxCore m' \<and> MethodIndexOf m' meth = Some i \<and> i < length (trees m') \<and>
    registeredPaths m' = registeredPaths m \<and> (\<forall>x. hasTree m x \<longrightarrow> hasTree m' x) \<and> treeMutable m' = treeMutable m \<and>
    middlewares m' = middlewares m \<and> priorityMiddlewares m' = priorityMiddlewares m \<and>
    m_RouterOptions m' = m_RouterOptions m \<and> (\<forall>x. x \<noteq> meth \<longrightarrow> MethodIndexOf m' x = MethodIndexOf m x) \<and>
    (\<forall>j < length (trees m). trees m' ! j = trees m ! j) \<and> length (trees m) \<le> length (trees m')"
  proof (cases "MethodIndexOf m meth")
    case (Some k)
    with assms index_bound [OF assms(1) Some] show ?thesis by (auto simp: customTree_def)
  next
    case None
    let ?t = "New\<lparr>Mutable := treeMutable m\<rparr>"
    let ?m = "m\<lparr>trees := trees m @ [Some ?t], customMethodsIndex := (customMethodsIndex m)(meth \<mapsto> length (trees m))\<rparr>"
    have m': "m' = ?m" "i = length (trees m)" using assms(2) None by (auto simp: customTree_def Let_def)
    have c: "meth \<notin> set standardMethods" "customMethodsIndex m meth = None" using None by (simp_all add: MethodIndexOf_None)
    have ix: "MethodIndexOf ?m x = (if x = meth then Some (length (trees m)) else MethodIndexOf m x)" for x
      using c by (auto simp: MethodIndexOf_def standardMethods_def)
    have "muxCore ?m"
      using assms(1) unfolding muxCore_def
      by (auto simp: nth_append less_Suc_eq split: if_splits)
    moreover have "hasTree ?m x" if "hasTree m x" for x
      using that c(2) None unfolding hasTree_def ix by (auto simp: nth_append)
    ultimately show ?thesis using ix m' by (simp add: nth_append)
  qed
  then show "muxCore m'" "MethodIndexOf m' meth = Some i" "i < length (trees m')"
    "registeredPaths m' = registeredPaths m" "hasTree m x \<Longrightarrow> hasTree m' x" "treeMutable m' = treeMutable m"
    "middlewares m' = middlewares m" "priorityMiddlewares m' = priorityMiddlewares m"
    "m_RouterOptions m' = m_RouterOptions m" "x \<noteq> meth \<Longrightarrow> MethodIndexOf m' x = MethodIndexOf m x"
    "j < length (trees m) \<Longrightarrow> trees m' ! j = trees m ! j" "length (trees m) \<le> length (trees m')" by blast+
qed

lemma update_some: "xs ! j = Some y \<Longrightarrow> j < length xs \<Longrightarrow> \<exists>y. xs[i := Some t] ! j = Some y"
  by (cases "i = j") auto

lemma core_update:
  assumes "muxCore m" "wfTree t" "Mutable t = treeMutable m"
  shows "muxCore (m\<lparr>trees := (trees m)[i := Some t]\<rparr>)"
  using assms unfolding muxCore_def
  by (auto dest!: set_update_subset_insert [THEN subsetD]) (metis update_some)+

lemma hasTree_update: "hasTree m x \<Longrightarrow> hasTree (m\<lparr>trees := (trees m)[i := Some t]\<rparr>) x"
  unfolding hasTree_def using update_some [of "trees m" _ _ i t]
  by (auto simp: MethodIndexOf_cong [of "m\<lparr>trees := _\<rparr>" m])

lemma core_allowed [simp]: "muxCore (m\<lparr>globalAllowed := s\<rparr>) = muxCore m"
  and hasTree_allowed [simp]: "hasTree (m\<lparr>globalAllowed := s\<rparr>) x = hasTree m x"
  and index_allowed [simp]: "MethodIndexOf (m\<lparr>globalAllowed := s\<rparr>) x = MethodIndexOf m x"
  and index_trees [simp]: "MethodIndexOf (m\<lparr>trees := ts\<rparr>) x = MethodIndexOf m x"
  and index_paths [simp]: "MethodIndexOf (m\<lparr>registeredPaths := ps\<rparr>) x = MethodIndexOf m x"
  and core_paths [simp]: "muxCore (m\<lparr>registeredPaths := ps\<rparr>) = muxCore m"
  and hasTree_paths [simp]: "hasTree (m\<lparr>registeredPaths := ps\<rparr>) x = hasTree m x"
  by (simp_all add: muxCore_def hasTree_def MethodIndexOf_def)

lemma methodTree_core:
  assumes "muxCore m" "i < length (trees m)" "methodTree rx i m = (m', t)"
  shows "muxCore m'" "trees m' ! i = Some t" "length (trees m') = length (trees m)" "hasTree m x \<Longrightarrow> hasTree m' x"
    "registeredPaths m' = registeredPaths m" "MethodIndexOf m' x = MethodIndexOf m x" "wfTree t" "Mutable t = treeMutable m'"
    "middlewares m' = middlewares m" "priorityMiddlewares m' = priorityMiddlewares m"
    "m_RouterOptions m' = m_RouterOptions m" "j \<noteq> i \<Longrightarrow> trees m' ! j = trees m ! j" "treeMutable m' = treeMutable m"
    "trees m ! i = Some t \<or> trees m ! i = None \<and> t = New\<lparr>Mutable := treeMutable m\<rparr>"
proof -
  have "muxCore m' \<and> trees m' ! i = Some t \<and> length (trees m') = length (trees m) \<and> (\<forall>x. hasTree m x \<longrightarrow> hasTree m' x) \<and>
    registeredPaths m' = registeredPaths m \<and> (\<forall>x. MethodIndexOf m' x = MethodIndexOf m x) \<and> wfTree t \<and> Mutable t = treeMutable m' \<and>
    middlewares m' = middlewares m \<and> priorityMiddlewares m' = priorityMiddlewares m \<and>
    m_RouterOptions m' = m_RouterOptions m \<and> (\<forall>j. j \<noteq> i \<longrightarrow> trees m' ! j = trees m ! j) \<and> treeMutable m' = treeMutable m \<and>
    (trees m ! i = Some t \<or> trees m ! i = None \<and> t = New\<lparr>Mutable := treeMutable m\<rparr>)"
  proof (cases "trees m ! i")
    case (Some s)
    then have "Some s \<in> set (trees m)" using assms(2) nth_mem by metis
    then have "wfTree s" "Mutable s = treeMutable m" using assms(1) by (auto simp: muxCore_def)
    with Some assms show ?thesis by (simp add: methodTree_def)
  next
    case None
    with assms(3) have "m' = (let m1 = m\<lparr>trees := (trees m)[i := Some (New\<lparr>Mutable := treeMutable m\<rparr>)]\<rparr> in
        m1\<lparr>globalAllowed := (case Allowed rx m1 ''*'' [] of Inr s \<Rightarrow> s | Inl _ \<Rightarrow> [])\<rparr>)"
      "t = New\<lparr>Mutable := treeMutable m\<rparr>" by (auto simp: methodTree_def Let_def)
    with None assms(1,2) show ?thesis by (simp add: Let_def core_update hasTree_update)
  qed
  then show "muxCore m'" "trees m' ! i = Some t" "length (trees m') = length (trees m)" "hasTree m x \<Longrightarrow> hasTree m' x"
    "registeredPaths m' = registeredPaths m" "MethodIndexOf m' x = MethodIndexOf m x" "wfTree t" "Mutable t = treeMutable m'"
    "middlewares m' = middlewares m" "priorityMiddlewares m' = priorityMiddlewares m"
    "m_RouterOptions m' = m_RouterOptions m" "j \<noteq> i \<Longrightarrow> trees m' ! j = trees m ! j" "treeMutable m' = treeMutable m"
    "trees m ! i = Some t \<or> trees m ! i = None \<and> t = New\<lparr>Mutable := treeMutable m\<rparr>" by blast+
qed

lemma addError_Mutable [simp]: "Mutable (fst (addError h e pos t)) = Mutable t"
  by (auto simp: addError_def split: option.splits radixError.splits)

lemma addFinish_Mutable [simp]: "Mutable (fst (addFinish srt t)) = Mutable t"
  by (auto simp: addFinish_def split: list.splits)

lemma Add_Mutable [simp]: "Mutable (fst (Add rx srt p h t)) = Mutable t"
  by (auto simp: Add_def Let_def split: option.splits prod.splits addOut.splits)

context node_sort
begin

lemma addPaths_wf: "wfTree t \<Longrightarrow> wfTree (fst (addPaths rx srt h ps t))"
proof (induction ps arbitrary: t)
  case (Cons p ps)
  have "wfTree (fst (Add rx srt p (Some h) t))" using wf_Add [OF Cons.prems] .
  with Cons.IH show ?case by (auto split: prod.splits treeOut.splits)
qed simp

end

lemma addPaths_Mutable [simp]: "Mutable (fst (addPaths rx srt h ps t)) = Mutable t"
proof (induction ps arbitrary: t)
  case (Cons p ps)
  obtain t' out where a: "Add rx srt p (Some h) t = (t', out)" by force
  then have "Mutable t' = Mutable t" using Add_Mutable [of rx srt p "Some h" t] by simp
  with a Cons.IH [of t'] show ?case by (cases out) simp_all
qed simp

section \<open>Handle keeps the invariant\<close>

lemma addPath_keys [simp]: "fst ` set (addPath meth path ps) = insert meth (fst ` set ps)"
  by (induction meth path ps rule: addPath.induct) auto

lemma addPath_distinct: "distinct (map fst ps) \<Longrightarrow> distinct (map fst (addPath meth path ps))"
proof (induction meth path ps rule: addPath.induct)
  case (2 meth path k ps xs)
  then show ?case using addPath_keys [of meth path xs] by (auto simp del: addPath_keys)
qed simp

text \<open>What a successful check of the arguments leads to, step by step.\<close>

definition handleSteps ::
  "regexp \<Rightarrow> ('r routeHandler node list \<Rightarrow> 'r routeHandler node list) \<Rightarrow> bytes \<Rightarrow> bytes \<Rightarrow> 'r RequestHandler \<Rightarrow>
   'r mux \<Rightarrow> 'r mux \<Rightarrow> nat \<Rightarrow> 'r routeHandler Tree \<Rightarrow> bool" where
  "handleSteps rx srt meth path h m m2 i t \<longleftrightarrow>
     (\<exists>m1. customTree meth (m\<lparr>registeredPaths := addPath meth path (registeredPaths m)\<rparr>) = (m1, i) \<and>
        methodTree rx i m1 = (m2, t))"

lemma Handle_steps:
  assumes "meth \<noteq> []" "path \<noteq> []" "hd path = slash"
  obtains m2 i t where "handleSteps rx srt meth path h m m2 i t"
    "Handle rx srt meth path (Some h) m = (case GetOptionalPaths path of
       Inl p \<Rightarrow> (m2, OptionalPanic p)
     | Inr ops \<Rightarrow> (let (t', out) = addPaths rx srt (path, Chain m2 h) (if ops = [] then [path] else ops) t in
         (m2\<lparr>trees := (trees m2)[i := Some t']\<rparr>, case out of TreeOk \<Rightarrow> HandleOk | e \<Rightarrow> TreePanics e)))"
proof -
  obtain m1 i where a: "customTree meth (m\<lparr>registeredPaths := addPath meth path (registeredPaths m)\<rparr>) = (m1, i)" by force
  obtain m2 t where b: "methodTree rx i m1 = (m2, t)" by force
  have "\<not> length path < 1 \<and> path ! 0 = slash" using assms(2,3) by (cases path) auto
  with a b assms(1) have "Handle rx srt meth path (Some h) m = (case GetOptionalPaths path of
       Inl p \<Rightarrow> (m2, OptionalPanic p)
     | Inr ops \<Rightarrow> (let (t', out) = addPaths rx srt (path, Chain m2 h) (if ops = [] then [path] else ops) t in
         (m2\<lparr>trees := (trees m2)[i := Some t']\<rparr>, case out of TreeOk \<Rightarrow> HandleOk | e \<Rightarrow> TreePanics e)))"
    by (auto simp: Handle_def Let_def split: sum.split)
  moreover have "handleSteps rx srt meth path h m m2 i t" using a b by (auto simp: handleSteps_def)
  ultimately show thesis using that by blast
qed

lemma handleSteps_facts:
  assumes "muxCore m" "handleSteps rx srt meth path h m m2 i t"
  shows "muxCore m2" "MethodIndexOf m2 meth = Some i" "i < length (trees m2)" "trees m2 ! i = Some t" "wfTree t"
    "Mutable t = treeMutable m2" "treeMutable m2 = treeMutable m" "registeredPaths m2 = addPath meth path (registeredPaths m)"
    "hasTree m x \<Longrightarrow> hasTree m2 x" "middlewares m2 = middlewares m" "priorityMiddlewares m2 = priorityMiddlewares m"
    "m_RouterOptions m2 = m_RouterOptions m" "x \<noteq> meth \<Longrightarrow> MethodIndexOf m2 x = MethodIndexOf m x"
    "j < length (trees m) \<Longrightarrow> j \<noteq> i \<Longrightarrow> trees m2 ! j = trees m ! j" "Chain m2 h' = Chain m h'"
    "\<not> hasTree m meth \<Longrightarrow> t = New\<lparr>Mutable := treeMutable m\<rparr>"
    "MethodIndexOf m meth = Some k \<Longrightarrow> trees m ! k = Some s \<Longrightarrow> t = s \<and> i = k"
proof -
  let ?m = "m\<lparr>registeredPaths := addPath meth path (registeredPaths m)\<rparr>"
  obtain m1 where a: "customTree meth ?m = (m1, i)" and b: "methodTree rx i m1 = (m2, t)"
    using assms(2) by (auto simp: handleSteps_def)
  have c: "muxCore ?m" using assms(1) by simp
  note A = customTree_core [OF c a] and B = methodTree_core [OF customTree_core(1,3) [OF c a] b]
  show "muxCore m2" "MethodIndexOf m2 meth = Some i" "i < length (trees m2)" "trees m2 ! i = Some t" "wfTree t"
    "Mutable t = treeMutable m2" "treeMutable m2 = treeMutable m" "registeredPaths m2 = addPath meth path (registeredPaths m)"
    "hasTree m x \<Longrightarrow> hasTree m2 x" "middlewares m2 = middlewares m" "priorityMiddlewares m2 = priorityMiddlewares m"
    "m_RouterOptions m2 = m_RouterOptions m" "x \<noteq> meth \<Longrightarrow> MethodIndexOf m2 x = MethodIndexOf m x"
    "j < length (trees m) \<Longrightarrow> j \<noteq> i \<Longrightarrow> trees m2 ! j = trees m ! j" "Chain m2 h' = Chain m h'"
    using A B by (simp_all add: Chain_def)
  show "t = New\<lparr>Mutable := treeMutable m\<rparr>" if "\<not> hasTree m meth"
  proof (cases "MethodIndexOf m meth")
    case (Some k)
    with a have k: "m1 = ?m" "i = k" by (auto simp: customTree_def)
    with that Some index_bound [OF assms(1) Some] have "trees m1 ! i = None" by (auto simp: hasTree_def)
    with b k show ?thesis by (simp add: methodTree_def Let_def)
  next
    case None
    with a b show ?thesis by (auto simp: customTree_def methodTree_def Let_def)
  qed
  show "t = s \<and> i = k" if "MethodIndexOf m meth = Some k" "trees m ! k = Some s"
    using that a b by (auto simp: customTree_def methodTree_def Let_def)
qed

lemma Handle_inv:
  assumes "node_sort srt" "muxInv m"
  shows "muxInv (fst (Handle rx srt meth path h m))"
proof (cases "meth \<noteq> [] \<and> path \<noteq> [] \<and> hd path = slash \<and> h \<noteq> None")
  case False
  then have "fst (Handle rx srt meth path h m) = m"
    by (cases path) (auto simp: Handle_def split: option.splits)
  with assms(2) show ?thesis by simp
next
  case True
  then obtain g where g: "h = Some g" by auto
  from True obtain m2 i t where st: "handleSteps rx srt meth path g m m2 i t"
    and H: "Handle rx srt meth path (Some g) m = (case GetOptionalPaths path of
       Inl p \<Rightarrow> (m2, OptionalPanic p)
     | Inr ops \<Rightarrow> (let (t', out) = addPaths rx srt (path, Chain m2 g) (if ops = [] then [path] else ops) t in
         (m2\<lparr>trees := (trees m2)[i := Some t']\<rparr>, case out of TreeOk \<Rightarrow> HandleOk | e \<Rightarrow> TreePanics e)))"
    by (elim conjE) (rule Handle_steps [of meth path rx srt g m])
  have c: "muxCore m" using assms(2) by (simp add: muxInv_def)
  note F = handleSteps_facts [OF c st]
  have inv2: "muxInv m2"
    using assms(2) F by (auto simp: muxInv_def addPath_distinct) (auto simp: hasTree_def)
  have upd: "muxInv (m2\<lparr>trees := (trees m2)[i := Some (fst (addPaths rx srt w ps t))]\<rparr>)" for w ps
  proof -
    have "wfTree (fst (addPaths rx srt w ps t))" using node_sort.addPaths_wf [OF assms(1) F(5)] .
    then have "muxCore (m2\<lparr>trees := (trees m2)[i := Some (fst (addPaths rx srt w ps t))]\<rparr>)"
      using core_update [OF F(1)] F(6) by simp
    with inv2 show ?thesis by (auto simp: muxInv_def intro!: hasTree_update)
  qed
  show ?thesis
  proof (cases "GetOptionalPaths path")
    case (Inl p)
    with H g inv2 show ?thesis by simp
  next
    case (Inr ops)
    obtain t' out where a: "addPaths rx srt (path, Chain m2 g) (if ops = [] then [path] else ops) t = (t', out)" by force
    with upd [of "(path, Chain m2 g)" "if ops = [] then [path] else ops"]
    have "muxInv (m2\<lparr>trees := (trees m2)[i := Some t']\<rparr>)" by simp
    moreover have "fst (Handle rx srt meth path (Some g) m) = m2\<lparr>trees := (trees m2)[i := Some t']\<rparr>"
      unfolding H Inr sum.case a Let_def prod.case fst_conv by (rule refl)
    ultimately show ?thesis using g by simp
  qed
qed

end
