(* ===== verification/Mux_Allowed.thy ===== *)
theory Mux_Allowed
  imports Mux_Inv Radix_Safe
begin

text \<open>
  Every router that the operations can build keeps \<open>muxInv\<close>, and what \<open>Allowed\<close> computes: the in-place
  insertion sort is \<^const>\<open>sort\<close>, so the header does not depend on the order in which the map of
  registered paths is walked.
\<close>

section \<open>Reachable routers\<close>

inductive muxReach ::
  "regexp \<Rightarrow> ('r routeHandler node list \<Rightarrow> 'r routeHandler node list) \<Rightarrow> 'r respOps \<Rightarrow> 'r mux \<Rightarrow> bool"
  for rx srt ro where
  start: "muxReach rx srt ro (newMux ro)"
| handle: "muxReach rx srt ro m \<Longrightarrow> muxReach rx srt ro (fst (Handle rx srt meth path h m))"
| use: "muxReach rx srt ro m \<Longrightarrow> muxReach rx srt ro (Use mws m)"
| usePriority: "muxReach rx srt ro m \<Longrightarrow> muxReach rx srt ro (UsePriority mws m)"
| mutable: "muxReach rx srt ro m \<Longrightarrow> muxReach rx srt ro (muxMutable v m)"
| options: "muxReach rx srt ro m \<Longrightarrow> muxReach rx srt ro (m\<lparr>m_RouterOptions := opts\<rparr>)"
| basePath: "muxReach rx srt ro m \<Longrightarrow> muxReach rx srt ro (fst (BasePath m))"

lemma inv_cong:
  assumes "muxInv m" "trees m' = trees m" "customMethodsIndex m' = customMethodsIndex m"
    "registeredPaths m' = registeredPaths m" "treeMutable m' = treeMutable m"
  shows "muxInv m'"
  using assms MethodIndexOf_cong [OF assms(3)] by (simp add: muxInv_def muxCore_def hasTree_def)

lemma inv_Mutable: "muxInv m \<Longrightarrow> muxInv (muxMutable v m)"
proof -
  assume m: "muxInv m"
  have ix: "MethodIndexOf (muxMutable v m) x = MethodIndexOf m x" for x
    by (simp add: MethodIndexOf_def muxMutable_def)
  have nth: "i < length (trees m) \<Longrightarrow> trees m ! i = Some t \<Longrightarrow> trees (muxMutable v m) ! i = Some (setTreeMutable v t)" for i t
    by (simp add: muxMutable_def)
  have "hasTree m x \<Longrightarrow> hasTree (muxMutable v m) x" for x
    unfolding hasTree_def ix using nth by (auto simp: muxMutable_def)
  moreover have "muxCore (muxMutable v m)"
  proof -
    have "\<exists>s. Some s \<in> set (trees m) \<and> t = setTreeMutable v s" if "Some t \<in> set (trees (muxMutable v m))" for t
    proof -
      from that obtain x where x: "x \<in> set (trees m)" "Some t = map_option (setTreeMutable v) x"
        by (auto simp: muxMutable_def)
      from x(2) obtain s where "x = Some s" "t = setTreeMutable v s" by (cases x) simp_all
      with x(1) show ?thesis by blast
    qed
    then have "wfTree t \<and> Mutable t = v" if "Some t \<in> set (trees (muxMutable v m))" for t
      using m that unfolding muxInv_def muxCore_def by (force simp: setTreeMutable_def wfTree_def)
    moreover have "treeMutable (muxMutable v m) = v" by (simp add: muxMutable_def)
    moreover have "11 \<le> length (trees (muxMutable v m)) \<and>
      (\<forall>meth i. customMethodsIndex (muxMutable v m) meth = Some i \<longrightarrow>
        11 \<le> i \<and> i < length (trees (muxMutable v m)) \<and> trees (muxMutable v m) ! i \<noteq> None) \<and>
      (\<forall>a b i. customMethodsIndex (muxMutable v m) a = Some i \<longrightarrow> customMethodsIndex (muxMutable v m) b = Some i \<longrightarrow> a = b)"
      using m unfolding muxInv_def muxCore_def by (simp add: muxMutable_def)
    ultimately show ?thesis unfolding muxCore_def by blast
  qed
  ultimately show ?thesis using m by (simp add: muxInv_def) (simp add: muxMutable_def)
qed

lemma muxReach_inv:
  assumes "node_sort srt" "muxReach rx srt ro m"
  shows "muxInv m"
  using assms(2)
proof (induction rule: muxReach.induct)
  case (handle m meth path h)
  then show ?case using Handle_inv [OF assms(1)] by blast
next
  case (mutable m v)
  then show ?case using inv_Mutable by blast
qed (auto intro: inv_New elim!: inv_cong simp: Use_def UsePriority_def BasePath_def)

section \<open>The sort\<close>

lemma sinkLeft_spec:
  "sorted ys \<Longrightarrow> \<exists>us. sinkLeft (ys @ a # zs) (length ys) = us @ zs \<and> sorted us \<and> mset us = add_mset a (mset ys)"
proof (induction ys arbitrary: zs rule: rev_induct)
  case Nil
  show ?case by (rule exI [of _ "[a]"]) simp
next
  case (snoc b ys)
  have b: "(ys @ b # a # zs) ! Suc (length ys) = a" "(ys @ b # a # zs) ! length ys = b"
    by (simp_all add: nth_append)
  have swap: "(ys @ b # a # zs)[Suc (length ys) := b, length ys := a] = ys @ a # b # zs"
    by (simp add: list_update_append)
  show ?case
  proof (cases "a < b")
    case True
    obtain us where us: "sinkLeft (ys @ a # b # zs) (length ys) = us @ b # zs" "sorted us" "mset us = add_mset a (mset ys)"
      using snoc.IH [of "b # zs"] snoc.prems by (auto simp: sorted_append)
    have "set us = insert a (set ys)" using us(3) by (metis set_mset_mset set_mset_add_mset_insert)
    then have "sorted (us @ [b])" using us(2) snoc.prems True by (auto simp: sorted_append)
    with us(1,3) True b swap show ?thesis
      by (intro exI [of _ "us @ [b]"]) simp
  next
    case False
    then have "sorted (ys @ [b, a])" using snoc.prems by (force simp: sorted_append)
    with False b show ?thesis by (intro exI [of _ "ys @ [b, a]"]) simp
  qed
qed

lemma sortFrom_spec:
  "sorted ys \<Longrightarrow> length zs = k \<Longrightarrow> sorted (sortFrom k (ys @ zs) (length ys)) \<and>
     mset (sortFrom k (ys @ zs) (length ys)) = mset ys + mset zs"
proof (induction k arbitrary: ys zs)
  case (Suc k)
  then obtain a as where zs: "zs = a # as" by (cases zs) auto
  obtain us where us: "sinkLeft (ys @ a # as) (length ys) = us @ as" "sorted us" "mset us = add_mset a (mset ys)"
    using sinkLeft_spec [OF Suc.prems(1)] by blast
  have "length us = length ys + 1" using us(3) by (metis size_mset size_add_mset Suc_eq_plus1)
  with Suc.IH [OF us(2), of as] Suc.prems zs us show ?case by simp
qed simp

lemma sortAllowed_sort: "sortAllowed xs = sort xs"
proof (cases xs)
  case (Cons x ys)
  have "sorted (sortAllowed xs)" "mset (sortAllowed xs) = mset xs"
    using sortFrom_spec [of "[x]" ys "length ys"] by (simp_all add: sortAllowed_def Cons)
  then show ?thesis by (metis properties_for_sort)
qed (simp add: sortAllowed_def)

lemma allowHeader_set:
  assumes "distinct xs" "MethodOptions \<notin> set xs"
  shows "allowHeader xs = (if set xs = {} then [] else Join (sorted_list_of_set (insert MethodOptions (set xs))) '', '')"
proof (cases "xs = []")
  case False
  have "sort (xs @ [MethodOptions]) = sorted_list_of_set (set (xs @ [MethodOptions]))"
    using assms by (subst sorted_list_of_set_sort_remdups) (simp add: distinct_remdups_id)
  with False show ?thesis by (simp add: allowHeader_def sortAllowed_sort)
qed (simp add: allowHeader_def)

section \<open>Allowed\<close>

definition plainTrees :: "'r mux \<Rightarrow> bool" where
  "plainTrees m \<longleftrightarrow> (\<forall>x \<in> set (trees m). case x of None \<Rightarrow> True | Some t \<Rightarrow> noRegex (root t))"

text \<open>The router as a table from methods and paths to wrapped handlers.\<close>

definition methodTable :: "regexp \<Rightarrow> 'r mux \<Rightarrow> bytes \<Rightarrow> bytes \<Rightarrow> 'r routeHandler option" where
  "methodTable rx m meth path =
     (case MethodIndexOf m meth of
        None \<Rightarrow> None
      | Some i \<Rightarrow> (case trees m ! i of None \<Rightarrow> None | Some t \<Rightarrow> getHandler rx t path))"

definition routed :: "regexp \<Rightarrow> 'r mux \<Rightarrow> bytes \<Rightarrow> bytes \<Rightarrow> bool" where
  "routed rx m meth path \<longleftrightarrow> methodTable rx m meth path \<noteq> None"

lemma tree_facts:
  assumes "muxCore m" "i < length (trees m)" "trees m ! i = Some t"
  shows "wfTree t" "plainTrees m \<Longrightarrow> noRegex (root t)"
  using assms nth_mem [OF assms(2)] by (force simp: muxCore_def plainTrees_def)+

lemma pathMethods_filter:
  assumes "muxCore m" "plainTrees m" "\<forall>x \<in> set ms. hasTree m x"
  shows "pathMethods rx m path reqMethod ms =
    Inr (filter (\<lambda>x. x \<noteq> reqMethod \<and> x \<noteq> MethodOptions \<and> routed rx m x path) ms)"
  using assms(3)
proof (induction ms)
  case (Cons x ms)
  show ?case
  proof (cases "x = reqMethod \<or> x = MethodOptions")
    case False
    from Cons.prems obtain i t where t: "MethodIndexOf m x = Some i" "i < length (trees m)" "trees m ! i = Some t"
      by (auto simp: hasTree_def)
    obtain ho tsr u where g: "Get rx t path None = Got ho tsr u"
      using Get_total [of t rx path None] tree_facts [OF assms(1) t(2,3)] assms(2) by blast
    then have "routed rx m x path \<longleftrightarrow> ho \<noteq> None" using t by (simp add: routed_def methodTable_def getHandler_def)
    with Cons t g False show ?thesis by simp
  qed (use Cons in auto)
qed simp

lemma Allowed_set:
  assumes "muxInv m" "plainTrees m" "path \<noteq> ''*''" "path \<noteq> ''/*''"
  shows "Allowed rx m path reqMethod =
    (let ms = {x \<in> fst ` set (registeredPaths m). x \<noteq> reqMethod \<and> x \<noteq> MethodOptions \<and> routed rx m x path} in
     Inr (if ms = {} then [] else Join (sorted_list_of_set (insert MethodOptions ms)) '', ''))"
proof -
  define P where "P x \<longleftrightarrow> x \<noteq> reqMethod \<and> x \<noteq> MethodOptions \<and> routed rx m x path" for x
  define xs where "xs = filter P (map fst (registeredPaths m))"
  have "pathMethods rx m path reqMethod (map fst (registeredPaths m)) = Inr xs"
    using assms(1,2) unfolding xs_def P_def by (intro pathMethods_filter) (auto simp: muxInv_def)
  then have "Allowed rx m path reqMethod = Inr (allowHeader xs)" using assms(3,4) by (simp add: Allowed_def)
  moreover have "distinct xs" "MethodOptions \<notin> set xs" using assms(1) by (auto simp: xs_def P_def muxInv_def)
  moreover have "{x \<in> fst ` set (registeredPaths m). x \<noteq> reqMethod \<and> x \<noteq> MethodOptions \<and> routed rx m x path} = set xs"
    by (auto simp: xs_def P_def)
  moreover note allowHeader_set [of xs]
  ultimately show ?thesis unfolding Let_def by simp
qed

section \<open>Properties\<close>

text \<open>
  C18 Every router that the operations build, in any order and whatever they are given, keeps its
  invariant: each registered method names a slot with a tree, no two methods share a slot, and every
  tree is well-formed and has the mutability of the router. This also holds after a registration that
  panicked.
\<close>

theorem mux_reachable_inv:
  assumes "node_sort srt" "muxReach rx srt ro m"
  shows "muxInv m \<and> (\<forall>a b i. MethodIndexOf m a = Some i \<longrightarrow> MethodIndexOf m b = Some i \<longrightarrow> a = b)"
  using muxReach_inv [OF assms] index_inj unfolding muxInv_def by metis

theorem mux_reachable_inv_witness:
  "muxInv (fst (Handle noMatch insertionSort ''PURGE'' ''/cache'' (Some (\<lambda>c. (c, None))) (newMux assocOps)))"
  using mux_reachable_inv [OF insertion.node_sort_axioms muxReach.handle [OF muxReach.start]] by blast

text \<open>
  C19 The \<open>Allow\<close> header of a path lists, in byte order and separated by commas, exactly the methods
  other than the requested one that have a handler for the path, together with \<open>OPTIONS\<close>; it is empty
  when there are none. It does not depend on the order of the map, and computing it never panics.
\<close>

theorem allowed_methods:
  assumes "muxInv m" "plainTrees m" "path \<noteq> ''*''" "path \<noteq> ''/*''"
  shows "Allowed rx m path reqMethod =
    (let ms = {x \<in> fst ` set (registeredPaths m). x \<noteq> reqMethod \<and> x \<noteq> MethodOptions \<and> routed rx m x path} in
     Inr (if ms = {} then [] else Join (sorted_list_of_set (insert MethodOptions ms)) '', ''))"
  using Allowed_set [OF assms] .

definition demoMux :: "assocResp mux" where
  "demoMux = fst (Handle noMatch insertionSort ''POST'' ''/users'' (Some (\<lambda>c. (respText assocOps ''made'' c, None)))
     (fst (Handle noMatch insertionSort ''GET'' ''/users'' (Some (\<lambda>c. (respText assocOps ''list'' c, None))) (newMux assocOps))))"

lemma demoMux_inv: "muxInv demoMux"
  unfolding demoMux_def by (intro Handle_inv insertion.node_sort_axioms inv_New)

lemma demoMux_plain: "plainTrees demoMux"
  by code_simp

theorem allowed_methods_witness:
  "Allowed noMatch demoMux ''/users'' ''PUT'' = Inr ''GET, OPTIONS, POST''"
proof -
  have "(let ms = {x \<in> fst ` set (registeredPaths demoMux). x \<noteq> ''PUT'' \<and> x \<noteq> MethodOptions \<and> routed noMatch demoMux x ''/users''} in
     if ms = {} then [] else Join (sorted_list_of_set (insert MethodOptions ms)) '', '') = ''GET, OPTIONS, POST''"
    by code_simp
  with allowed_methods [OF demoMux_inv demoMux_plain, of "''/users''" noMatch "''PUT''"] show ?thesis
    by (simp add: Let_def)
qed

end
