(* ===== verification/Mux_Serve.thy ===== *)
theory Mux_Serve
  imports Mux_Allowed
begin

text \<open>
  Serving a request: \<open>rejectInvalidQuery\<close>, \<open>InternalRedirect\<close>, \<open>TryRedirect\<close> and \<open>Handler\<close> of
  \<open>src/mux.go\<close>. \<open>tryTree\<close> is the block that \<open>Handler\<close> runs for the tree of the method and again for the
  tree of the wild method; \<open>fallback\<close> is the rest. A request ends as served, with a panic of the router
  itself, or with a panic that escaped \<open>Recv\<close> (out of a custom error handler).
\<close>

datatype serveOut = Served | RouterPanic panic | HandlerPanic panicVal

definition served :: "'r reqCtx \<times> panicVal option \<Rightarrow> 'r reqCtx \<times> serveOut" where
  "served res = (case res of (ctx, None) \<Rightarrow> (ctx, Served) | (ctx, Some p) \<Rightarrow> (ctx, HandlerPanic p))"

text \<open>Running a wrapped handler; the router of the wrapper is read when it runs.\<close>

definition runRoute :: "'r srvEnv \<Rightarrow> 'r mux \<Rightarrow> bytes \<Rightarrow> 'r RequestHandler \<Rightarrow> 'r reqCtx \<Rightarrow> 'r reqCtx \<times> serveOut" where
  "runRoute ev m path h ctx = served (WrapHandler ev (m_RouterOptions m) path h ctx)"

section \<open>Rejected and redirected requests\<close>

definition queryReject :: "'r srvEnv \<Rightarrow> 'r mux \<Rightarrow> 'r RequestHandler" where
  "queryReject ev m c = ctxError ev (m_RouterOptions m)
     (Some (reqGoErr (\<lambda>_. []) (BadRequestError ''QUERY request content requires a media type'' None))) c"

definition rejectInvalidQuery :: "'r srvEnv \<Rightarrow> 'r mux \<Rightarrow> 'r reqCtx \<Rightarrow> ('r reqCtx \<times> serveOut) option" where
  "rejectInvalidQuery ev m ctx =
     (if length (rq_Body (fc_Request ctx)) = 0 \<or> length (rq_ContentType (fc_Request ctx)) > 0 then None
      else Some (runRoute ev m [] (Chain m (queryReject ev m)) ctx))"

definition redirectHandler :: "'r srvEnv \<Rightarrow> bytes \<Rightarrow> int \<Rightarrow> 'r RequestHandler" where
  "redirectHandler ev uri code c = (onResponse (r_Redirect (e_ro ev) uri code) c, None)"

definition InternalRedirect ::
  "'r srvEnv \<Rightarrow> 'r mux \<Rightarrow> bytes \<Rightarrow> bytes \<Rightarrow> int \<Rightarrow> 'r reqCtx \<Rightarrow> 'r reqCtx \<times> serveOut" where
  "InternalRedirect ev m path uri code ctx = runRoute ev m path (Chain m (redirectHandler ev uri code)) ctx"

definition redirectCode :: "bytes \<Rightarrow> int" where
  "redirectCode method = (if method \<noteq> MethodGet then 308 else 301)"

definition slashFix :: "bytes \<Rightarrow> bytes" where
  "slashFix path =
     (if length path > 1 \<and> path ! (length path - 1) = slash then take (length path - 1) path else path @ [slash])"

definition withQuery :: "'r reqCtx \<Rightarrow> bytes \<Rightarrow> bytes" where
  "withQuery ctx uri =
     (let q = rq_QueryString (fc_Request ctx) in if length q > 0 then uri @ [qmark] @ q else uri)"

text \<open>\<open>None\<close> is the result false; the router panics when the search does.\<close>

definition TryRedirect ::
  "'r srvEnv \<Rightarrow> 'r mux \<Rightarrow> 'r reqCtx \<Rightarrow> 'r routeHandler Tree \<Rightarrow> bool \<Rightarrow> bytes \<Rightarrow> bytes \<Rightarrow> ('r reqCtx \<times> serveOut) option"
where
  "TryRedirect ev m ctx tree tsr method path =
     (let code = redirectCode method; opts = m_RouterOptions m in
      if tsr \<and> RedirectTrailingSlash opts
      then Some (InternalRedirect ev m path (withQuery ctx (slashFix path)) code ctx)
      else if RedirectFixedPath opts then
        (let path = rq_Path (fc_Request ctx) in
         case FindCaseInsensitivePath (e_rx ev) (e_uf ev) tree (CleanPath path) (RedirectTrailingSlash opts) [] of
           Inl p \<Rightarrow> Some (ctx, RouterPanic p)
         | Inr (found, uri) \<Rightarrow>
             if found then Some (InternalRedirect ev m path (withQuery ctx uri) code ctx) else None)
      else None)"

section \<open>Handler\<close>

definition stripBasePath :: "(rune \<Rightarrow> rune \<Rightarrow> bool) \<Rightarrow> bytes \<Rightarrow> bytes \<Rightarrow> bytes" where
  "stripBasePath uf basePath path =
     (let l = min (length basePath) (length path) in
      if l > 0 \<and> EqualFold uf basePath (take l path)
      then (let path = drop l path in if length path = 0 \<or> path ! 0 \<noteq> slash then slash # path else path)
      else path)"

text \<open>The values that a lookup binds are strings in the user values of the request.\<close>

definition bindParams :: "uvals option \<Rightarrow> 'r reqCtx \<Rightarrow> 'r reqCtx" where
  "bindParams u ctx =
     (case u of None \<Rightarrow> ctx
      | Some vs \<Rightarrow> ctx\<lparr>fc_UserValues := fc_UserValues ctx ++ (\<lambda>k. map_option UString (vs k))\<rparr>)"

definition tryTree ::
  "'r srvEnv \<Rightarrow> 'r mux \<Rightarrow> 'r routeHandler Tree \<Rightarrow> bytes \<Rightarrow> bytes \<Rightarrow> 'r reqCtx \<Rightarrow> 'r reqCtx \<times> serveOut option" where
  "tryTree ev m tree method path ctx =
     (case Get (e_rx ev) tree path (Some Map.empty) of
        GetPanic p \<Rightarrow> (ctx, Some (RouterPanic p))
      | Got (Some (rpath, handler)) tsr u \<Rightarrow>
          (let ctx = bindParams u ctx in
           case (if method = MethodQuery then rejectInvalidQuery ev m ctx else None) of
             Some (ctx, out) \<Rightarrow> (ctx, Some out)
           | None \<Rightarrow> (let (ctx, out) = runRoute ev m rpath handler ctx in (ctx, Some out)))
      | Got None tsr u \<Rightarrow>
          (let ctx = bindParams u ctx in
           case (if method \<noteq> MethodConnect \<and> path \<noteq> [slash] then TryRedirect ev m ctx tree tsr method path else None) of
             Some (ctx, out) \<Rightarrow> (ctx, Some out)
           | None \<Rightarrow> (ctx, None)))"

definition setAllow :: "'r srvEnv \<Rightarrow> bytes \<Rightarrow> 'r reqCtx \<Rightarrow> 'r reqCtx" where
  "setAllow ev allow ctx = ctx\<lparr>fc_Response := r_SetHeader (e_ro ev) ''Allow'' allow (fc_Response ctx)\<rparr>"

definition defaultNotAllowed :: "'r srvEnv \<Rightarrow> 'r RequestHandler" where
  "defaultNotAllowed ev c = (respText (e_ro ev) (e_StatusMessage ev 405) (setStatusCode (e_ro ev) 405 c), None)"

definition fallback :: "'r srvEnv \<Rightarrow> 'r mux \<Rightarrow> bytes \<Rightarrow> bytes \<Rightarrow> 'r reqCtx \<Rightarrow> 'r reqCtx \<times> serveOut" where
  "fallback ev m method path ctx =
     (let opts = m_RouterOptions m; notFound = runRoute ev m [] (Chain m (HandleNotFound ev opts)) ctx in
      if HandleOPTIONS opts \<and> method = MethodOptions then
        (case Allowed (e_rx ev) m path MethodOptions of
           Inl p \<Rightarrow> (ctx, RouterPanic p)
         | Inr allow \<Rightarrow>
             if allow \<noteq> [] then
               (let ctx = setAllow ev allow ctx in
                case GlobalOPTIONS opts of Some g \<Rightarrow> runRoute ev m [] (Chain m g) ctx | None \<Rightarrow> (ctx, Served))
             else notFound)
      else if HandleMethodNotAllowed opts then
        (case Allowed (e_rx ev) m path method of
           Inl p \<Rightarrow> (ctx, RouterPanic p)
         | Inr allow \<Rightarrow>
             if allow \<noteq> [] then
               (let ctx = setAllow ev allow ctx in
                case MethodNotAllowed opts of
                  Some h \<Rightarrow> runRoute ev m [] (Chain m h) ctx
                | None \<Rightarrow> runRoute ev m [] (Chain m (defaultNotAllowed ev)) ctx)
             else notFound)
      else notFound)"

definition tryMethod ::
  "'r srvEnv \<Rightarrow> 'r mux \<Rightarrow> nat option \<Rightarrow> bytes \<Rightarrow> bytes \<Rightarrow> 'r reqCtx \<Rightarrow> 'r reqCtx \<times> serveOut option" where
  "tryMethod ev m ix method path ctx =
     (case ix of
        None \<Rightarrow> (ctx, None)
      | Some i \<Rightarrow> (case trees m ! i of None \<Rightarrow> (ctx, None) | Some tree \<Rightarrow> tryTree ev m tree method path ctx))"

definition dispatch :: "'r srvEnv \<Rightarrow> 'r mux \<Rightarrow> bytes \<Rightarrow> bytes \<Rightarrow> 'r reqCtx \<Rightarrow> 'r reqCtx \<times> serveOut" where
  "dispatch ev m method path ctx =
     (case tryMethod ev m (MethodIndexOf m method) method path ctx of
        (ctx, Some out) \<Rightarrow> (ctx, out)
      | (ctx, None) \<Rightarrow>
          (case tryMethod ev m (MethodIndexOf m MethodWild) method path ctx of
             (ctx, Some out) \<Rightarrow> (ctx, out)
           | (ctx, None) \<Rightarrow> fallback ev m method path ctx))"

definition Handler :: "'r srvEnv \<Rightarrow> 'r mux \<Rightarrow> 'r reqCtx \<Rightarrow> 'r mux \<times> 'r reqCtx \<times> serveOut" where
  "Handler ev m ctx =
     (let path = rq_PathOriginal (fc_Request ctx);
          (m, basePath) = BasePath m;
          path = stripBasePath (e_uf ev) basePath path
      in (m, dispatch ev m (rq_Method (fc_Request ctx)) path ctx))"

text \<open>What an instrumenter learns of an operation: the path of a request, if it is one.\<close>

definition InstrRequest :: "bytes \<Rightarrow> uvalue list \<Rightarrow> bytes \<times> bool" where
  "InstrRequest op args =
     (if op \<noteq> ''http-request'' \<or> length args \<noteq> 1 then ([], False)
      else case args ! 0 of UString path \<Rightarrow> (path, True) | _ \<Rightarrow> ([], False))"

end
