(* ===== verification/Mux_Routes.thy ===== *)
theory Mux_Routes
  imports Mux_Serve
begin

text \<open>
  What registration and serving mean together. On static routes the router is a table from methods and
  paths to handlers (\<open>methodTable\<close>): \<open>Handle\<close> adds one entry or refuses a duplicate, and a request with an
  entry runs its handler. Redirects lead to entries, other methods give 405, and no request makes a
  router without regular expressions panic.
\<close>

section \<open>Base path\<close>

lemma BasePath_eq:
  "BasePath m = (let m' = (if originalBasePath m = None
      then m\<lparr>originalBasePath := Some OptionsBasePath, fixedBasePath := fixBasePath (ro_BasePath (m_RouterOptions m))\<rparr>
      else m) in (m', fixedBasePath m'))"
  by (auto simp: BasePath_def derefBasePath_def Let_def split: option.splits basePathPtr.splits)

lemma BasePath_sel [simp]:
  "trees (fst (BasePath m)) = trees m" "m_RouterOptions (fst (BasePath m)) = m_RouterOptions m"
  "registeredPaths (fst (BasePath m)) = registeredPaths m" "customMethodsIndex (fst (BasePath m)) = customMethodsIndex m"
  "treeMutable (fst (BasePath m)) = treeMutable m" "middlewares (fst (BasePath m)) = middlewares m"
  "priorityMiddlewares (fst (BasePath m)) = priorityMiddlewares m" "globalAllowed (fst (BasePath m)) = globalAllowed m"
  by (simp_all add: BasePath_eq Let_def)

lemma fixBasePath_slash: "fixBasePath p = [] \<or> hd (fixBasePath p) = slash"
proof (cases p)
  case (Cons c cs)
  then show ?thesis
    by (cases cs) (auto simp: fixBasePath_def Let_def hd_append nth_append take_Cons' split: if_splits)
qed (simp add: fixBasePath_def)

section \<open>Running a handler\<close>

lemma runRoute_served:
  assumes "ErrorHandler (m_RouterOptions m) = None"
  shows "snd (runRoute ev m path h ctx) = Served"
proof -
  obtain c p where "h (acquireCtx path ctx) = (c, p)" by force
  with assms show ?thesis
    by (cases p) (simp_all add: runRoute_def served_def WrapHandler_def Recv_def HandleError_def Let_def)
qed

lemma runRoute_ok:
  "h (acquireCtx path ctx) = (c, None) \<Longrightarrow> runRoute ev m path h ctx = (c_context c, Served)"
  by (simp add: runRoute_def served_def WrapHandler_def Recv_def)

lemma bindParams_empty [simp]: "bindParams (Some Map.empty) ctx = ctx" "bindParams None ctx = ctx"
  by (simp_all add: bindParams_def)

section \<open>Registration on static routes\<close>

definition staticMux :: "'r mux \<Rightarrow> bool" where
  "staticMux m \<longleftrightarrow> muxInv m \<and> \<not> treeMutable m \<and>
     (\<forall>x \<in> set (trees m). case x of None \<Rightarrow> True | Some t \<Rightarrow> staticTree t)"

lemma handleSteps_trees:
  assumes "handleSteps rx srt meth path h m m2 i t"
  shows "set (trees m2) \<subseteq> insert (Some t) (set (trees m))"
proof -
  let ?m = "m\<lparr>registeredPaths := addPath meth path (registeredPaths m)\<rparr>"
  obtain m1 where a: "customTree meth ?m = (m1, i)" and b: "methodTree rx i m1 = (m2, t)"
    using assms by (auto simp: handleSteps_def)
  show ?thesis
  proof (cases "MethodIndexOf m meth")
    case (Some k)
    with a have "m1 = ?m" by (simp add: customTree_def)
    with b show ?thesis using set_update_subset_insert [of "trees m" i "Some t"]
      by (auto simp: methodTree_def Let_def split: option.splits)
  next
    case None
    with a b show ?thesis by (auto simp: customTree_def methodTree_def Let_def)
  qed
qed

lemma static_New: "staticTree ((New :: 'h Tree)\<lparr>Mutable := v\<rparr>)"
  using staticTree_New by (simp add: staticTree_def)

lemma getHandler_New: "getHandler rx ((New :: 'h Tree)\<lparr>Mutable := v\<rparr>) q = None"
  unfolding getHandler_None [OF static_New] by (simp add: routePaths_def treeRoutes_def)

lemma static_slot:
  assumes "staticMux m" "handleSteps rx srt meth path h m m2 i t"
  shows "staticTree t" "methodTable rx' m meth q = getHandler rx' t q" "\<not> Mutable t"
proof -
  have c: "muxCore m" using assms(1) by (simp add: staticMux_def muxInv_def)
  note F = handleSteps_facts [OF c assms(2)]
  have "staticTree t \<and> methodTable rx' m meth q = getHandler rx' t q"
  proof (cases "hasTree m meth")
    case True
    then obtain k s where k: "MethodIndexOf m meth = Some k" "k < length (trees m)" "trees m ! k = Some s"
      by (auto simp: hasTree_def)
    from F(17) [OF k(1,3)] have "t = s" by simp
    moreover from assms(1) nth_mem [OF k(2)] k(3) have "staticTree s" by (force simp: staticMux_def)
    ultimately show ?thesis using k by (simp add: methodTable_def)
  next
    case False
    with F(16) have t: "t = New\<lparr>Mutable := treeMutable m\<rparr>" by simp
    have "methodTable rx' m meth q = None"
      using False index_bound [OF c] by (auto simp: methodTable_def hasTree_def split: option.splits)
    with t show ?thesis using static_New getHandler_New by metis
  qed
  then show "staticTree t" "methodTable rx' m meth q = getHandler rx' t q" by simp_all
  show "\<not> Mutable t" using F(6,7) assms(1) by (simp add: staticMux_def)
qed

lemma table_update:
  assumes "muxCore m" "handleSteps rx srt meth path h m m2 i t"
  shows "methodTable rx' (m2\<lparr>trees := (trees m2)[i := Some t']\<rparr>) k q =
    (if k = meth then getHandler rx' t' q else methodTable rx' m k q)"
proof -
  note F = handleSteps_facts [OF assms]
  show ?thesis
  proof (cases "k = meth")
    case True
    with F(2,3) show ?thesis by (simp add: methodTable_def)
  next
    case False
    have ix: "MethodIndexOf m2 k = MethodIndexOf m k" using F(13) [OF False] .
    show ?thesis
    proof (cases "MethodIndexOf m k")
      case None
      with False ix show ?thesis by (simp add: methodTable_def)
    next
      case (Some j)
      have "j \<noteq> i" using index_inj [OF F(1)] Some ix F(2) False by metis
      moreover have "j < length (trees m)" using index_bound [OF assms(1) Some] .
      ultimately show ?thesis using False Some ix F(14) [of j] by (simp add: methodTable_def)
    qed
  qed
qed

lemma no_optional: "lbrace \<notin> set p \<Longrightarrow> GetOptionalPaths p = Inr []"
  using walkPaths_skip [of p 0 "[]" "[]" "[]"] walkPaths.simps [of p "length p" "[]"]
  by (simp add: GetOptionalPaths_def)

lemma Handle_static_eq:
  assumes "meth \<noteq> []" "staticRoute p"
  obtains m2 i t where "handleSteps rx srt meth p h m m2 i t"
    "Handle rx srt meth p (Some h) m = (let (t', out) = Add rx srt p (Some (p, Chain m2 h)) t in
       (m2\<lparr>trees := (trees m2)[i := Some t']\<rparr>, case out of TreeOk \<Rightarrow> HandleOk | e \<Rightarrow> TreePanics e))"
proof -
  have p: "p \<noteq> []" "hd p = slash" "lbrace \<notin> set p" using assms(2) by (auto simp: staticRoute_def HasPrefix_slash)
  obtain m2 i t where st: "handleSteps rx srt meth p h m m2 i t"
    "Handle rx srt meth p (Some h) m = (case GetOptionalPaths p of
       Inl e \<Rightarrow> (m2, OptionalPanic e)
     | Inr ops \<Rightarrow> (let (t', out) = addPaths rx srt (p, Chain m2 h) (if ops = [] then [p] else ops) t in
         (m2\<lparr>trees := (trees m2)[i := Some t']\<rparr>, case out of TreeOk \<Rightarrow> HandleOk | e \<Rightarrow> TreePanics e)))"
    by (rule Handle_steps [OF assms(1) p(1,2), of rx srt h m])
  have "addPaths rx srt (p, Chain m2 h) [p] t = Add rx srt p (Some (p, Chain m2 h)) t"
    by (auto split: prod.splits treeOut.splits)
  with st no_optional [OF p(3)] that show thesis by simp
qed

lemma static_updated:
  assumes "node_sort srt" "staticMux m" "handleSteps rx srt meth p h m m2 i t" "staticTree t'" "\<not> Mutable t'" "wfTree t'"
  shows "staticMux (m2\<lparr>trees := (trees m2)[i := Some t']\<rparr>)"
proof -
  have c: "muxCore m" and reg: "\<forall>x \<in> fst ` set (registeredPaths m). hasTree m x" and d: "distinct (map fst (registeredPaths m))"
    using assms(2) by (auto simp: staticMux_def muxInv_def)
  note F = handleSteps_facts [OF c assms(3)]
  have "\<not> treeMutable m2" using F(7) assms(2) by (simp add: staticMux_def)
  then have "muxCore (m2\<lparr>trees := (trees m2)[i := Some t']\<rparr>)"
    using core_update [OF F(1) assms(6)] assms(5) by simp
  moreover have "hasTree m2 meth" using F(2-4) by (auto simp: hasTree_def)
  then have "\<forall>x \<in> fst ` set (registeredPaths m2). hasTree (m2\<lparr>trees := (trees m2)[i := Some t']\<rparr>) x"
    using F(8,9) reg by (auto intro!: hasTree_update)
  moreover have "distinct (map fst (registeredPaths m2))" unfolding F(8) by (rule addPath_distinct [OF d])
  ultimately have "muxInv (m2\<lparr>trees := (trees m2)[i := Some t']\<rparr>)" by (simp add: muxInv_def)
  moreover have "case x of None \<Rightarrow> True | Some s \<Rightarrow> staticTree s" if "x \<in> set ((trees m2)[i := Some t'])" for x
  proof -
    from that have "x = Some t' \<or> x \<in> set (trees m2)" using set_update_subset_insert by fastforce
    then have "x = Some t' \<or> x = Some t \<or> x \<in> set (trees m)" using handleSteps_trees [OF assms(3)] by blast
    then show ?thesis using assms(2,4) static_slot(1) [OF assms(2,3)] by (auto simp: staticMux_def)
  qed
  ultimately show ?thesis using \<open>\<not> treeMutable m2\<close> by (simp add: staticMux_def)
qed

lemma Handle_new:
  assumes "node_sort srt" "staticMux m" "meth \<noteq> []" "staticRoute p" "methodTable rx m meth p = None"
  shows "\<exists>m'. Handle rx srt meth p (Some h) m = (m', HandleOk) \<and> staticMux m' \<and>
    (\<forall>k q. methodTable rx m' k q = (if k = meth \<and> q = p then Some (p, Chain m h) else methodTable rx m k q))"
proof -
  have c: "muxCore m" using assms(2) by (simp add: staticMux_def muxInv_def)
  obtain m2 i t where st: "handleSteps rx srt meth p h m m2 i t" and
    H: "Handle rx srt meth p (Some h) m = (let (t', out) = Add rx srt p (Some (p, Chain m2 h)) t in
       (m2\<lparr>trees := (trees m2)[i := Some t']\<rparr>, case out of TreeOk \<Rightarrow> HandleOk | e \<Rightarrow> TreePanics e))"
    by (rule Handle_static_eq [OF assms(3,4), of rx srt h m])
  note F = handleSteps_facts [OF c st] and S = static_slot [OF assms(2) st]
  have "p \<notin> routePaths t" using assms(5) S(2) [of rx p] getHandler_None [OF S(1)] by metis
  with node_sort.Add_static_new [OF assms(1) S(1) assms(4), of "(p, Chain m2 h)" rx] obtain t' where
    t': "Add rx srt p (Some (p, Chain m2 h)) t = (t', TreeOk)" "staticTree t'" "Mutable t' = Mutable t"
      "treeRoutes t' = insert (p, p, Chain m2 h) {(s, x) \<in> treeRoutes t. s \<noteq> p}" by (auto simp: addedRoute_def)
  have w: "wfTree t'" using node_sort.wf_Add [OF assms(1) F(5), of rx p "Some (p, Chain m2 h)"] t'(1) by simp
  have g: "getHandler rx t' = (getHandler rx t)(p \<mapsto> (p, Chain m2 h))" using getHandler_added [OF S(1) t'(2,4)] .
  let ?m' = "m2\<lparr>trees := (trees m2)[i := Some t']\<rparr>"
  have "staticMux ?m'" using static_updated [OF assms(1,2) st t'(2) _ w] t'(3) S(3) by simp
  moreover have "methodTable rx ?m' k q = (if k = meth \<and> q = p then Some (p, Chain m h) else methodTable rx m k q)" for k q
    using table_update [OF c st, of rx t' k q] g S(2) [of rx q] F(15) by auto
  ultimately show ?thesis using H t'(1) by auto
qed

lemma Handle_dup:
  assumes "node_sort srt" "staticMux m" "meth \<noteq> []" "staticRoute p" "methodTable rx m meth p \<noteq> None"
  shows "\<exists>m'. Handle rx srt meth p (Some h) m = (m', TreePanics (TreePanicErr (ErrSetHandler p))) \<and> staticMux m' \<and>
    methodTable rx m' = methodTable rx m"
proof -
  have c: "muxCore m" using assms(2) by (simp add: staticMux_def muxInv_def)
  obtain m2 i t where st: "handleSteps rx srt meth p h m m2 i t" and
    H: "Handle rx srt meth p (Some h) m = (let (t', out) = Add rx srt p (Some (p, Chain m2 h)) t in
       (m2\<lparr>trees := (trees m2)[i := Some t']\<rparr>, case out of TreeOk \<Rightarrow> HandleOk | e \<Rightarrow> TreePanics e))"
    by (rule Handle_static_eq [OF assms(3,4), of rx srt h m])
  note F = handleSteps_facts [OF c st] and S = static_slot [OF assms(2) st]
  have "p \<in> routePaths t" using assms(5) S(2) [of rx p] getHandler_None [OF S(1)] by metis
  with node_sort.Add_static_old(1) [OF assms(1) S(1) assms(4) _ S(3)]
  have a: "Add rx srt p (Some (p, Chain m2 h)) t = (t, TreePanicErr (ErrSetHandler p))" by simp
  have "staticMux (m2\<lparr>trees := (trees m2)[i := Some t]\<rparr>)"
    using static_updated [OF assms(1,2) st S(1) S(3) F(5)] .
  moreover have "methodTable rx (m2\<lparr>trees := (trees m2)[i := Some t]\<rparr>) = methodTable rx m"
    using table_update [OF c st, of rx t] S(2) by (intro ext) simp
  ultimately show ?thesis using H a by auto
qed

end
