(* ===== verification/Mux_Props.thy ===== *)
theory Mux_Props
  imports Mux_Routes
begin

text \<open>The properties of the router as a whole.\<close>

section \<open>Lookups while serving\<close>

lemma static_tree_at:
  assumes "staticMux m" "MethodIndexOf m meth = Some i"
  shows "i < length (trees m)" "trees m ! i = Some t \<Longrightarrow> staticTree t"
proof -
  have c: "muxCore m" using assms(1) by (simp add: staticMux_def muxInv_def)
  show l: "i < length (trees m)" using index_bound [OF c assms(2)] .
  show "staticTree t" if "trees m ! i = Some t"
    using nth_mem [OF l] that assms(1) by (force simp: staticMux_def)
qed

lemma static_lookup:
  assumes "staticTree t"
  obtains tsr where "Get rx t path ctx = Got (getHandler rx t path) tsr ctx"
    "tsr \<longrightarrow> getHandler rx t path = None \<and> (\<exists>q. getHandler rx t q \<noteq> None \<and> path = q @ [slash])"
proof -
  obtain ho tsr where g: "Get rx t path ctx = Got ho tsr ctx" "\<forall>h. ho = Some h \<longleftrightarrow> (path, h) \<in> treeRoutes t"
    "ho \<noteq> None \<longrightarrow> \<not> tsr" "tsr \<longrightarrow> (\<exists>q \<in> routePaths t. path = q @ [slash])"
    using static_Get [OF assms, of rx path ctx] unfolding getOk_def by blast
  have "ho = getHandler rx t path"
    using g(2) getHandler_iff [OF assms, of rx path] by (metis not_None_eq)
  with g getHandler_None [OF assms, of rx] that show thesis by metis
qed

lemma tryTree_hit:
  assumes "staticTree t" "getHandler (e_rx ev) t path = Some (rp, h)" "meth \<noteq> MethodQuery"
  shows "tryTree ev m t meth path ctx = (let (c, out) = runRoute ev m rp h ctx in (c, Some out))"
proof -
  obtain tsr where "Get (e_rx ev) t path (Some Map.empty) = Got (getHandler (e_rx ev) t path) tsr (Some Map.empty)"
    using static_lookup [OF assms(1)] by metis
  with assms(2,3) show ?thesis by (simp add: tryTree_def)
qed

lemma dispatch_hit:
  assumes "staticMux m" "methodTable (e_rx ev) m meth path = Some (rp, h)" "meth \<noteq> MethodQuery"
  shows "dispatch ev m meth path ctx = runRoute ev m rp h ctx"
proof -
  from assms(2) obtain i t where t: "MethodIndexOf m meth = Some i" "trees m ! i = Some t" "getHandler (e_rx ev) t path = Some (rp, h)"
    by (auto simp: methodTable_def split: option.splits)
  obtain c out where r: "runRoute ev m rp h ctx = (c, out)" by force
  have "tryTree ev m t meth path ctx = (c, Some out)"
    using tryTree_hit [OF static_tree_at(2) [OF assms(1) t(1,2)] t(3) assms(3), of m ctx] r by simp
  with t(1,2) r show ?thesis by (simp add: dispatch_def tryMethod_def)
qed

lemma handleSteps_base:
  "handleSteps rx srt meth path h m m2 i t \<Longrightarrow>
   originalBasePath m2 = originalBasePath m \<and> fixedBasePath m2 = fixedBasePath m \<and> m_RouterOptions m2 = m_RouterOptions m"
  by (auto simp: handleSteps_def customTree_def methodTree_def Let_def split: option.splits)

lemma Handle_base:
  assumes "meth \<noteq> []" "staticRoute p" "Handle rx srt meth p (Some h) m = (m', out)"
  shows "snd (BasePath m') = snd (BasePath m) \<and> m_RouterOptions m' = m_RouterOptions m"
proof -
  obtain m2 i t where st: "handleSteps rx srt meth p h m m2 i t" and
    H: "Handle rx srt meth p (Some h) m = (let (t', out) = Add rx srt p (Some (p, Chain m2 h)) t in
       (m2\<lparr>trees := (trees m2)[i := Some t']\<rparr>, case out of TreeOk \<Rightarrow> HandleOk | e \<Rightarrow> TreePanics e))"
    by (rule Handle_static_eq [OF assms(1,2), of rx srt h m])
  have "\<exists>ts. m' = m2\<lparr>trees := ts\<rparr>" using H assms(3) by (auto split: prod.splits)
  with handleSteps_base [OF st] show ?thesis by (auto simp: BasePath_eq Let_def)
qed

lemma table_cong:
  "trees m' = trees m \<Longrightarrow> customMethodsIndex m' = customMethodsIndex m \<Longrightarrow> methodTable rx m' = methodTable rx m"
  using MethodIndexOf_cong [of m' m] by (intro ext) (simp add: methodTable_def split: option.split)

lemma inv_BasePath: "muxInv m \<Longrightarrow> muxInv (fst (BasePath m))"
  by (rule inv_cong [of m]) simp_all

lemma static_BasePath: "staticMux m \<Longrightarrow> staticMux (fst (BasePath m))"
  unfolding staticMux_def BasePath_sel using inv_BasePath by blast

lemma runRoute_cong: "m_RouterOptions m' = m_RouterOptions m \<Longrightarrow> runRoute ev m' = runRoute ev m"
  by (intro ext) (simp add: runRoute_def)

text \<open>What a redirect leaves of the request, without middlewares.\<close>

lemma redirect_response:
  assumes "middlewares m = []" "priorityMiddlewares m = []"
  shows "InternalRedirect ev m path uri code ctx = (ctx\<lparr>fc_Response := r_Redirect (e_ro ev) uri code (fc_Response ctx)\<rparr>, Served)"
proof -
  have "Chain m h = h" for h using assms by (simp add: Chain_def)
  moreover have "runRoute ev m path (redirectHandler ev uri code) ctx =
      (c_context (onResponse (r_Redirect (e_ro ev) uri code) (acquireCtx path ctx)), Served)"
    by (rule runRoute_ok) (simp add: redirectHandler_def)
  ultimately show ?thesis by (simp add: InternalRedirect_def acquireCtx_def onResponse_def)
qed

section \<open>No request makes the router panic\<close>

lemma redirect_served:
  assumes "ErrorHandler (m_RouterOptions m) = None" "wfTree t" "noRegex (root t)"
  shows "case TryRedirect ev m ctx t tsr meth path of None \<Rightarrow> True | Some (c, out) \<Rightarrow> out = Served"
proof -
  have r: "\<And>p h c. snd (runRoute ev m p h c) = Served" using runRoute_served [OF assms(1)] .
  obtain found uri where f: "FindCaseInsensitivePath (e_rx ev) (e_uf ev) t (CleanPath (rq_Path (fc_Request ctx)))
      (RedirectTrailingSlash (m_RouterOptions m)) [] = Inr (found, uri)"
    using FindCaseInsensitivePath_total [OF assms(2,3)] by blast
  show ?thesis using r f by (auto simp: TryRedirect_def InternalRedirect_def Let_def split: prod.splits) (metis snd_conv)+
qed

lemma tryTree_served:
  assumes "ErrorHandler (m_RouterOptions m) = None" "wfTree t" "noRegex (root t)"
  shows "snd (tryTree ev m t meth path ctx) = None \<or> snd (tryTree ev m t meth path ctx) = Some Served"
proof -
  have r: "\<And>p h c. snd (runRoute ev m p h c) = Served" using runRoute_served [OF assms(1)] .
  obtain ho tsr u where g: "Get (e_rx ev) t path (Some Map.empty) = Got ho tsr u"
    using Get_total [OF assms(2,3)] by blast
  show ?thesis
  proof (cases ho)
    case None
    with g redirect_served [OF assms, of ev "bindParams u ctx" tsr meth path] show ?thesis
      by (auto simp: tryTree_def Let_def split: option.splits)
  next
    case (Some rh)
    obtain rp h where rh: "rh = (rp, h)" by force
    have q: "rejectInvalidQuery ev m c = None \<or> (\<exists>c'. rejectInvalidQuery ev m c = Some (c', Served))" for c
      using r by (auto simp: rejectInvalidQuery_def) (metis prod.collapse)
    show ?thesis
    proof (cases "meth = MethodQuery \<and> rejectInvalidQuery ev m (bindParams u ctx) \<noteq> None")
      case True
      with q [of "bindParams u ctx"] g Some rh show ?thesis by (auto simp: tryTree_def Let_def)
    next
      case False
      then have "(if meth = MethodQuery then rejectInvalidQuery ev m (bindParams u ctx) else None) = None"
        by (cases "rejectInvalidQuery ev m (bindParams u ctx)") auto
      with g Some rh r [of rp h "bindParams u ctx"] show ?thesis
        by (cases "runRoute ev m rp h (bindParams u ctx)") (simp add: tryTree_def Let_def)
    qed
  qed
qed

lemma Allowed_total:
  assumes "muxInv m" "plainTrees m"
  shows "\<exists>s. Allowed rx m path r = Inr s"
  using pathMethods_filter [of m "map fst (registeredPaths m)" rx path r] assms
  by (auto simp: Allowed_def muxInv_def)

lemma fallback_served:
  assumes "ErrorHandler (m_RouterOptions m) = None" "muxInv m" "plainTrees m"
  shows "snd (fallback ev m meth path ctx) = Served"
proof -
  have r: "\<And>p h c. snd (runRoute ev m p h c) = Served" using runRoute_served [OF assms(1)] .
  obtain s1 s2 where "Allowed (e_rx ev) m path MethodOptions = Inr s1" "Allowed (e_rx ev) m path meth = Inr s2"
    using Allowed_total [OF assms(2,3)] by metis
  with r show ?thesis by (simp add: fallback_def Let_def split: option.splits)
qed

lemma tryMethod_served:
  assumes "ErrorHandler (m_RouterOptions m) = None" "muxInv m" "plainTrees m" "\<And>i. ix = Some i \<Longrightarrow> i < length (trees m)"
  shows "snd (tryMethod ev m ix meth path ctx) = None \<or> snd (tryMethod ev m ix meth path ctx) = Some Served"
proof (cases ix)
  case (Some i)
  show ?thesis
  proof (cases "trees m ! i")
    case (Some t)
    have c: "muxCore m" using assms(2) by (simp add: muxInv_def)
    show ?thesis using \<open>ix = Some i\<close> Some
        tryTree_served [OF assms(1) tree_facts(1) [OF c assms(4) [OF \<open>ix = Some i\<close>] Some]
          tree_facts(2) [OF c assms(4) [OF \<open>ix = Some i\<close>] Some assms(3)], of ev meth path ctx]
      by (simp add: tryMethod_def)
  qed (simp add: tryMethod_def Some)
qed (simp add: tryMethod_def)

lemma dispatch_served:
  assumes "ErrorHandler (m_RouterOptions m) = None" "muxInv m" "plainTrees m"
  shows "snd (dispatch ev m meth path ctx) = Served"
proof -
  have c: "muxCore m" using assms(2) by (simp add: muxInv_def)
  have t: "snd (tryMethod ev m (MethodIndexOf m k) meth path x) = None \<or>
      snd (tryMethod ev m (MethodIndexOf m k) meth path x) = Some Served" for k x
    using tryMethod_served [OF assms] index_bound [OF c] by blast
  obtain c1 o1 where a: "tryMethod ev m (MethodIndexOf m meth) meth path ctx = (c1, o1)" by force
  obtain c2 o2 where b: "tryMethod ev m (MethodIndexOf m MethodWild) meth path c1 = (c2, o2)" by force
  have "o1 = None \<or> o1 = Some Served" using t [of meth ctx] a by simp
  moreover have "o2 = None \<or> o2 = Some Served" using t [of MethodWild c1] b by simp
  ultimately show ?thesis using a b fallback_served [OF assms, of ev meth path c2]
    by (auto simp: dispatch_def simp del: wildSlot)
qed

section \<open>Properties\<close>

text \<open>
  C12 On static routes the router is a table. Registering a route for a method adds exactly that entry,
  with the handler wrapped by the middlewares in force at that moment, and leaves every other method
  and path alone; a route that is there already is refused with the duplicate-path error and the table
  does not change.
\<close>

theorem handle_static:
  assumes "node_sort srt" "staticMux m" "meth \<noteq> []" "staticRoute p"
  shows "case methodTable rx m meth p of
     None \<Rightarrow> (\<exists>m'. Handle rx srt meth p (Some h) m = (m', HandleOk) \<and> staticMux m' \<and>
       (\<forall>k q. methodTable rx m' k q = (if k = meth \<and> q = p then Some (p, Chain m h) else methodTable rx m k q)))
   | Some _ \<Rightarrow> (\<exists>m'. Handle rx srt meth p (Some h) m = (m', TreePanics (TreePanicErr (ErrSetHandler p))) \<and>
       staticMux m' \<and> methodTable rx m' = methodTable rx m)"
  using Handle_new [OF assms, of rx h] Handle_dup [OF assms, of rx h] by (cases "methodTable rx m meth p") simp_all

lemma newMux_table: "methodTable rx (newMux ro) k q = None"
  by (auto simp: methodTable_def newMux_def nth_Cons' MethodIndexOf_def split: option.splits)

lemma static_newMux: "staticMux (newMux ro)"
  using inv_New [of ro] by (simp add: staticMux_def) (simp add: newMux_def)

theorem handle_static_witness:
  "\<exists>m'. Handle noMatch insertionSort ''GET'' ''/users'' (Some (\<lambda>c. (c, None))) (newMux assocOps) = (m', HandleOk) \<and>
     staticMux m' \<and> methodTable noMatch m' ''GET'' ''/users'' \<noteq> None \<and> methodTable noMatch m' ''POST'' ''/users'' = None"
proof -
  have r: "staticRoute ''/users''" by (simp add: staticRoute_def HasPrefix_slash ascii_def)
  from handle_static [OF insertion.node_sort_axioms static_newMux [of assocOps] _ r, of "''GET''" noMatch "\<lambda>c. (c, None)"]
  show ?thesis by (auto simp: newMux_table)
qed

text \<open>
  C13 A registered route is served. After a static route is registered, a request for that method whose
  path without the base path is the route runs the handler, wrapped by the middlewares, in a context
  that knows the route, and nothing else.
\<close>

theorem register_then_serve:
  assumes "node_sort srt" "staticMux m" "meth \<noteq> []" "meth \<noteq> MethodQuery" "staticRoute p"
    and "methodTable (e_rx ev) m meth p = None"
    and "rq_Method (fc_Request ctx) = meth"
    and "stripBasePath (e_uf ev) (snd (BasePath m)) (rq_PathOriginal (fc_Request ctx)) = p"
  shows "\<exists>m'. Handle (e_rx ev) srt meth p (Some h) m = (m', HandleOk) \<and>
     snd (Handler ev m' ctx) = runRoute ev m p (Chain m h) ctx"
proof -
  obtain m' where H: "Handle (e_rx ev) srt meth p (Some h) m = (m', HandleOk)" and m': "staticMux m'"
    "methodTable (e_rx ev) m' meth p = Some (p, Chain m h)"
    using Handle_new [OF assms(1-3,5,6), of h] by auto
  note B = Handle_base [OF assms(3,5) H]
  have "methodTable (e_rx ev) (fst (BasePath m')) meth p = Some (p, Chain m h)"
    using m'(2) table_cong [of "fst (BasePath m')" m'] by simp
  with dispatch_hit [OF static_BasePath [OF m'(1)] _ assms(4)]
  have "dispatch ev (fst (BasePath m')) meth p ctx = runRoute ev m p (Chain m h) ctx"
    using B runRoute_cong [of "fst (BasePath m')" m ev] by simp
  with H B assms(7,8) show ?thesis by (auto simp: Handler_def Let_def split: prod.splits)
qed

theorem register_then_serve_witness:
  "\<exists>m' r. Handle noMatch insertionSort ''GET'' ''/users'' (Some (\<lambda>c. (respText assocOps ''list'' c, None))) (newMux assocOps)
       = (m', HandleOk) \<and> snd (Handler demoEnv m' demoRaw) = (r, Served) \<and> ar_body (fc_Response r) = ''list''"
proof -
  let ?h = "\<lambda>c. (respText assocOps ''list'' c, None)"
  have r: "staticRoute ''/users''" by (simp add: staticRoute_def HasPrefix_slash ascii_def)
  have n: "methodTable (e_rx demoEnv) (newMux assocOps) ''GET'' ''/users'' = None"
    by (simp add: methodTable_def newMux_def MethodIndexOf_def)
  have q: "rq_Method (fc_Request demoRaw) = ''GET''"
    "stripBasePath (e_uf demoEnv) (snd (BasePath (newMux assocOps))) (rq_PathOriginal (fc_Request demoRaw)) = ''/users''"
    by (simp_all add: demoRaw_def demoReq_def BasePath_eq newMux_def defaultRouterOptions_def fixBasePath_def stripBasePath_def Let_def)
  have rx: "e_rx demoEnv = noMatch" by (simp add: demoEnv_def)
  have c: "Chain (newMux assocOps) ?h = ?h" by (simp add: Chain_def newMux_def)
  have "runRoute demoEnv (newMux assocOps) ''/users'' ?h demoRaw = (c_context (respText assocOps ''list'' (acquireCtx ''/users'' demoRaw)), Served)"
    by (rule runRoute_ok) simp
  moreover have "ar_body (fc_Response (c_context (respText assocOps ''list'' (acquireCtx ''/users'' demoRaw)))) = ''list''"
    by (simp add: assocOps_def)
  ultimately show ?thesis
    using register_then_serve [OF insertion.node_sort_axioms static_newMux [of assocOps] _ _ r n q, of ?h] unfolding rx c by auto
qed

text \<open>
  C15 The router itself never panics on a request: with no regular expressions in the routes and no
  custom error handler, every request on a router that keeps its invariant is answered, whatever its
  method, path and headers and whether the handlers return or panic.
\<close>

theorem handler_served:
  assumes "muxInv m" "plainTrees m" "ErrorHandler (m_RouterOptions m) = None"
  shows "snd (snd (Handler ev m ctx)) = Served"
proof -
  have "ErrorHandler (m_RouterOptions (fst (BasePath m))) = None" using assms(3) by simp
  moreover have "plainTrees (fst (BasePath m))" using assms(2) by (simp add: plainTrees_def)
  ultimately have "snd (dispatch ev (fst (BasePath m)) meth path ctx) = Served" for meth path
    using dispatch_served inv_BasePath [OF assms(1)] by blast
  then show ?thesis by (cases "BasePath m") (simp add: Handler_def Let_def)
qed

theorem handler_served_witness:
  "snd (snd (Handler demoEnv demoMux (demoRaw\<lparr>fc_Request := demoReq\<lparr>rq_PathOriginal := ''//%2e/{x}''\<rparr>\<rparr>))) = Served"
proof -
  have "ErrorHandler (m_RouterOptions demoMux) = None" by code_simp
  with handler_served [OF demoMux_inv demoMux_plain] show ?thesis by blast
qed

text \<open>
  C16 A trailing-slash redirect leads somewhere. When a lookup on static routes recommends one, the path
  without its slash is a registered route of the same method, and the request is answered by a
  redirect to that route with its query string, permanent with status 301 for \<open>GET\<close> and 308 for any other method.
  Without middlewares the response is exactly what the library's \<open>RedirectBytes\<close> makes of that target and that status.
\<close>

theorem redirect_target:
  assumes "staticMux m" "MethodIndexOf m meth = Some i" "trees m ! i = Some t"
    and "Get (e_rx ev) t path (Some Map.empty) = Got None True u"
    and "meth \<noteq> MethodConnect" "path \<noteq> [slash]" "RedirectTrailingSlash (m_RouterOptions m)"
  shows "\<exists>q. path = q @ [slash] \<and> methodTable (e_rx ev) m meth q \<noteq> None \<and>
     dispatch ev m meth path ctx = InternalRedirect ev m path (withQuery ctx q) (if meth = MethodGet then 301 else 308) ctx \<and>
     (middlewares m = [] \<and> priorityMiddlewares m = [] \<longrightarrow> dispatch ev m meth path ctx =
        (ctx\<lparr>fc_Response := r_Redirect (e_ro ev) (withQuery ctx q) (if meth = MethodGet then 301 else 308) (fc_Response ctx)\<rparr>, Served))"
proof -
  have st: "staticTree t" using static_tree_at(2) [OF assms(1-3)] .
  obtain tsr where g: "Get (e_rx ev) t path (Some Map.empty) = Got (getHandler (e_rx ev) t path) tsr (Some Map.empty)"
    "tsr \<longrightarrow> getHandler (e_rx ev) t path = None \<and> (\<exists>q. getHandler (e_rx ev) t q \<noteq> None \<and> path = q @ [slash])"
    using static_lookup [OF st] by metis
  with assms(4) obtain q where q: "getHandler (e_rx ev) t q \<noteq> None" "path = q @ [slash]" and u: "u = Some Map.empty" by auto
  have ne: "q \<noteq> []" using q(2) assms(6) by auto
  then have "slashFix path = q" using q(2) by (simp add: slashFix_def nth_append)
  moreover obtain c out where r: "InternalRedirect ev m path (withQuery ctx q) (if meth = MethodGet then 301 else 308) ctx = (c, out)"
    by force
  ultimately have "TryRedirect ev m ctx t True meth path = Some (c, out)"
    using assms(7) by (auto simp: TryRedirect_def redirectCode_def Let_def)
  then have "tryTree ev m t meth path ctx = (c, Some out)"
    using assms(4-6) u by (simp add: tryTree_def)
  then have d: "dispatch ev m meth path ctx = (c, out)" using assms(2,3) by (simp add: dispatch_def tryMethod_def)
  let ?code = "if meth = MethodGet then 301 else 308"
  have e: "dispatch ev m meth path ctx = InternalRedirect ev m path (withQuery ctx q) ?code ctx" by (simp only: d r)
  have mt: "methodTable (e_rx ev) m meth q \<noteq> None" using q(1) assms(2,3) by (simp add: methodTable_def)
  have w: "middlewares m = [] \<and> priorityMiddlewares m = [] \<longrightarrow> dispatch ev m meth path ctx =
      (ctx\<lparr>fc_Response := r_Redirect (e_ro ev) (withQuery ctx q) ?code (fc_Response ctx)\<rparr>, Served)"
    unfolding e using redirect_response by blast
  show ?thesis by (intro exI [of _ q] conjI q(2) mt e w)
qed

lemma demoMux_static: "staticMux demoMux"
proof -
  have r: "staticRoute ''/users''" by (simp add: staticRoute_def HasPrefix_slash ascii_def)
  let ?g = "\<lambda>c. (respText assocOps ''list'' c, None)" and ?h = "\<lambda>c. (respText assocOps ''made'' c, None)"
  obtain m1 where m1: "Handle noMatch insertionSort ''GET'' ''/users'' (Some ?g) (newMux assocOps) = (m1, HandleOk)"
    "staticMux m1" "\<forall>k q. methodTable noMatch m1 k q = (if k = ''GET'' \<and> q = ''/users'' then Some (''/users'', Chain (newMux assocOps) ?g)
       else methodTable noMatch (newMux assocOps) k q)"
    using Handle_new [OF insertion.node_sort_axioms static_newMux [of assocOps] _ r newMux_table,
        where meth = "''GET''" and h = ?g and rx = noMatch] by auto
  then have "methodTable noMatch m1 ''POST'' ''/users'' = None" by (simp add: newMux_table)
  from Handle_new [OF insertion.node_sort_axioms m1(2) _ r this, of ?h] m1(1) show ?thesis
    by (auto simp: demoMux_def)
qed

theorem redirect_target_witness:
  "\<exists>q r. ''/users/'' = q @ [slash] \<and> methodTable noMatch demoMux ''POST'' q \<noteq> None \<and>
     dispatch demoEnv demoMux ''POST'' ''/users/'' demoRaw = (r, Served) \<and>
     ar_status (fc_Response r) = 308 \<and> assocPeek ''Location'' (fc_Response r) = withQuery demoRaw q"
proof -
  have i: "MethodIndexOf demoMux ''POST'' = Some 2" by (simp add: MethodIndexOf_def)
  have "case trees demoMux ! 2 of None \<Rightarrow> False | Some t \<Rightarrow>
      (case Get noMatch t ''/users/'' (Some Map.empty) of Got None True _ \<Rightarrow> True | _ \<Rightarrow> False)" by code_simp
  then obtain t where t: "trees demoMux ! 2 = Some t" and
    "case Get noMatch t ''/users/'' (Some Map.empty) of Got None True _ \<Rightarrow> True | _ \<Rightarrow> False"
    by (cases "trees demoMux ! 2") simp_all
  then obtain u where g: "Get (e_rx demoEnv) t ''/users/'' (Some Map.empty) = Got None True u"
    by (cases "Get noMatch t ''/users/'' (Some Map.empty)") (auto simp: demoEnv_def split: option.splits bool.splits)
  have r: "RedirectTrailingSlash (m_RouterOptions demoMux)" by code_simp
  have "case middlewares demoMux of [] \<Rightarrow> True | _ \<Rightarrow> False" "case priorityMiddlewares demoMux of [] \<Rightarrow> True | _ \<Rightarrow> False" by code_simp+
  then have mw: "middlewares demoMux = []" "priorityMiddlewares demoMux = []" by (simp_all split: list.splits)
  have k: "lowerKey ''Location'' \<noteq> ''content-type''" by code_simp
  have e: "e_rx demoEnv = noMatch" "r_Redirect (e_ro demoEnv) uri code rsp = (assocSet ''Location'' uri rsp)\<lparr>ar_status := code\<rparr>" for uri code rsp
    by (simp_all add: demoEnv_def assocOps_def)
  from redirect_target [OF demoMux_static i t g _ _ r, of demoRaw] mw obtain q where
    "''/users/'' = q @ [slash]" "methodTable noMatch demoMux ''POST'' q \<noteq> None" "dispatch demoEnv demoMux ''POST'' ''/users/'' demoRaw =
      (demoRaw\<lparr>fc_Response := (assocSet ''Location'' (withQuery demoRaw q) (fc_Response demoRaw))\<lparr>ar_status := 308\<rparr>\<rparr>, Served)"
    unfolding e by auto
  then show ?thesis by (intro exI [of _ q] exI conjI) (assumption | simp add: assocPeek_def assocSet_def k)+
qed

text \<open>
  The base path is fixed at its first use: whatever the options say afterwards, \<open>BasePath\<close> returns the
  value it computed first, because the cached pointer is to the very field it is compared with. The
  value is empty or starts with a slash.
\<close>

theorem base_path_stale:
  "snd (BasePath ((fst (BasePath m))\<lparr>m_RouterOptions := opts\<rparr>)) = snd (BasePath m) \<and>
   (originalBasePath m = None \<longrightarrow> snd (BasePath m) = fixBasePath (ro_BasePath (m_RouterOptions m)) \<and>
      (snd (BasePath m) = [] \<or> hd (snd (BasePath m)) = slash))"
  using fixBasePath_slash by (simp add: BasePath_eq Let_def)

theorem base_path_stale_witness:
  "snd (BasePath (newMux assocOps)) = [] \<and>
   snd (BasePath ((fst (BasePath (newMux assocOps)))\<lparr>m_RouterOptions := (defaultRouterOptions assocOps)\<lparr>ro_BasePath := ''/api''\<rparr>\<rparr>)) = []"
proof -
  have o: "originalBasePath (newMux assocOps) = None" "ro_BasePath (m_RouterOptions (newMux assocOps)) = []"
    by (simp_all add: newMux_def defaultRouterOptions_def)
  have "snd (BasePath (newMux assocOps)) = []"
    using base_path_stale [where m = "newMux assocOps" and opts = "defaultRouterOptions assocOps"] o by (simp add: fixBasePath_def)
  with base_path_stale [where m = "newMux assocOps" and opts = "(defaultRouterOptions assocOps)\<lparr>ro_BasePath := ''/api''\<rparr>"] show ?thesis by simp
qed

lemma tryMethod_miss:
  assumes "staticMux m" "\<not> RedirectTrailingSlash (m_RouterOptions m)" "\<not> RedirectFixedPath (m_RouterOptions m)"
    and "methodTable (e_rx ev) m k path = None"
  shows "tryMethod ev m (MethodIndexOf m k) meth path c = (c, None)"
proof (cases "MethodIndexOf m k")
  case (Some i)
  show ?thesis
  proof (cases "trees m ! i")
    case (Some t)
    note st = static_tree_at(2) [OF assms(1) \<open>MethodIndexOf m k = Some i\<close> Some]
    obtain tsr where "Get (e_rx ev) t path (Some Map.empty) = Got (getHandler (e_rx ev) t path) tsr (Some Map.empty)"
      using static_lookup [OF st] by metis
    with assms(2-4) \<open>MethodIndexOf m k = Some i\<close> Some show ?thesis
      by (simp add: methodTable_def tryMethod_def tryTree_def TryRedirect_def Let_def)
  qed (simp add: tryMethod_def Some)
qed (simp add: tryMethod_def)

lemma Join_Nil: "Join ws sep = [] \<Longrightarrow> set ws \<subseteq> {[]}"
  by (induction ws sep rule: Join.induct) auto

text \<open>
  C17 405 and 404. With redirects off, a request that no route of its method or of the wild method takes
  is answered with 405 and the \<open>Allow\<close> header of the path when another method has a handler for it, and
  with 404 otherwise.
\<close>

theorem method_not_allowed:
  assumes "response_store (e_ro ev)" "staticMux m" "plainTrees m" "middlewares m = []" "priorityMiddlewares m = []"
    and "methodTable (e_rx ev) m meth path = None" "methodTable (e_rx ev) m MethodWild path = None"
    and "path \<noteq> ''*''" "path \<noteq> ''/*''" "meth \<noteq> MethodOptions"
    and "\<not> RedirectTrailingSlash (m_RouterOptions m)" "\<not> RedirectFixedPath (m_RouterOptions m)"
    and "HandleMethodNotAllowed (m_RouterOptions m)" "MethodNotAllowed (m_RouterOptions m) = None"
    and "ro_NotFound (m_RouterOptions m) = None"
  shows "\<exists>r. dispatch ev m meth path ctx = (r, Served) \<and>
     (let ms = {x \<in> fst ` set (registeredPaths m). x \<noteq> meth \<and> x \<noteq> MethodOptions \<and> routed (e_rx ev) m x path} in
      if ms = {} then r_StatusCode (e_ro ev) (fc_Response r) = 404
      else r_StatusCode (e_ro ev) (fc_Response r) = 405 \<and>
        r_PeekHeader (e_ro ev) ''Allow'' (fc_Response r) = Join (sorted_list_of_set (insert MethodOptions ms)) '', '')"
proof -
  have d: "dispatch ev m meth path ctx = fallback ev m meth path ctx"
    using tryMethod_miss [OF assms(2,11,12)] assms(6,7) by (simp add: dispatch_def del: wildSlot)
  define ms where "ms = {x \<in> fst ` set (registeredPaths m). x \<noteq> meth \<and> x \<noteq> MethodOptions \<and> routed (e_rx ev) m x path}"
  have inv: "muxInv m" using assms(2) by (simp add: staticMux_def)
  have al: "Allowed (e_rx ev) m path meth = Inr (if ms = {} then [] else Join (sorted_list_of_set (insert MethodOptions ms)) '', '')"
    using Allowed_set [OF inv assms(3,8,9)] by (simp only: ms_def Let_def)
  have ne: "Join (sorted_list_of_set (insert MethodOptions ms)) '', '' \<noteq> []"
  proof -
    have "finite ms" by (simp add: ms_def)
    then have "set (sorted_list_of_set (insert MethodOptions ms)) = insert MethodOptions ms"
      by (subst set_sorted_list_of_set) simp_all
    with Join_Nil [of "sorted_list_of_set (insert MethodOptions ms)" "'', ''"] show ?thesis by blast
  qed
  note R = response_store.status_status [OF assms(1)] response_store.status_ct [OF assms(1)] response_store.status_body [OF assms(1)]
    response_store.peek_status [OF assms(1)] response_store.peek_body [OF assms(1)] response_store.peek_ct [OF assms(1)]
    response_store.peek_same [OF assms(1)]
  have ch: "Chain m h = h" for h using assms(4,5) by (simp add: Chain_def)
  have al_key: "\<not> specialKey ''Allow''" by code_simp
  show ?thesis
  proof (cases "ms = {}")
    case True
    then have "dispatch ev m meth path ctx = runRoute ev m [] (HandleNotFound ev (m_RouterOptions m)) ctx"
      unfolding d using assms(10,13) al by (simp add: fallback_def Let_def ch)
    also have "\<dots> = (c_context (respText (e_ro ev) (e_StatusMessage ev 404) (setStatusCode (e_ro ev) 404 (acquireCtx [] ctx))), Served)"
      by (rule runRoute_ok) (simp add: HandleNotFound_def assms(15))
    finally show ?thesis using True by (simp add: ms_def [symmetric] R)
  next
    case False
    let ?al = "Join (sorted_list_of_set (insert MethodOptions ms)) '', ''"
    have "dispatch ev m meth path ctx = runRoute ev m [] (defaultNotAllowed ev) (setAllow ev ?al ctx)"
      unfolding d using assms(10,13,14) al ne False by (simp add: fallback_def Let_def ch)
    also have "\<dots> = (c_context (respText (e_ro ev) (e_StatusMessage ev 405) (setStatusCode (e_ro ev) 405 (acquireCtx [] (setAllow ev ?al ctx)))), Served)"
      by (rule runRoute_ok) (simp add: defaultNotAllowed_def)
    finally have r: "dispatch ev m meth path ctx = (c_context (respText (e_ro ev) (e_StatusMessage ev 405)
        (setStatusCode (e_ro ev) 405 (acquireCtx [] (setAllow ev ?al ctx)))), Served)" .
    show ?thesis unfolding r ms_def [symmetric] Let_def
      using False by (simp add: R al_key acquireCtx_def setAllow_def)
  qed
qed

theorem method_not_allowed_witness:
  "\<exists>r. dispatch demoEnv (demoMux\<lparr>m_RouterOptions := demoOptions\<lparr>RedirectTrailingSlash := False, RedirectFixedPath := False\<rparr>\<rparr>)
       ''PUT'' ''/users'' demoRaw = (r, Served) \<and> ar_status (fc_Response r) = 405 \<and>
     assocPeek ''Allow'' (fc_Response r) = ''GET, OPTIONS, POST''"
proof -
  let ?m = "demoMux\<lparr>m_RouterOptions := demoOptions\<lparr>RedirectTrailingSlash := False, RedirectFixedPath := False\<rparr>\<rparr>"
  have e: "e_ro demoEnv = assocOps" "e_rx demoEnv = noMatch" by (simp_all add: demoEnv_def)
  have s: "staticMux ?m" using demoMux_static inv_cong [of demoMux ?m] by (simp add: staticMux_def)
  have p: "plainTrees ?m" using demoMux_plain by (simp add: plainTrees_def)
  have t: "case methodTable noMatch ?m ''PUT'' ''/users'' of None \<Rightarrow> True | _ \<Rightarrow> False"
    "case methodTable noMatch ?m MethodWild ''/users'' of None \<Rightarrow> True | _ \<Rightarrow> False" by code_simp+
  then have t': "methodTable (e_rx demoEnv) ?m ''PUT'' ''/users'' = None" "methodTable (e_rx demoEnv) ?m MethodWild ''/users'' = None"
    by (simp_all add: e split: option.splits)
  have "case middlewares ?m of [] \<Rightarrow> True | _ \<Rightarrow> False" "case priorityMiddlewares ?m of [] \<Rightarrow> True | _ \<Rightarrow> False" by code_simp+
  then have mw: "middlewares ?m = []" "priorityMiddlewares ?m = []" by (simp_all split: list.splits)
  define ms where "ms = {x \<in> fst ` set (registeredPaths ?m). x \<noteq> ''PUT'' \<and> x \<noteq> MethodOptions \<and> routed noMatch ?m x ''/users''}"
  have v: "ms = {''GET'', ''POST''}" unfolding ms_def by code_simp
  have j: "Join (sorted_list_of_set (insert MethodOptions {''GET'', ''POST''})) '', '' = ''GET, OPTIONS, POST''" by code_simp
  show ?thesis
    using method_not_allowed [OF _ s p _ _ t', of demoRaw] mw unfolding e ms_def [symmetric] v
    by (simp add: assoc.response_store_axioms j demoOptions_def Let_def) (simp add: assocOps_def)
qed

end
