(* ===== verification/Radix_Pattern.thy ===== *)
theory Radix_Pattern
  imports Radix_Params
begin

text \<open>
  Registering a route with parameters and looking it up again. A route is a text followed by parameters, each with the text
  after it: \<open>/users/{id}/books/{isbn}\<close> is \<open>/users/\<close> with \<open>(id, /books/)\<close> and \<open>(isbn, )\<close>. \<open>textNode\<close> and \<open>paramNode\<close> are the
  nodes that \<open>insert\<close> makes of it; a lookup in them finds the handler exactly for the instances of the route.
\<close>

type_synonym pattern = "bytes \<times> (bytes \<times> bytes) list"

definition braced :: "bytes \<Rightarrow> bytes" where
  "braced x = lbrace # x @ [rbrace]"

text \<open>The text of a route, and of what follows its first text.\<close>

fun paramsText :: "(bytes \<times> bytes) list \<Rightarrow> bytes" where
  "paramsText [] = []"
| "paramsText ((x, u) # ps) = braced x @ u @ paramsText ps"

definition routeText :: "pattern \<Rightarrow> bytes" where
  "routeText r = fst r @ paramsText (snd r)"

text \<open>
  Names are not empty and hold none of the bytes with a meaning in routes; a text starts with a slash, and is empty only
  at the end of the route. The whole route does not end with a slash.
\<close>

definition paramName :: "bytes \<Rightarrow> bool" where
  "paramName x \<longleftrightarrow> x \<noteq> [] \<and> set x \<inter> {lbrace, rbrace, colon, slash} = {}"

definition fixedText :: "bytes \<Rightarrow> bool" where
  "fixedText t \<longleftrightarrow> t \<noteq> [] \<and> hd t = slash \<and> lbrace \<notin> set t"

fun paramsOk :: "(bytes \<times> bytes) list \<Rightarrow> bool" where
  "paramsOk [] = True"
| "paramsOk ((x, u) # ps) = (paramName x \<and> (if u = [] then ps = [] else fixedText u \<and> (ps = [] \<longrightarrow> last u \<noteq> slash)) \<and> paramsOk ps)"

definition routeOk :: "pattern \<Rightarrow> bool" where
  "routeOk r \<longleftrightarrow> fixedText (fst r) \<and> (snd r = [] \<longrightarrow> last (fst r) \<noteq> slash) \<and> paramsOk (snd r)"

text \<open>The instances: a value without a slash for each parameter, and one that is not empty at the end of the route.\<close>

fun paramsInst :: "(bytes \<times> bytes) list \<Rightarrow> bytes list \<Rightarrow> bytes \<Rightarrow> bool" where
  "paramsInst [] [] path = (path = [])"
| "paramsInst ((x, u) # ps) (v # vs) path =
     (slash \<notin> set v \<and> (u = [] \<longrightarrow> v \<noteq> []) \<and> (\<exists>rest. path = v @ u @ rest \<and> paramsInst ps vs rest))"
| "paramsInst _ _ path = False"

definition routeInst :: "pattern \<Rightarrow> bytes list \<Rightarrow> bytes \<Rightarrow> bool" where
  "routeInst r vs path \<longleftrightarrow> (\<exists>rest. path = fst r @ rest \<and> paramsInst (snd r) vs rest)"

section \<open>Scanning\<close>

lemma scanBrace_name:
  "rbrace \<notin> set x \<Longrightarrow> lbrace \<notin> set x \<Longrightarrow> colon \<notin> set x \<Longrightarrow> scanBrace (x @ rbrace # r) n w 0 = ScanEnd (n + length x)"
  by (induction x arbitrary: n) auto

lemma wildOpen_first:
  assumes "lbrace \<notin> set a" "paramName x"
  shows "wildOpen (a @ braced x @ r) st = Inr (Some (st + length a, st + length a + length x + 2))"
  using assms(1)
proof (induction a arbitrary: st)
  case Nil
  have "scanBrace (x @ rbrace # r) 0 False 0 = ScanEnd (0 + length x)"
    using assms(2) by (intro scanBrace_name) (auto simp: paramName_def)
  then show ?case by (simp add: braced_def)
qed auto

definition paramWild :: "bytes \<Rightarrow> bytes \<Rightarrow> nat \<Rightarrow> wildPath" where
  "paramWild path x start = \<lparr>wp_path = braced x, wp_keys = [x], wp_start = start, wp_end = start + length x + 2,
     wp_pType = NParam, wp_pattern = (if last path \<noteq> slash then ''(.*)'' else []), wp_regex = None\<rparr>"

lemma Cut_none: "c \<notin> set s \<Longrightarrow> Cut s [c] = (s, [], False)"
  using Index_byte_None [of s c] by (simp add: Cut_def)

lemma wildHead_param:
  assumes "paramName x" "r = [] \<or> hd r = slash"
  shows "wildHead rx (a @ braced x @ r) fp (length a) (length a + length x + 2) = Inr (paramWild (a @ braced x @ r) x (length a))"
proof -
  let ?p = "a @ braced x @ r"
  have k: "take (length a + length x + 2 - 1 - (length a + 1)) (drop (length a + 1) ?p) = x" by (simp add: braced_def)
  have p: "take (length a + length x + 2 - length a) (drop (length a) ?p) = braced x" by (simp add: braced_def)
  have b: "\<not> (length ?p > length a + length x + 2 \<and> ?p ! (length a + length x + 2) = lbrace)"
    using assms(2) by (cases r) (auto simp: braced_def nth_append)
  have c: "Cut x [colon] = (x, [], False)" by (rule Cut_none) (use assms(1) in \<open>auto simp: paramName_def\<close>)
  have x: "x \<noteq> []" using assms(1) by (simp add: paramName_def)
  show ?thesis unfolding wildHead_def k p Let_def c using b x by (simp add: paramWild_def)
qed

lemma findWildPath_param:
  assumes "lbrace \<notin> set a" "paramName x" "r = [] \<or> hd r = slash" "r \<noteq> [slash]"
  shows "findWildPath rx (a @ braced x @ r) fp = Inr (Some (paramWild (a @ braced x @ r) x (length a)))"
proof -
  have d: "drop (length a + length x + 2) (a @ braced x @ r) = r" by (simp add: braced_def)
  have "wildTail (a @ braced x @ r) (length a + length x + 2) = []"
    using assms(3,4) unfolding wildTail_def d by (cases r) (auto simp: segmentEndIndex_def)
  then show ?thesis
    by (subst findWildPath.simps) (simp add: wildOpen_first [OF assms(1,2)] wildHead_param [OF assms(2,3)] del: add_2_eq_Suc add_2_eq_Suc')
qed

section \<open>What insert makes of a route\<close>

definition textData :: "bytes \<Rightarrow> 'h nodeData" where
  "textData t = ndata (newNode t)"

definition paramData :: "bytes \<Rightarrow> 'h nodeData" where
  "paramData x = (textData (braced x))\<lparr>nType := NParam, n_paramKeys := [x]\<rparr>"

fun textNode :: "bytes \<Rightarrow> (bytes \<times> bytes) list \<Rightarrow> 'h \<Rightarrow> 'h node" where
  "textNode t [] h = Node ((textData t)\<lparr>n_handler := Some h\<rparr>) [tsrNode]"
| "textNode t ((x, u) # ps) h = Node ((textData t)\<lparr>n_hasWildChild := True\<rparr>)
     [if u = [] then Node ((paramData x)\<lparr>n_handler := Some h\<rparr>) [tsrNode]
      else Node (paramData x) [textNode u ps h]]"

abbreviation paramNode :: "bytes \<Rightarrow> bytes \<Rightarrow> (bytes \<times> bytes) list \<Rightarrow> 'h \<Rightarrow> 'h node" where
  "paramNode x u ps h \<equiv> (if u = [] then Node ((paramData x)\<lparr>n_handler := Some h\<rparr>) [tsrNode]
      else Node (paramData x) [textNode u ps h])"

lemma paramsText_hd: "paramsOk ps \<Longrightarrow> ps \<noteq> [] \<Longrightarrow> \<exists>x r. paramsText ps = braced x @ r \<and> paramName x"
  by (induction ps rule: paramsText.induct) auto

text \<open>What follows a parameter.\<close>

lemma rest_ok:
  assumes "paramsOk ((x, u) # ps)"
  shows "u @ paramsText ps = [] \<or> hd (u @ paramsText ps) = slash" "u @ paramsText ps \<noteq> [slash]"
proof -
  show "u @ paramsText ps = [] \<or> hd (u @ paramsText ps) = slash"
    using assms by (cases u) (auto simp: fixedText_def)
  show "u @ paramsText ps \<noteq> [slash]"
  proof
    assume e: "u @ paramsText ps = [slash]"
    show False
    proof (cases "ps = []")
      case True
      with e assms show False by auto
    next
      case False
      then obtain x' r where "paramsText ps = braced x' @ r" using paramsText_hd [of ps] assms by (auto split: if_splits)
      with e show False by (cases u) (auto simp: braced_def)
    qed
  qed
qed

lemma segment_param:
  assumes "paramName x" "r = [] \<or> hd r = slash" "r \<noteq> [slash]"
  shows "take (segmentEndIndex (braced x @ r) True) (braced x @ r) = braced x"
proof -
  have x: "slash \<notin> set (braced x)" using assms(1) by (auto simp: paramName_def braced_def)
  have "takeWhile (\<lambda>c. c \<noteq> slash) (braced x @ r) = braced x"
    using x assms(2) by (cases r) (auto simp: takeWhile_append takeWhile_eq_all_conv [THEN iffD2])
  then show ?thesis using assms(3) by (simp add: segmentEndIndex_def Let_def)
qed

lemma insertLeaf_text:
  assumes "fixedText t" "last t \<noteq> slash"
  shows "insertLeaf h (newNode t) n = (appendChild (textNode t [] h) n, Added)"
proof -
  have "t \<noteq> [slash]" "\<not> HasSuffix t [slash]" using assms by (auto simp: fixedText_def HasSuffix_byte)
  then show ?thesis by (simp add: insertLeaf_def newNode_def appendChild_def textData_def Let_def)
qed

lemma insert_param:
  fixes h :: 'h
  assumes "paramsOk ((x, u) # ps)"
    and ins: "u \<noteq> [] \<Longrightarrow> (\<And>n. insertNode rx (u @ paramsText ps) fp h n = (appendChild (textNode u ps h) n, Added))"
  shows "insertNode rx (braced x @ u @ paramsText ps) fp h n =
    (appendChild (paramNode x u ps h) (Node ((ndata n)\<lparr>n_hasWildChild := True\<rparr>) (children n)), Added)"
proof -
  let ?r = "u @ paramsText ps"
  have x: "paramName x" using assms(1) by simp
  note r = rest_ok [OF assms(1)]
  have f: "findWildPath rx (braced x @ ?r) fp = Inr (Some (paramWild (braced x @ ?r) x 0))"
    using findWildPath_param [of "[]", OF _ x r] by simp
  have d: "drop (wp_end (paramWild (braced x @ ?r) x 0)) (braced x @ ?r) = ?r" by (simp add: paramWild_def braced_def)
  have c: "paramChild (braced x @ ?r) (paramWild (braced x @ ?r) x 0) = (Node (paramData x) [] :: 'h node)"
    unfolding paramChild_def segment_param [OF x r] by (simp add: paramWild_def paramData_def textData_def newNode_def)
  have w: "wp_start (paramWild p x 0) = 0" "wp_pType (paramWild p x 0) = NParam" for p by (simp_all add: paramWild_def)
  have b: "braced x \<noteq> [slash]" "\<not> HasSuffix (braced x) [slash]" by (simp_all add: braced_def HasSuffix_byte)
  show ?thesis
  proof (cases "u = []")
    case True
    then have "ps = []" using assms(1) by simp
    with True f c d w b show ?thesis
      by (subst insertNode.simps) (simp add: insertLeaf_def Let_def appendChild_def paramData_def textData_def newNode_def)
  next
    case False
    then have "?r \<noteq> []" by simp
    with False f c d w ins show ?thesis
      by (subst insertNode.simps) (simp add: Let_def appendChild_def)
  qed
qed

lemma insert_text:
  assumes "fixedText t" "ps = [] \<Longrightarrow> last t \<noteq> slash" "paramsOk ps"
  shows "insertNode rx (t @ paramsText ps) fp h n = (appendChild (textNode t ps h) n, Added)"
  using assms
proof (induction ps arbitrary: t n)
  case Nil
  have "findWildPath rx t fp = Inr None" using Nil.prems(1) by (simp add: fixedText_def)
  then show ?case using Nil.prems by (subst insertNode.simps) (simp add: insertLeaf_text)
next
  case (Cons p ps)
  obtain x u where p: "p = (x, u)" by fastforce
  have ok: "paramsOk ((x, u) # ps)" using Cons.prems(3) p by simp
  let ?r = "u @ paramsText ps"
  let ?w = "paramWild (t @ braced x @ ?r) x (length t)"
  have f: "findWildPath rx (t @ braced x @ ?r) fp = Inr (Some ?w)"
    using Cons.prems(1) ok by (intro findWildPath_param rest_ok) (auto simp: fixedText_def)
  have w: "wp_start ?w = length t" by (simp add: paramWild_def)
  have t: "t \<noteq> []" using Cons.prems(1) by (simp add: fixedText_def)
  have "insertNode rx (braced x @ ?r) fp h (newNode t) =
      (appendChild (paramNode x u ps h) (Node ((ndata (newNode t))\<lparr>n_hasWildChild := True\<rparr>) (children (newNode t))), Added)"
    by (rule insert_param [OF ok], rule Cons.IH) (use ok in \<open>auto split: if_splits\<close>)
  then have "insertNode rx (drop (wp_start ?w) (t @ braced x @ ?r)) fp h (newNode (take (wp_start ?w) (t @ braced x @ ?r))) =
      (textNode t ((x, u) # ps) h, Added)"
    by (simp add: w appendChild_def textData_def newNode_def)
  then show ?case using f w t p by (subst insertNode.simps) (simp add: Let_def)
qed

section \<open>Looking up in the nodes of a route\<close>

text \<open>Inner parameters are stored first, so the values are bound from the last parameter to the first.\<close>

definition routeBind :: "(bytes \<times> bytes) list \<Rightarrow> bytes list \<Rightarrow> uvals option \<Rightarrow> uvals option" where
  "routeBind ps vs ctx = bindAll (rev (zip (map fst ps) vs)) ctx"

definition missed :: "'h getRes \<Rightarrow> uvals option \<Rightarrow> bool" where
  "missed res ctx \<longleftrightarrow> (\<exists>tsr. res = Got None tsr ctx)"

lemma getChildren_tsr: "path \<noteq> [] \<Longrightarrow> missed (getChildren rx [tsrNode] None path ctx) ctx"
  by (auto simp: missed_def tsrNode_def newNode_def Let_def)

lemma saveParam: "saveParamValues ctx [x] v None = Inr (SetUserValue ctx x v)"
  by (simp add: saveParamValues_def SetUserValue_def)

text \<open>A parameter takes the path up to the next slash.\<close>

lemma getChildren_param:
  assumes "path = v @ r" "slash \<notin> set v" "r = [] \<or> hd r = slash"
    and "nType d = NParam" "n_paramKeys d = [x]" "n_paramRegex d = None"
  shows "getChildren rx [Node d cs] None path ctx =
    (if r \<noteq> [] then
       (case getChildren rx cs (n_wildcard d) r ctx of
          GetPanic p \<Rightarrow> GetPanic p
        | Got h tsr ctx' \<Rightarrow>
            if tsr then Got None True ctx' else if h \<noteq> None then Got h False (SetUserValue ctx' x v) else Got None False ctx')
     else if n_tsr d then Got None True ctx
     else case n_handler d of None \<Rightarrow> Got None False ctx | Some h \<Rightarrow> Got (Some h) False (SetUserValue ctx x v))"
proof -
  have "takeWhile (\<lambda>c. c \<noteq> slash) path = v"
    using assms by (cases r) (auto simp: takeWhile_append takeWhile_eq_all_conv [THEN iffD2])
  then have "segmentEndIndex path False = length v" by (simp add: segmentEndIndex_def)
  with assms(1,4-6) show ?thesis by (simp add: paramMatch_def saveParam Let_def split: getRes.splits option.splits)
qed

lemma getChildren_text:
  assumes "t \<noteq> []" "path \<noteq> []"
  shows "getChildren rx [Node ((textData t)\<lparr>n_handler := ho, n_hasWildChild := b\<rparr>) cs] None path ctx =
    (if path = t then Got ho False ctx
     else if \<exists>r. path = t @ r then
       (case getChildren rx cs None (drop (length t) path) ctx of
          GetPanic p \<Rightarrow> GetPanic p
        | Got h tsr ctx' \<Rightarrow> if h \<noteq> None \<or> tsr then Got h tsr ctx' else Got None False ctx')
     else Got None False ctx)"
proof (cases "\<exists>r. path = t @ r")
  case True
  then obtain r where "path = t @ r" by blast
  with assms show ?thesis
    by (cases r) (auto simp: textData_def newNode_def Let_def split: getRes.splits option.splits)
next
  case False
  then have "take (length t) path \<noteq> t" by (metis append_take_drop_id)
  with False assms show ?thesis by (auto simp: textData_def newNode_def Let_def)
qed

text \<open>What is found by a lookup that finds exactly the instances.\<close>

definition exact :: "'h \<Rightarrow> (bytes \<times> bytes) list \<Rightarrow> (bytes list \<Rightarrow> bool) \<Rightarrow> uvals option \<Rightarrow> 'h getRes \<Rightarrow> bool" where
  "exact h ps inst ctx res \<longleftrightarrow>
     (\<forall>vs. inst vs \<longrightarrow> res = Got (Some h) False (routeBind ps vs ctx)) \<and> ((\<nexists>vs. inst vs) \<longrightarrow> missed res ctx)"

lemma paramsInst_iff:
  assumes "path = v @ r" "slash \<notin> set v" "r = [] \<or> hd r = slash" "path \<noteq> []" "paramsOk ((x, u) # ps)"
  shows "paramsInst ((x, u) # ps) vs path \<longleftrightarrow>
    (\<exists>vs'. vs = v # vs' \<and> (\<exists>rest. r = u @ rest \<and> paramsInst ps vs' rest))"
proof (cases vs)
  case (Cons w ws)
  have "w = v \<and> r = u @ rest" if "slash \<notin> set w" "v @ r = w @ u @ rest" "paramsInst ps ws rest" for rest
  proof -
    have h: "u @ rest = [] \<or> hd (u @ rest) = slash"
      using assms(5) that(3) by (cases u; cases ws) (auto simp: fixedText_def)
    have "takeWhile (\<lambda>c. c \<noteq> slash) (v @ r) = v" "takeWhile (\<lambda>c. c \<noteq> slash) (w @ u @ rest) = w"
      using assms(2,3) that(1) h
      by (cases r; cases "u @ rest"; auto simp: takeWhile_append takeWhile_eq_all_conv [THEN iffD2])+
    then have "v = w" using that(2) by simp
    then show ?thesis using that(2) by simp
  qed
  moreover have "v \<noteq> []" if "u = []" "r = rest" "paramsInst ps ws rest" for rest
  proof -
    have "ps = []" using assms(5) that(1) by simp
    then have "rest = []" using that(3) by (cases ws) auto
    then show ?thesis using assms(1,4) that(2) by simp
  qed
  ultimately show ?thesis using Cons assms(1,2) by auto
qed simp

lemma exact_param:
  fixes h :: 'h
  assumes ok: "paramsOk ((x, u) # ps)" and path: "path \<noteq> []"
    and ih: "\<And>r. u \<noteq> [] \<Longrightarrow> r \<noteq> [] \<Longrightarrow>
      exact h ps (\<lambda>vs. \<exists>rest. r = u @ rest \<and> paramsInst ps vs rest) ctx (getChildren rx [textNode u ps h] None r ctx)"
  shows "exact h ((x, u) # ps) (\<lambda>vs. paramsInst ((x, u) # ps) vs path) ctx (getChildren rx [paramNode x u ps h] None path ctx)"
proof -
  define v where "v = takeWhile (\<lambda>c. c \<noteq> slash) path"
  define r where "r = dropWhile (\<lambda>c. c \<noteq> slash) path"
  have p: "path = v @ r" by (simp add: v_def r_def)
  have v: "slash \<notin> set v" by (auto simp: v_def dest: set_takeWhileD)
  have r: "r = [] \<or> hd r = slash" using hd_dropWhile [of "\<lambda>c. c \<noteq> slash" path] by (auto simp: r_def)
  note inst = paramsInst_iff [OF p v r path ok]
  have f: "nType (paramData x) = NParam" "n_paramKeys (paramData x) = [x]" "n_paramRegex (paramData x) = None"
    "n_wildcard (paramData x) = None" "n_tsr (paramData x) = False" "n_handler (paramData x) = None"
    by (simp_all add: paramData_def textData_def newNode_def)
  show ?thesis
  proof (cases "u = []")
    case True
    then have ps: "ps = []" using ok by simp
    have none: "paramsInst ps vs rest \<longleftrightarrow> vs = [] \<and> rest = []" for vs rest by (cases vs) (simp_all add: ps)
    have res: "getChildren rx [paramNode x u ps h] None path ctx =
      (if r \<noteq> [] then
         (case getChildren rx [tsrNode :: 'h node] None r ctx of
            GetPanic p \<Rightarrow> GetPanic p
          | Got h tsr ctx' \<Rightarrow>
              if tsr then Got None True ctx' else if h \<noteq> None then Got h False (SetUserValue ctx' x v) else Got None False ctx')
       else Got (Some h) False (SetUserValue ctx x v))"
      unfolding if_P [OF True] by (subst getChildren_param [OF p v r, where x = x]) (simp_all add: f del: getChildren.simps)
    show ?thesis
    proof (cases "r = []")
      case False
      with getChildren_tsr [of r rx ctx, where 'a = 'h] show ?thesis
        unfolding exact_def inst res by (auto simp: none True missed_def simp del: getChildren.simps)
    next
      case r: True
      show ?thesis unfolding exact_def inst res by (auto simp: none none [unfolded ps] True ps r routeBind_def simp del: getChildren.simps)
    qed
  next
    case False
    have res: "getChildren rx [paramNode x u ps h] None path ctx =
      (if r \<noteq> [] then
         (case getChildren rx [textNode u ps h] None r ctx of
            GetPanic p \<Rightarrow> GetPanic p
          | Got h tsr ctx' \<Rightarrow>
              if tsr then Got None True ctx' else if h \<noteq> None then Got h False (SetUserValue ctx' x v) else Got None False ctx')
       else Got None False ctx)"
      unfolding if_not_P [OF False] by (subst getChildren_param [OF p v r, where x = x]) (simp_all add: f del: getChildren.simps)
    show ?thesis
    proof (cases "r = []")
      case True
      then show ?thesis using False unfolding exact_def inst res by (auto simp: missed_def simp del: getChildren.simps)
    next
      case r: False
      show ?thesis
        using ih [OF False r] r unfolding exact_def inst res by (auto simp: missed_def routeBind_def simp del: getChildren.simps)
    qed
  qed
qed

lemma exact_text:
  fixes h :: 'h
  assumes "fixedText t" "paramsOk ps" "path \<noteq> []"
  shows "exact h ps (\<lambda>vs. \<exists>rest. path = t @ rest \<and> paramsInst ps vs rest) ctx (getChildren rx [textNode t ps h] None path ctx)"
  using assms
proof (induction ps arbitrary: t path)
  case Nil
  have none: "paramsInst [] vs rest \<longleftrightarrow> vs = [] \<and> rest = []" for vs rest by (cases vs) simp_all
  have t: "t \<noteq> []" using Nil.prems(1) by (simp add: fixedText_def)
  have e: "textNode t [] h = Node ((textData t)\<lparr>n_handler := Some h, n_hasWildChild := False\<rparr>) [tsrNode]"
    by (simp add: textData_def newNode_def)
  show ?case
  proof (cases "\<exists>r. r \<noteq> [] \<and> path = t @ r")
    case True
    then obtain r where r: "r \<noteq> []" "path = t @ r" by blast
    with getChildren_tsr [of r rx ctx, where 'a = 'h] show ?thesis
      unfolding e getChildren_text [OF t Nil.prems(3)] exact_def none by (auto simp: missed_def simp del: getChildren.simps)
  next
    case False
    then show ?thesis
      unfolding e getChildren_text [OF t Nil.prems(3)] exact_def none by (auto simp: missed_def routeBind_def)
  qed
next
  case (Cons p ps)
  obtain x u where p: "p = (x, u)" by fastforce
  have ok: "paramsOk ((x, u) # ps)" using Cons.prems(2) p by simp
  have t: "t \<noteq> []" using Cons.prems(1) by (simp add: fixedText_def)
  have e: "textNode t ((x, u) # ps) h = Node ((textData t)\<lparr>n_handler := None, n_hasWildChild := True\<rparr>) [paramNode x u ps h]"
    by (simp add: textData_def newNode_def)
  have ih: "exact h ps (\<lambda>vs. \<exists>rest. r = u @ rest \<and> paramsInst ps vs rest) ctx (getChildren rx [textNode u ps h] None r ctx)"
    if "u \<noteq> []" "r \<noteq> []" for r
    by (rule Cons.IH) (use ok that in auto)
  have empty: "\<not> paramsInst ((x, u) # ps) vs []" for vs by (cases vs) auto
  show ?case
  proof (cases "\<exists>r. r \<noteq> [] \<and> path = t @ r")
    case True
    then obtain r where r: "r \<noteq> []" "path = t @ r" by blast
    from exact_param [OF ok r(1) ih] r show ?thesis
      unfolding p e getChildren_text [OF t Cons.prems(3)] exact_def by (auto simp: missed_def simp del: getChildren.simps)
  next
    case False
    then have "\<nexists>vs. \<exists>rest. path = t @ rest \<and> paramsInst ((x, u) # ps) vs rest" using empty by metis
    with False show ?thesis
      unfolding p e getChildren_text [OF t Cons.prems(3)] exact_def by (auto simp: missed_def simp del: getChildren.simps)
  qed
qed

section \<open>The tree of one route\<close>

context node_sort
begin

lemma srt_single: "srt [c] = [c]"
  using mset_srt [of "[c]"] by simp

lemma sort_tsr: "sortNode srt tsrNode = tsrNode"
  using mset_srt [of "[]"] by (simp add: tsrNode_def newNode_def)

lemma sort_text: "sortNode srt (textNode t ps h) = textNode t ps h"
  by (induction ps arbitrary: t) (auto simp: srt_single sort_tsr)

end

text \<open>The root of the tree is the first node, with its type changed.\<close>

lemma Add_pattern:
  assumes "routeOk (t, ps)" "node_sort srt"
  shows "Add rx srt (routeText (t, ps)) (Some h) (New\<lparr>Mutable := v\<rparr>) =
    (\<lparr>root = Node ((ndata (textNode t ps h))\<lparr>nType := NRoot\<rparr>) (children (textNode t ps h)), Mutable = v\<rparr>, TreeOk)"
proof -
  let ?n = "textNode t ps h"
  have ok: "fixedText t" "ps = [] \<Longrightarrow> last t \<noteq> slash" "paramsOk ps" using assms(1) by (auto simp: routeOk_def)
  have t: "t \<noteq> []" "npath ?n = t" using ok(1) by (cases ps rule: paramsText.cases; auto simp: fixedText_def textData_def newNode_def)+
  have pre: "HasPrefix (t @ paramsText ps) [slash]" using ok(1) by (cases t) (auto simp: fixedText_def HasPrefix_iff)
  have l: "longestCommonPrefix p [] = 0" for p by (cases "decodeAll p") (simp_all add: longestCommonPrefix_def)
  have a: "addNode rx (t @ paramsText ps) (t @ paramsText ps) h (root New) = (appendChild ?n (root New), Added)"
    using insert_text [OF ok, of rx "t @ paramsText ps" h "root New"] t
    by (subst addNode.simps) (simp add: New_def)
  have "sortNode srt (Node ((ndata ?n)\<lparr>nType := NRoot\<rparr>) (children ?n)) = Node ((ndata ?n)\<lparr>nType := NRoot\<rparr>) (children ?n)"
    using node_sort.sort_text [OF assms(2), of t ps h] by (cases ?n) simp
  with a pre show ?thesis
    by (simp add: Add_def routeText_def l addFinish_def New_def newNode_def appendChild_def Let_def)
qed

lemma Get_pattern:
  assumes "fixedText t" "paramsOk ps"
  shows "exact h ps (\<lambda>vs. routeInst (t, ps) vs path) ctx
    (Get rx \<lparr>root = Node ((ndata (textNode t ps h))\<lparr>nType := NRoot\<rparr>) (children (textNode t ps h)), Mutable = v\<rparr> path ctx)"
proof (cases "path = []")
  case True
  have "t \<noteq> []" using assms(1) by (simp add: fixedText_def)
  with True show ?thesis
    by (cases ps rule: paramsText.cases) (auto simp: exact_def missed_def routeInst_def Get_def textData_def newNode_def)
next
  case False
  obtain d cs where n: "textNode t ps h = Node d cs" by (cases "textNode t ps h")
  have t: "t \<noteq> []" using assms(1) by (simp add: fixedText_def)
  have d: "nType d = NStatic" "n_path d = t" "n_tsr d = False" "n_wildcard d = None"
    using n by (cases ps rule: paramsText.cases; auto simp: textData_def newNode_def)+
  have hd: "take (length t) path = t \<Longrightarrow> hd path = hd t" using t by (metis append_take_drop_id hd_append2)
  let ?g = "Get rx \<lparr>root = Node (d\<lparr>nType := NRoot\<rparr>) cs, Mutable = v\<rparr> path ctx"
  have g: "getChildren rx [Node d cs] None path ctx =
      (case ?g of GetPanic p \<Rightarrow> GetPanic p | Got h tsr ctx' \<Rightarrow> if h \<noteq> None \<or> tsr then Got h tsr ctx' else Got None False ctx')"
    using False t d hd by (auto simp: Get_def Let_def split: getRes.splits option.splits)
  have "exact h ps (\<lambda>vs. routeInst (t, ps) vs path) ctx (getChildren rx [Node d cs] None path ctx)"
    using exact_text [OF assms False, of h ctx rx] n by (simp add: routeInst_def)
  then show ?thesis
    unfolding g n by (auto simp: exact_def missed_def split: getRes.splits if_splits)
qed

section \<open>Properties\<close>

text \<open>
  C3. A route with parameters that is registered in an empty tree is found again: a lookup of any of its instances, with a value
  without a slash for each parameter, returns the handler and binds every parameter to its value, the first one of a name deciding if names
  are repeated; a lookup of any other path finds nothing and leaves the context alone.
\<close>

theorem param_route_roundtrip:
  assumes "routeOk r" "node_sort srt"
  shows "\<exists>t. Add rx srt (routeText r) (Some h) (New\<lparr>Mutable := v\<rparr>) = (t, TreeOk) \<and>
    (\<forall>path ctx. (\<forall>vs. routeInst r vs path \<longrightarrow> Get rx t path ctx = Got (Some h) False (routeBind (snd r) vs ctx)) \<and>
      ((\<nexists>vs. routeInst r vs path) \<longrightarrow> (\<exists>tsr. Get rx t path ctx = Got None tsr ctx)))"
proof -
  obtain t ps where r: "r = (t, ps)" by fastforce
  have "fixedText t" "paramsOk ps" using assms(1) r by (auto simp: routeOk_def)
  from Get_pattern [OF this, of h] show ?thesis
    using Add_pattern [OF assms(1) [unfolded r] assms(2), of rx h] unfolding r exact_def missed_def by auto
qed

theorem param_route_roundtrip_witness:
  "\<exists>t. Add noMatch insertionSort ''/users/{id}/books/{isbn}'' (Some (7 :: nat)) (New\<lparr>Mutable := False\<rparr>) = (t, TreeOk) \<and>
    Get noMatch t ''/users/ann/books/12'' (Some Map.empty) = Got (Some 7) False (Some [''id'' \<mapsto> ''ann'', ''isbn'' \<mapsto> ''12''])"
proof -
  let ?r = "(''/users/'', [(''id'', ''/books/''), (''isbn'', [])])"
  have ok: "routeOk ?r" by code_simp
  have tx: "routeText ?r = ''/users/{id}/books/{isbn}''" by code_simp
  have inst: "routeInst ?r [''ann'', ''12''] ''/users/ann/books/12''" by (simp add: routeInst_def)
  have bind: "routeBind (snd ?r) [''ann'', ''12''] (Some Map.empty) = Some [''id'' \<mapsto> ''ann'', ''isbn'' \<mapsto> ''12'']"
    by (auto simp: routeBind_def SetUserValue_def)
  from param_route_roundtrip [OF ok insertion.node_sort_axioms, of noMatch 7 False] inst show ?thesis
    unfolding tx bind [symmetric] by blast
qed

end
