(* ===== verification/Mux_Params.thy ===== *)
theory Mux_Params
  imports Mux_Props Radix_Pattern
begin

text \<open>
  Routes with parameters through the router: the first route of a method is registered in an empty tree, and a request for one of its
  instances runs the handler in a context whose user values are the parameters.
\<close>

lemma routeText_slash: "routeOk r \<Longrightarrow> routeText r \<noteq> [] \<and> hd (routeText r) = slash"
  by (auto simp: routeOk_def routeText_def fixedText_def)

text \<open>The router after the registration: the method has the tree of the route, and nothing that serving reads has changed otherwise.\<close>

lemma Handle_first:
  assumes "muxCore m" "node_sort srt" "meth \<noteq> []" "\<not> hasTree m meth" "routeOk (t, ps)" "qmark \<notin> set (routeText (t, ps))"
  shows "\<exists>m' i v. Handle rx srt meth (routeText (t, ps)) (Some h) m = (m', HandleOk) \<and>
    MethodIndexOf m' meth = Some i \<and> trees m' ! i = Some \<lparr>root = Node
      ((ndata (textNode t ps (routeText (t, ps), Chain m h)))\<lparr>nType := NRoot\<rparr>) (children (textNode t ps (routeText (t, ps), Chain m h))), Mutable = v\<rparr> \<and>
    originalBasePath m' = originalBasePath m \<and> fixedBasePath m' = fixedBasePath m \<and> m_RouterOptions m' = m_RouterOptions m"
proof -
  let ?p = "routeText (t, ps)"
  obtain m2 i tr where st: "handleSteps rx srt meth ?p h m m2 i tr" and
    H: "Handle rx srt meth ?p (Some h) m = (case GetOptionalPaths ?p of
       Inl e \<Rightarrow> (m2, OptionalPanic e)
     | Inr ops \<Rightarrow> (let (t', out) = addPaths rx srt (?p, Chain m2 h) (if ops = [] then [?p] else ops) tr in
         (m2\<lparr>trees := (trees m2)[i := Some t']\<rparr>, case out of TreeOk \<Rightarrow> HandleOk | e \<Rightarrow> TreePanics e)))"
    using Handle_steps [OF assms(3), of ?p rx srt h m] routeText_slash [OF assms(5)] by blast
  note F = handleSteps_facts [OF assms(1) st]
  have tr: "tr = New\<lparr>Mutable := treeMutable m\<rparr>" by (rule F(16) [OF assms(4)])
  have "addPaths rx srt (?p, Chain m2 h) [?p] tr = Add rx srt ?p (Some (?p, Chain m h)) tr"
    using F(15) by (auto split: prod.splits treeOut.splits)
  with H tr Add_pattern [OF assms(5,2), of rx "(?p, Chain m h)" "treeMutable m"] F(2,3) handleSteps_base [OF st]
    optional_none [OF assms(6)] show ?thesis by auto
qed

text \<open>With distinct names every parameter has its own value.\<close>

lemma paramsInst_length: "paramsInst ps vs path \<Longrightarrow> length vs = length ps"
  by (induction ps vs path rule: paramsInst.induct) auto

lemma bindAll_values:
  assumes "length vs = length ps" "distinct (map fst ps)"
  shows "\<exists>u. routeBind ps vs (Some w) = Some u \<and> (\<forall>i < length vs. u (fst (ps ! i)) = Some (vs ! i))"
  using assms
proof (induction ps vs rule: list_induct2')
  case (4 p ps v vs)
  then obtain u where "routeBind ps vs (Some w) = Some u" "\<forall>i < length vs. u (fst (ps ! i)) = Some (vs ! i)" by auto
  moreover have "fst (ps ! j) \<noteq> fst p" if "j < length ps" for j
    using 4(3) nth_mem [OF that] by (metis distinct.simps(2) image_eqI list.map(2) list.set_map)
  ultimately show ?case using 4(2)
    by (auto simp: routeBind_def SetUserValue_def nth_Cons' less_Suc_eq_0_disj)
qed (auto simp: routeBind_def)

lemma tryTree_exact:
  assumes "Get (e_rx ev) t path (Some Map.empty) = Got (Some (p, h)) False u" "meth \<noteq> MethodQuery"
  shows "tryTree ev m t meth path ctx = (let (c, out) = runRoute ev m p h (bindParams u ctx) in (c, Some out))"
  using assms by (simp add: tryTree_def)

lemma dispatch_exact:
  assumes "MethodIndexOf m meth = Some i" "trees m ! i = Some t" "meth \<noteq> MethodQuery"
    and "Get (e_rx ev) t path (Some Map.empty) = Got (Some (p, h)) False u"
  shows "dispatch ev m meth path ctx = runRoute ev m p h (bindParams u ctx)"
  using assms(1,2) tryTree_exact [OF assms(4,3), of m ctx] by (simp add: dispatch_def tryMethod_def split: prod.splits)

text \<open>
  C14. A route with parameters is served. After the first route of a method is registered, with any number of required parameters,
  a request for that method whose path without the base path is an instance of the route runs the handler, wrapped by
  the middlewares, in a context that knows the route and has every parameter as a user value.
\<close>

theorem param_route_served:
  assumes "node_sort srt" "muxInv m" "meth \<noteq> []" "meth \<noteq> MethodQuery" "\<not> hasTree m meth"
    and "routeOk r" "qmark \<notin> set (routeText r)" "distinct (map fst (snd r))"
    and "rq_Method (fc_Request ctx) = meth"
    and "routeInst r vs (stripBasePath (e_uf ev) (snd (BasePath m)) (rq_PathOriginal (fc_Request ctx)))"
  shows "\<exists>m' ctx'. Handle (e_rx ev) srt meth (routeText r) (Some h) m = (m', HandleOk) \<and>
     snd (Handler ev m' ctx) = runRoute ev m (routeText r) (Chain m h) ctx' \<and>
     fc_Request ctx' = fc_Request ctx \<and> fc_Response ctx' = fc_Response ctx \<and>
     (\<forall>i < length vs. fc_UserValues ctx' (fst (snd r ! i)) = Some (UString (vs ! i)))"
proof -
  obtain t ps where r: "r = (t, ps)" by fastforce
  let ?p = "routeText (t, ps)" and ?path = "stripBasePath (e_uf ev) (snd (BasePath m)) (rq_PathOriginal (fc_Request ctx))"
  have core: "muxCore m" using assms(2) by (simp add: muxInv_def)
  have ok: "fixedText t" "paramsOk ps" using assms(6) r by (auto simp: routeOk_def)
  let ?n = "textNode t ps (?p, Chain m h)"
  obtain m' i v where H: "Handle (e_rx ev) srt meth ?p (Some h) m = (m', HandleOk)" and i: "MethodIndexOf m' meth = Some i"
    "trees m' ! i = Some \<lparr>root = Node ((ndata ?n)\<lparr>nType := NRoot\<rparr>) (children ?n), Mutable = v\<rparr>"
    and eq: "originalBasePath m' = originalBasePath m" "fixedBasePath m' = fixedBasePath m" "m_RouterOptions m' = m_RouterOptions m"
    using Handle_first [OF core assms(1,3,5), of t ps "e_rx ev" h] assms(6,7) r by metis
  have inst: "routeInst (t, ps) vs ?path" using assms(10) r by simp
  then have len: "length vs = length ps" by (auto simp: routeInst_def dest: paramsInst_length)
  obtain u where u: "routeBind ps vs (Some Map.empty) = Some u" "\<forall>i < length vs. u (fst (ps ! i)) = Some (vs ! i)"
    using bindAll_values [OF len] assms(8) r by auto
  have "Get (e_rx ev) \<lparr>root = Node ((ndata ?n)\<lparr>nType := NRoot\<rparr>) (children ?n), Mutable = v\<rparr> ?path (Some Map.empty) =
      Got (Some (?p, Chain m h)) False (Some u)"
    using Get_pattern [OF ok, of "(?p, Chain m h)" ?path "Some Map.empty" "e_rx ev" v] inst u(1) by (simp add: exact_def)
  moreover have "MethodIndexOf (fst (BasePath m')) meth = Some i"
    using i(1) MethodIndexOf_cong [of "fst (BasePath m')" m'] by simp
  ultimately have "dispatch ev (fst (BasePath m')) meth ?path ctx =
      runRoute ev (fst (BasePath m')) ?p (Chain m h) (bindParams (Some u) ctx)"
    using i(2) by (intro dispatch_exact [OF _ _ assms(4)]) simp_all
  moreover have "snd (BasePath m') = snd (BasePath m)" using eq by (simp add: BasePath_eq Let_def)
  ultimately have "snd (Handler ev m' ctx) = runRoute ev m ?p (Chain m h) (bindParams (Some u) ctx)"
    using assms(9) runRoute_cong [of "fst (BasePath m')" m ev] eq(3) by (simp add: Handler_def Let_def split: prod.splits) (metis fst_conv snd_conv)
  then show ?thesis using H u(2) r by (intro exI [of _ m'] exI [of _ "bindParams (Some u) ctx"]) (auto simp: bindParams_def map_add_def)
qed

theorem param_route_served_witness:
  "\<exists>m' ctx'. Handle noMatch insertionSort ''GET'' ''/users/{id}'' (Some (\<lambda>c. (c, None))) (newMux assocOps) = (m', HandleOk) \<and>
     snd (Handler demoEnv m' (demoRaw\<lparr>fc_Request := demoReq\<lparr>rq_PathOriginal := ''/users/ann''\<rparr>\<rparr>)) =
       runRoute demoEnv (newMux assocOps) ''/users/{id}'' (\<lambda>c. (c, None)) ctx' \<and>
     fc_UserValues ctx' ''id'' = Some (UString ''ann'')"
proof -
  let ?r = "(''/users/'', [(''id'', [])])" and ?ctx = "demoRaw\<lparr>fc_Request := demoReq\<lparr>rq_PathOriginal := ''/users/ann''\<rparr>\<rparr>"
  have ok: "routeOk ?r" by code_simp
  have tx: "routeText ?r = ''/users/{id}''" by code_simp
  have q: "qmark \<notin> set (routeText ?r)" unfolding tx by code_simp
  have inv: "muxInv (newMux assocOps)" by (rule inv_New)
  have new: "\<not> hasTree (newMux assocOps) ''GET''" by (simp add: hasTree_def newMux_def MethodIndexOf_def)
  have path: "stripBasePath (e_uf demoEnv) (snd (BasePath (newMux assocOps))) (rq_PathOriginal (fc_Request ?ctx)) = ''/users/ann''"
    by (simp add: demoReq_def BasePath_eq newMux_def defaultRouterOptions_def fixBasePath_def stripBasePath_def Let_def)
  have inst: "routeInst ?r [''ann''] ''/users/ann''" by (simp add: routeInst_def)
  have c: "Chain (newMux assocOps) (\<lambda>c. (c, None)) = (\<lambda>c. (c, None))" by (simp add: Chain_def newMux_def)
  have rx: "e_rx demoEnv = noMatch" by (simp add: demoEnv_def)
  from param_route_served [OF insertion.node_sort_axioms inv _ _ new ok q, of ?ctx "[''ann'']" demoEnv "\<lambda>c. (c, None)"]
  show ?thesis unfolding path tx c rx using inst by (auto simp: demoReq_def)
qed

end
