(* ===== verification/RealIP.thy ===== *)
theory RealIP
  imports Trust
begin

text \<open>
  The middleware of \<open>src/middleware/realip.go\<close>. A request is seen through the two header accesses of
  the server library, \<open>ctx.Header.Get\<close> (\<open>hget\<close>) and \<open>Header.PeekAll\<close> (\<open>peekAll\<close>), and its peer address.
  \<open>ffLoop\<close> is the loop over \<open>ForwardLimit\<close>: it walks from the right over the entries of the joined
  \<open>X-Forwarded-For\<close> header, cutting the header at the comma it found last.
\<close>

record ipRequest =
  remoteAddr :: netAddr
  hget :: "bytes \<Rightarrow> bytes"
  peekAll :: "bytes \<Rightarrow> bytes list"

abbreviation HeaderXForwardedFor :: bytes where "HeaderXForwardedFor \<equiv> ''X-Forwarded-For''"

definition realIP :: "(bytes \<Rightarrow> ip option) \<Rightarrow> ipRequest \<Rightarrow> bytes \<Rightarrow> ip option" where
  "realIP pip ctx header = (let xrip = hget ctx header in if length xrip > 0 then pip xrip else None)"

text \<open>Length of the run of spaces at the front.\<close>

definition spaces :: "bytes \<Rightarrow> nat" where
  "spaces s = length (takeWhile (\<lambda>c. c = space) s)"

fun ffLoop :: "nat \<Rightarrow> bytes \<Rightarrow> nat \<Rightarrow> nat \<Rightarrow> bytes \<times> nat" where
  "ffLoop 0 xff p c = (xff, p)"
| "ffLoop (Suc i) xff p c =
     (let xff = (if p - c > 0 then take (p - c) xff else xff) in
      case LastIndex xff [comma] of
        None \<Rightarrow> (xff, 0)
      | Some q \<Rightarrow> (let n = spaces (drop (q + 1) xff) in ffLoop i xff (q + 1 + n) (1 + n)))"

definition forwardedEntry :: "int \<Rightarrow> bytes \<Rightarrow> bytes" where
  "forwardedEntry limit xff =
     (let (xff, p) = ffLoop (nat limit) xff 0 0; p = p + spaces (drop p xff) in drop p xff)"

definition forwardedFor :: "(bytes \<Rightarrow> ip option) \<Rightarrow> ProxyOptions \<Rightarrow> ipRequest \<Rightarrow> ip option" where
  "forwardedFor pip opts ctx =
     (let values = peekAll ctx HeaderXForwardedFor in
      if values = [] then None
      else let xff = Join values '', '' in
           if length xff > 0 then pip (forwardedEntry (po_ForwardLimit opts) xff) else None)"

fun firstTrustedHeader ::
  "(bytes \<Rightarrow> ip option) \<Rightarrow> (rune \<Rightarrow> rune \<Rightarrow> bool) \<Rightarrow> ProxyOptions \<Rightarrow> ipRequest \<Rightarrow> bytes list \<Rightarrow> netAddr" where
  "firstTrustedHeader pip uf opts ctx [] = remoteAddr ctx"
| "firstTrustedHeader pip uf opts ctx (header # headers) =
     (case (if EqualFold uf header HeaderXForwardedFor then forwardedFor pip opts ctx
            else realIP pip ctx header) of
        Some a \<Rightarrow> TCPAddr a
      | None \<Rightarrow> firstTrustedHeader pip uf opts ctx headers)"

definition realIPOrForwardedFor ::
  "(bytes \<Rightarrow> ip option) \<Rightarrow> (rune \<Rightarrow> rune \<Rightarrow> bool) \<Rightarrow> ProxyOptions \<Rightarrow> ipRequest \<Rightarrow> netAddr" where
  "realIPOrForwardedFor pip uf opts ctx =
     (if \<not> IsTrustedProxy opts (remoteAddr ctx) then remoteAddr ctx
      else firstTrustedHeader pip uf opts ctx (po_TrustedHeaders opts))"

text \<open>The middleware replaces the peer address and calls the next handler.\<close>

definition RealIPMiddleware ::
  "(bytes \<Rightarrow> ip option) \<Rightarrow> (rune \<Rightarrow> rune \<Rightarrow> bool) \<Rightarrow> ProxyOptions \<Rightarrow> (ipRequest \<Rightarrow> 'r) \<Rightarrow> ipRequest \<Rightarrow> 'r" where
  "RealIPMiddleware pip uf opts nxt ctx = nxt (ctx\<lparr>remoteAddr := realIPOrForwardedFor pip uf opts ctx\<rparr>)"

section \<open>Entries from the right\<close>

lemma Join_snoc: "ws \<noteq> [] \<Longrightarrow> Join (ws @ [w]) sep = Join ws sep @ sep @ w"
  by (induction ws sep rule: Join.induct) auto

lemma Join_nonempty: "ws \<noteq> [] \<Longrightarrow> hd ws \<noteq> [] \<Longrightarrow> Join ws sep \<noteq> []"
  by (cases "(ws, sep)" rule: Join.cases) auto

definition plainEntry :: "bytes \<Rightarrow> bool" where
  "plainEntry e \<longleftrightarrow> e \<noteq> [] \<and> comma \<notin> set e \<and> hd e \<noteq> space"

lemma spaces_plain: "plainEntry e \<Longrightarrow> spaces e = 0" "plainEntry e \<Longrightarrow> spaces (space # e) = 1"
  by (cases e; simp add: plainEntry_def spaces_def)+

lemma ffLoop_step:
  assumes "fs \<noteq> []" "plainEntry e" "(if p - c > 0 then take (p - c) xff else xff) = Join (fs @ [e]) '', ''"
  shows "ffLoop (Suc k) xff p c = ffLoop k (Join (fs @ [e]) '', '') (length (Join fs '', '') + 2) 2"
proof -
  let ?x = "Join (fs @ [e]) '', ''"
  have x: "?x = Join fs '', '' @ comma # space # e" using Join_snoc [OF assms(1), of e] by simp
  have "comma \<notin> set (space # e)" using assms(2) by (auto simp: plainEntry_def)
  then have "LastIndex ?x [comma] = Some (length (Join fs '', ''))"
    unfolding x by (rule LastIndex_byte_append)
  moreover have "spaces (drop (length (Join fs '', '') + 1) ?x) = 1"
    using assms(2) by (simp add: x spaces_plain)
  ultimately show ?thesis unfolding ffLoop.simps assms(3) Let_def by (simp add: numeral_2_eq_2)
qed

lemma ffLoop_one:
  assumes "plainEntry e" "(if p - c > 0 then take (p - c) xff else xff) = e"
  shows "ffLoop (Suc k) xff p c = (e, 0)"
proof -
  have "LastIndex e [comma] = None" using assms(1) by (simp add: plainEntry_def LastIndex_byte_None)
  then show ?thesis unfolding ffLoop.simps assms(2) Let_def by simp
qed

lemma ffLoop_entries:
  assumes "es \<noteq> []" "\<forall>e \<in> set es. plainEntry e"
    and "(if p - c > 0 then take (p - c) xff else xff) = Join es '', ''"
  shows "\<exists>x' p'. ffLoop (Suc k) xff p c = (x', p') \<and> drop p' x' = es ! (length es - min (Suc k) (length es))"
  using assms
proof (induction k arbitrary: es xff p c)
  case (0 es xff p c)
  obtain fs e where es: "es = fs @ [e]" using 0(1) by (meson rev_exhaust)
  show ?case
  proof (cases "fs = []")
    case True
    with 0 es ffLoop_one [of e p c xff 0] show ?thesis by simp
  next
    case False
    with 0 es ffLoop_step [OF False, of e p c xff 0] Join_snoc [OF False, of e "'', ''"] show ?thesis by simp
  qed
next
  case (Suc k es xff p c)
  obtain fs e where es: "es = fs @ [e]" using Suc.prems(1) by (meson rev_exhaust)
  show ?case
  proof (cases "fs = []")
    case True
    with Suc.prems es ffLoop_one [of e p c xff "Suc k"] show ?thesis by simp
  next
    case False
    let ?q = "length (Join fs '', '')"
    have fs: "\<forall>e \<in> set fs. plainEntry e" "hd fs \<noteq> []"
      using Suc.prems(2) False by (auto simp: es plainEntry_def)
    have "take ?q (Join es '', '') = Join fs '', ''" using Join_snoc [OF False, of e] by (simp add: es)
    then have cut: "(if ?q + 2 - 2 > 0 then take (?q + 2 - 2) (Join es '', '') else Join es '', '') = Join fs '', ''"
      using Join_nonempty [OF False fs(2)] by simp
    have "ffLoop (Suc (Suc k)) xff p c = ffLoop (Suc k) (Join es '', '') (?q + 2) 2"
      using ffLoop_step [OF False, of e p c xff "Suc k"] Suc.prems es by simp
    moreover have "es ! (length es - min (Suc (Suc k)) (length es)) = fs ! (length fs - min (Suc k) (length fs))"
    proof -
      have "length es - min (Suc (Suc k)) (length es) = length fs - min (Suc k) (length fs)"
        by (simp add: es min_def)
      moreover have "length fs - min (Suc k) (length fs) < length fs" using False by simp
      ultimately show ?thesis by (simp only: es nth_append if_True)
    qed
    ultimately show ?thesis using Suc.IH [OF False fs(1) cut] by (simp del: ffLoop.simps)
  qed
qed

section \<open>Properties\<close>

text \<open>
  C8 With a positive forward limit \<open>k\<close>, the address taken from \<open>X-Forwarded-For\<close> is the \<open>k\<close>-th entry from
  the right, counted over all header lines together, and the first entry when there are fewer than
  \<open>k\<close>: entries further left, which a client can forge, are never looked at.
\<close>

theorem forwarded_for_kth:
  assumes "po_ForwardLimit opts = int k" "0 < k" "es \<noteq> []" "\<forall>e \<in> set es. plainEntry e"
    and "Join (peekAll ctx HeaderXForwardedFor) '', '' = Join es '', ''" "peekAll ctx HeaderXForwardedFor \<noteq> []"
  shows "forwardedFor pip opts ctx = pip (es ! (length es - min k (length es)))"
proof -
  let ?e = "es ! (length es - min k (length es))"
  obtain m where m: "k = Suc m" using assms(2) by (cases k) auto
  obtain x' p' where l: "ffLoop k (Join es '', '') 0 0 = (x', p')" "drop p' x' = ?e"
    using ffLoop_entries [of es 0 0 "Join es '', ''" m] assms(3,4) by (auto simp: m)
  have "?e \<in> set es" using assms(2,3) by (intro nth_mem) (cases es; simp)
  then have "spaces ?e = 0" using assms(4) spaces_plain(1) by blast
  with l have "forwardedEntry (int k) (Join es '', '') = ?e" by (simp add: forwardedEntry_def)
  moreover have "Join es '', '' \<noteq> []" using Join_nonempty [OF assms(3)] assms(3,4) by (auto simp: plainEntry_def)
  ultimately show ?thesis using assms(1,5,6) by (simp add: forwardedFor_def)
qed

theorem forwarded_for_kth_witness:
  "forwardedFor (\<lambda>s. if s = ''10.1.1.1'' then Some [10, 1, 1, 1] else None) (defaultProxyOptions\<lparr>po_ForwardLimit := 2\<rparr>)
     \<lparr>remoteAddr = TCPAddr [127, 0, 0, 1], hget = (\<lambda>_. []), peekAll = (\<lambda>_. [''6.6.6.6, 10.1.1.1'', ''10.2.2.2''])\<rparr>
   = Some [10, 1, 1, 1]"
proof -
  let ?pip = "\<lambda>s. if s = ''10.1.1.1'' then Some [10, 1, 1, 1 :: 8 word] else None"
  let ?ctx = "\<lparr>remoteAddr = TCPAddr [127, 0, 0, 1], hget = (\<lambda>_. []),
    peekAll = (\<lambda>_. [''6.6.6.6, 10.1.1.1'', ''10.2.2.2''])\<rparr>"
  have "forwardedFor ?pip (defaultProxyOptions\<lparr>po_ForwardLimit := 2\<rparr>) ?ctx =
      ?pip ([''6.6.6.6'', ''10.1.1.1'', ''10.2.2.2''] ! (length [''6.6.6.6'', ''10.1.1.1'', ''10.2.2.2''] -
        min 2 (length [''6.6.6.6'', ''10.1.1.1'', ''10.2.2.2''])))"
    by (rule forwarded_for_kth) (simp_all add: plainEntry_def)
  then show ?thesis by simp
qed

text \<open>
  C9 A peer that is not a trusted proxy cannot change its address: whatever headers it sends, the
  middleware calls the next handler with the request unchanged.
\<close>

theorem real_ip_untrusted:
  assumes "\<not> IsTrustedProxy opts (remoteAddr ctx)"
  shows "RealIPMiddleware pip uf opts nxt ctx = nxt ctx"
  using assms by (simp add: RealIPMiddleware_def realIPOrForwardedFor_def)

theorem real_ip_untrusted_witness:
  "RealIPMiddleware (\<lambda>_. Some [9, 9, 9, 9]) (\<lambda>_ _. False) (defaultProxyOptions\<lparr>po_TrustedHeaders := [''X-Real-IP'']\<rparr>)
     remoteAddr \<lparr>remoteAddr = TCPAddr [6, 6, 6, 6], hget = (\<lambda>_. ''9.9.9.9''), peekAll = (\<lambda>_. [])\<rparr> = TCPAddr [6, 6, 6, 6]"
proof -
  have "\<not> IsTrustedProxy (defaultProxyOptions\<lparr>po_TrustedHeaders := [''X-Real-IP'']\<rparr>) (TCPAddr [6, 6, 6, 6])"
    by code_simp
  then show ?thesis by (subst real_ip_untrusted) simp_all
qed

end
