(* ===== verification/Rate_Limit.thy ===== *)
theory Rate_Limit
  imports Error_Handler
begin

text \<open>
  Rate limiting: the middleware of \<open>src/middleware/ratelimit.go\<close> and its configuration
  \<open>src/config/ratelimit.go\<close>.

  The limiters of the core library are the parameter \<open>limiterLib\<close>: two constructors and \<open>AllowLimit\<close>, which
  returns the limiter as it is afterwards. Rates are of any type \<open>'f\<close> with a formatter; durations and times are
  nanoseconds, \<open>now\<close> is the clock. The header names come from the core library and are a parameter too. The atomic
  pointer of the middleware is the option that its handler takes and returns; its creation by many requests
  at once is a step relation.
\<close>

section \<open>Configuration\<close>

datatype limiterOption = WaitLimit int | Instrumenter

record 'f RateLimitConfig =
  rl_Enabled :: bool
  rl_Strategy :: bytes
  rl_Limit :: int
  rl_Window :: int
  rl_Rate :: 'f
  rl_Burst :: int
  rl_WaitLimit :: int

record rlResult =
  Allowed :: bool
  Remaining :: int
  ResetAt :: int
  RetryAfter :: int

record ('f, 'l) limiterLib =
  NewFixedWindow :: "bytes \<Rightarrow> int \<Rightarrow> int \<Rightarrow> limiterOption list \<Rightarrow> goErr + 'l"
  NewTokenBucket :: "bytes \<Rightarrow> 'f \<Rightarrow> int \<Rightarrow> limiterOption list \<Rightarrow> goErr + 'l"
  AllowLimit :: "'l \<Rightarrow> bytes \<Rightarrow> int \<Rightarrow> (goErr + rlResult) \<times> 'l"

definition newLimiter ::
  "('f, 'l) limiterLib \<Rightarrow> 'f RateLimitConfig \<Rightarrow> bytes \<Rightarrow> limiterOption list \<Rightarrow> goErr + 'l" where
  "newLimiter lib c name opts =
     (let o' = (if rl_WaitLimit c > 0 then [WaitLimit (rl_WaitLimit c)] else []) @ opts in
      if rl_Strategy c = ''fixed-window'' then NewFixedWindow lib name (rl_Limit c) (rl_Window c) o'
      else if rl_Strategy c = ''token-bucket'' then NewTokenBucket lib name (rl_Rate c) (rl_Burst c) o'
      else Inl (plainErr ''unsupported rate limiter strategy''))"

section \<open>The error\<close>

definition second :: int where
  "second = 1000000000"

definition formatSeconds :: "int \<Rightarrow> bytes" where
  "formatSeconds d =
     (if d \<le> 0 then ''0''
      else let s = d div second; s = (if d mod second \<noteq> 0 then s + 1 else s) in showInt s)"

record rlNames =
  h_Limit :: bytes
  h_Policy :: bytes
  h_Remaining :: bytes
  h_Reset :: bytes
  h_RetryAfter :: bytes

definition rateLimitError :: "rlNames \<Rightarrow> rlResult \<Rightarrow> bool \<Rightarrow> goErr" where
  "rateLimitError hn res emit = (plainErr ''rate limit exceeded'')
     \<lparr>e_StatusCode := Some 429, e_Safe := Some (''RateLimitError'', ''rate limit exceeded''),
      e_Headers := Some (if emit \<and> RetryAfter res > 0 then [(h_RetryAfter hn, formatSeconds (RetryAfter res))] else [])\<rparr>"

section \<open>The middleware\<close>

record ('r, 'f) rateLimitMiddleware =
  m_config :: "'f RateLimitConfig"
  m_name :: bytes
  m_emitHeaders :: bool
  m_keyGenerator :: "'r Ctx \<Rightarrow> goErr + bytes"
  m_limitFunc :: "('r Ctx \<Rightarrow> int) option"
  m_defaultLimit :: int
  m_policyPrefix :: bytes

datatype 'r RateLimitOption =
    DisableRateLimitHeaders
  | RateLimitKeyGenerator "'r Ctx \<Rightarrow> goErr + bytes"
  | RateLimitName bytes
  | RateLimitResolver "('r Ctx \<Rightarrow> int) option"

fun applyRateLimit :: "'r RateLimitOption \<Rightarrow> ('r, 'f) rateLimitMiddleware \<Rightarrow> ('r, 'f) rateLimitMiddleware" where
  "applyRateLimit DisableRateLimitHeaders opt = opt\<lparr>m_emitHeaders := False\<rparr>"
| "applyRateLimit (RateLimitKeyGenerator o') opt = opt\<lparr>m_keyGenerator := o'\<rparr>"
| "applyRateLimit (RateLimitName o') opt = opt\<lparr>m_name := o'\<rparr>"
| "applyRateLimit (RateLimitResolver o') opt = opt\<lparr>m_limitFunc := o'\<rparr>"

text \<open>The key of a request; \<open>ipString\<close> is the text of an address, nil included.\<close>

definition defaultRateLimitKey :: "(ip option \<Rightarrow> bytes) \<Rightarrow> 'r Ctx \<Rightarrow> goErr + bytes" where
  "defaultRateLimitKey ipString ctx =
     (case contextUser ctx of
        Some u \<Rightarrow>
          if u_Authorized u \<and> u_ID u \<noteq> [] then Inr (''user:'' @ u_ID u)
          else Inr (''ip:'' @ ipString (contextIP (rq_RemoteAddr (c_Request ctx))))
      | None \<Rightarrow> Inr (''ip:'' @ ipString (contextIP (rq_RemoteAddr (c_Request ctx)))))"

text \<open>\<open>RateLimit\<close>: without a middleware the next handler is used as it is.\<close>

definition RateLimit ::
  "('f \<Rightarrow> bytes) \<Rightarrow> (ip option \<Rightarrow> bytes) \<Rightarrow> 'f RateLimitConfig option \<Rightarrow> 'r RateLimitOption list \<Rightarrow>
   ('r, 'f) rateLimitMiddleware option" where
  "RateLimit fmtRate ipString c opts =
     (case c of
        None \<Rightarrow> None
      | Some c \<Rightarrow>
          if \<not> rl_Enabled c then None
          else let m = \<lparr>m_config = c, m_name = ''global'', m_emitHeaders = True,
                     m_keyGenerator = defaultRateLimitKey ipString, m_limitFunc = None, m_defaultLimit = 0,
                     m_policyPrefix = []\<rparr>;
                   m = foldl (\<lambda>m opt. applyRateLimit opt m) m opts
               in Some (if rl_Strategy c = ''fixed-window''
                        then m\<lparr>m_defaultLimit := rl_Limit c,
                               m_policyPrefix := ''fixed-window;w='' @ formatSeconds (rl_Window c) @ '';q=''\<rparr>
                        else if rl_Strategy c = ''token-bucket''
                        then m\<lparr>m_defaultLimit := rl_Burst c,
                               m_policyPrefix := ''token-bucket;rate='' @ fmtRate (rl_Rate c) @ '';burst=''\<rparr>
                        else m))"

definition getLimiter ::
  "('f, 'l) limiterLib \<Rightarrow> ('r, 'f) rateLimitMiddleware \<Rightarrow> 'l option \<Rightarrow> (goErr + 'l) \<times> 'l option" where
  "getLimiter lib m st =
     (case st of
        Some l \<Rightarrow> (Inr l, st)
      | None \<Rightarrow> (case newLimiter lib (m_config m) (m_name m) [Instrumenter] of
                   Inl e \<Rightarrow> (Inl e, st)
                 | Inr l \<Rightarrow> (Inr l, Some l)))"

text \<open>\<open>time.Until\<close> saturates at the ends of a 64-bit duration.\<close>

definition timeUntil :: "int \<Rightarrow> int \<Rightarrow> int" where
  "timeUntil now t = max (- (2 ^ 63)) (min (2 ^ 63 - 1) (t - now))"

definition setHeaders ::
  "'r respOps \<Rightarrow> rlNames \<Rightarrow> int \<Rightarrow> ('r, 'f) rateLimitMiddleware \<Rightarrow> rlResult \<Rightarrow> int \<Rightarrow> 'r Ctx \<Rightarrow> 'r Ctx" where
  "setHeaders ro hn now m res effLimit ctx =
     (let ctx = (if effLimit > 0
                 then (let ctx = headerSetAlways ro (h_Limit hn) (showInt effLimit) ctx in
                       if m_policyPrefix m \<noteq> [] then headerSetAlways ro (h_Policy hn) (m_policyPrefix m @ showInt effLimit) ctx
                       else ctx)
                 else ctx);
          ctx = headerSetAlways ro (h_Remaining hn) (showInt (max (Remaining res) 0)) ctx
      in headerSetAlways ro (h_Reset hn) (formatSeconds (timeUntil now (ResetAt res))) ctx)"

definition isPreflight :: "'r Ctx \<Rightarrow> bool" where
  "isPreflight ctx \<longleftrightarrow> fc_UserValues (c_context ctx) ''__cors_preflight'' = Some (UBool True)"

definition customLimit :: "('r, 'f) rateLimitMiddleware \<Rightarrow> 'r Ctx \<Rightarrow> int" where
  "customLimit m ctx = (case m_limitFunc m of Some f \<Rightarrow> f ctx | None \<Rightarrow> 0)"

definition effectiveLimit :: "('r, 'f) rateLimitMiddleware \<Rightarrow> int \<Rightarrow> int" where
  "effectiveLimit m limit = (if limit > 0 then limit else m_defaultLimit m)"

definition rateLimitHandler ::
  "('f, 'l) limiterLib \<Rightarrow> rlNames \<Rightarrow> int \<Rightarrow> 'r srvEnv \<Rightarrow> 'r RouterOptions \<Rightarrow> ('r, 'f) rateLimitMiddleware \<Rightarrow>
   'r RequestHandler \<Rightarrow> 'l option \<Rightarrow> 'r Ctx \<Rightarrow> 'l option \<times> 'r Ctx \<times> panicVal option" where
  "rateLimitHandler lib hn now ev ropts m next st ctx =
     (if isPreflight ctx then (st, next ctx)
      else case getLimiter lib m st of
        (Inl err, st) \<Rightarrow> (st, ctxError ev ropts (Some err) ctx)
      | (Inr limiter, st) \<Rightarrow>
          (case m_keyGenerator m ctx of
             Inl err \<Rightarrow> (st, ctxError ev ropts (Some err) ctx)
           | Inr key \<Rightarrow>
               if key = [] then (st, ctxError ev ropts (Some (plainErr ''rate limit key is empty'')) ctx)
               else let limit = customLimit m ctx in
                 (case AllowLimit lib limiter key limit of
                    (Inl err, limiter) \<Rightarrow> (Some limiter, ctxError ev ropts (Some err) ctx)
                  | (Inr res, limiter) \<Rightarrow>
                      let ctx = (if m_emitHeaders m then setHeaders (e_ro ev) hn now m res (effectiveLimit m limit) ctx else ctx) in
                      if \<not> Allowed res
                      then (Some limiter, ctxError ev ropts (Some (rateLimitError hn res (m_emitHeaders m))) ctx)
                      else (Some limiter, next ctx))))"

section \<open>Requests over the limit\<close>

lemma setHeaders_always:
  "fst ` set (c_alwaysHeaders (setHeaders ro hn now m res eff c)) \<subseteq>
     {h_Limit hn, h_Policy hn, h_Remaining hn, h_Reset hn} \<union> fst ` set (c_alwaysHeaders c)"
  "h_Remaining hn \<in> fst ` set (c_alwaysHeaders (setHeaders ro hn now m res eff c))"
  "0 < eff \<Longrightarrow> h_Limit hn \<in> fst ` set (c_alwaysHeaders (setHeaders ro hn now m res eff c))"
  by (auto simp: setHeaders_def Let_def)

definition rlDistinct :: "rlNames \<Rightarrow> bool" where
  "rlDistinct hn \<longleftrightarrow>
     (let ks = [h_Limit hn, h_Policy hn, h_Remaining hn, h_Reset hn, h_RetryAfter hn] in
      distinct (map lowerKey ks) \<and> (\<forall>k \<in> set ks. \<not> specialKey k))"

context response_store
begin

lemma setHeaders_peek:
  assumes "rlDistinct hn"
  shows "r_PeekHeader ro (h_Remaining hn) (c_Response (setHeaders ro hn now m res eff c)) = showInt (max (Remaining res) 0)"
    "r_PeekHeader ro (h_Reset hn) (c_Response (setHeaders ro hn now m res eff c)) = formatSeconds (timeUntil now (ResetAt res))"
    "0 < eff \<Longrightarrow> r_PeekHeader ro (h_Limit hn) (c_Response (setHeaders ro hn now m res eff c)) = showInt eff"
  using assms by (auto simp: rlDistinct_def setHeaders_def Let_def peek_set)

lemma errHeaders_set:
  assumes "\<not> specialKey k" "e_Headers err = Some [(k, v)]"
  shows "r_PeekHeader ro k (c_Response (setErrorHeaders ro err c)) = v"
  using assms by (simp add: setErrorHeaders_def peek_set)

lemma default_peek_set:
  assumes "e_ro ev = ro" "\<not> specialKey k" "e_Headers err = Some [(k, v)]"
  shows "r_PeekHeader ro k (c_Response (defaultError ev ct err c)) = v"
  using assms(1,2) errHeaders_set [OF assms(2,3)] render_peek [OF assms(1,2)]
  by (auto simp: defaultError_def Let_def split: option.splits)

text \<open>A header registered before the request was refused is still on the response.\<close>

lemma reject_kept:
  assumes "e_ro ev = ro" "rlDistinct hn" "k \<in> {h_Limit hn, h_Remaining hn, h_Reset hn}"
    and "k \<in> fst ` set (c_alwaysHeaders c)"
    and "\<forall>n \<in> fst ` set (c_alwaysHeaders c). lowerKey n = lowerKey k \<longrightarrow> n = k"
  shows "r_PeekHeader ro k (c_Response (defaultError ev ct (rateLimitError hn res emit) (resetForError ro c)))
    = r_PeekHeader ro k (c_Response c)"
proof -
  have k: "\<not> specialKey k" "lowerKey (h_RetryAfter hn) \<noteq> lowerKey k"
    using assms(2,3) by (auto simp: rlDistinct_def Let_def)
  then show ?thesis
    using default_peek [OF assms(1) k(1)] kept_value [OF k(1) assms(4,5)]
    by (auto simp: rateLimitError_def)
qed

end

lemma rateLimitError_sel [simp]:
  "errorStatus (rateLimitError hn res emit) = 429"
  "e_Headers (rateLimitError hn res emit) =
     Some (if emit \<and> RetryAfter res > 0 then [(h_RetryAfter hn, formatSeconds (RetryAfter res))] else [])"
  by (simp_all add: rateLimitError_def errorStatus_def)

text \<open>\<open>formatSeconds\<close> rounds up.\<close>

lemma formatSeconds_ceil:
  assumes "0 < d"
  shows "\<exists>s. formatSeconds d = showInt s \<and> 0 < s \<and> (s - 1) * second < d \<and> d \<le> s * second"
proof -
  define q r where "q = d div second" and "r = d mod second"
  define s where "s = (if r \<noteq> 0 then q + 1 else q)"
  have r: "0 \<le> r" "r < second" and d: "d = q * second + r"
    by (simp_all add: q_def r_def second_def)
  have q: "0 \<le> q" using assms by (simp add: q_def second_def pos_imp_zdiv_nonneg_iff)
  have "(s - 1) * second < d \<and> d \<le> s * second"
  proof (cases "r = 0")
    case True
    then show ?thesis using r(2) by (simp add: s_def d left_diff_distrib)
  next
    case False
    then show ?thesis using r by (simp add: s_def d distrib_right)
  qed
  moreover have "0 < s" using assms q r d by (cases "q = 0") (auto simp: s_def)
  moreover have "formatSeconds d = showInt s"
    using assms by (simp add: formatSeconds_def s_def q_def r_def Let_def)
  ultimately show ?thesis by blast
qed

section \<open>Many requests at once\<close>

text \<open>
  The steps of \<open>getLimiter\<close> in goroutines that share the atomic pointer and the mutex; \<open>mk n\<close> is what the
  \<open>n\<close>-th call of the constructor returns.
\<close>

datatype 'l pc = Start | Locking | Checking | Making | Storing 'l | Unlocking 'l | Failing | Got 'l | Err

record 'l shared =
  sh_ptr :: "'l option"
  sh_owner :: "nat option"
  sh_made :: nat
  sh_pc :: "nat \<Rightarrow> 'l pc"

definition goto :: "nat \<Rightarrow> 'l pc \<Rightarrow> 'l shared \<Rightarrow> 'l shared" where
  "goto t p s = s\<lparr>sh_pc := (sh_pc s)(t := p)\<rparr>"

inductive getStep :: "(nat \<Rightarrow> goErr + 'l) \<Rightarrow> 'l shared \<Rightarrow> 'l shared \<Rightarrow> bool" for mk where
  load_hit: "sh_pc s t = Start \<Longrightarrow> sh_ptr s = Some l \<Longrightarrow> getStep mk s (goto t (Got l) s)"
| load_miss: "sh_pc s t = Start \<Longrightarrow> sh_ptr s = None \<Longrightarrow> getStep mk s (goto t Locking s)"
| lock: "sh_pc s t = Locking \<Longrightarrow> sh_owner s = None \<Longrightarrow> getStep mk s (goto t Checking (s\<lparr>sh_owner := Some t\<rparr>))"
| check_hit: "sh_pc s t = Checking \<Longrightarrow> sh_ptr s = Some l \<Longrightarrow> getStep mk s (goto t (Unlocking l) s)"
| check_miss: "sh_pc s t = Checking \<Longrightarrow> sh_ptr s = None \<Longrightarrow> getStep mk s (goto t Making s)"
| make_ok: "sh_pc s t = Making \<Longrightarrow> mk (sh_made s) = Inr l \<Longrightarrow>
    getStep mk s (goto t (Storing l) (s\<lparr>sh_made := Suc (sh_made s)\<rparr>))"
| make_err: "sh_pc s t = Making \<Longrightarrow> mk (sh_made s) = Inl e \<Longrightarrow>
    getStep mk s (goto t Failing (s\<lparr>sh_made := Suc (sh_made s)\<rparr>))"
| store: "sh_pc s t = Storing l \<Longrightarrow> getStep mk s (goto t (Unlocking l) (s\<lparr>sh_ptr := Some l\<rparr>))"
| unlock: "sh_pc s t = Unlocking l \<Longrightarrow> getStep mk s (goto t (Got l) (s\<lparr>sh_owner := None\<rparr>))"
| unlock_err: "sh_pc s t = Failing \<Longrightarrow> getStep mk s (goto t Err (s\<lparr>sh_owner := None\<rparr>))"

inductive_cases getStepE: "getStep mk s s'"

definition getStart :: "'l shared" where
  "getStart = \<lparr>sh_ptr = None, sh_owner = None, sh_made = 0, sh_pc = (\<lambda>_. Start)\<rparr>"

inductive getReach :: "(nat \<Rightarrow> goErr + 'l) \<Rightarrow> 'l shared \<Rightarrow> bool" for mk where
  start: "getReach mk getStart"
| step: "getReach mk s \<Longrightarrow> getStep mk s s' \<Longrightarrow> getReach mk s'"

text \<open>
  The mutex is held by the goroutines between lock and unlock, nothing is made or stored once the pointer is
  set, and what a goroutine holds as the limiter is what the pointer points to.
\<close>

fun inCritical :: "'l pc \<Rightarrow> bool" where
  "inCritical Checking = True"
| "inCritical Making = True"
| "inCritical (Storing _) = True"
| "inCritical (Unlocking _) = True"
| "inCritical Failing = True"
| "inCritical _ = False"

fun holds :: "'l pc \<Rightarrow> 'l option" where
  "holds (Unlocking l) = Some l"
| "holds (Got l) = Some l"
| "holds _ = None"

definition getInv :: "'l shared \<Rightarrow> bool" where
  "getInv s \<longleftrightarrow> (\<forall>t. inCritical (sh_pc s t) \<longleftrightarrow> sh_owner s = Some t) \<and>
     (\<forall>t. sh_pc s t = Making \<or> (\<exists>l. sh_pc s t = Storing l) \<longrightarrow> sh_ptr s = None) \<and>
     (\<forall>t l. holds (sh_pc s t) = Some l \<longrightarrow> sh_ptr s = Some l)"

lemma getInvD:
  assumes "getInv s"
  shows "inCritical (sh_pc s t) \<longleftrightarrow> sh_owner s = Some t" "sh_pc s t = Making \<Longrightarrow> sh_ptr s = None"
    "sh_pc s t = Storing l \<Longrightarrow> sh_ptr s = None" "holds (sh_pc s t) = Some l \<Longrightarrow> sh_ptr s = Some l"
  using assms by (auto simp: getInv_def)

lemma getInv_alone:
  assumes "getInv s" "inCritical (sh_pc s t)" "t' \<noteq> t"
  shows "\<not> inCritical (sh_pc s t')" "sh_pc s t' \<noteq> Making" "sh_pc s t' \<noteq> Storing l"
proof -
  show c: "\<not> inCritical (sh_pc s t')"
    using getInvD(1) [OF assms(1), of t] getInvD(1) [OF assms(1), of t'] assms(2,3) by auto
  from c show "sh_pc s t' \<noteq> Making" "sh_pc s t' \<noteq> Storing l" by auto
qed

lemma getInv_move:
  assumes "getInv s" "sh_pc s' = (sh_pc s)(t := p)" "sh_ptr s' = sh_ptr s"
    and "\<And>t'. t' \<noteq> t \<Longrightarrow> sh_owner s' = Some t' \<longleftrightarrow> sh_owner s = Some t'"
    and "inCritical p \<longleftrightarrow> sh_owner s' = Some t"
    and "p = Making \<or> (\<exists>l. p = Storing l) \<Longrightarrow> sh_ptr s = None"
    and "\<And>l. holds p = Some l \<Longrightarrow> sh_ptr s = Some l"
  shows "getInv s'"
  unfolding getInv_def
proof (intro conjI allI impI)
  fix t'
  show "inCritical (sh_pc s' t') \<longleftrightarrow> sh_owner s' = Some t'"
    using assms(2,4,5) getInvD(1) [OF assms(1)] by (cases "t' = t") auto
  show "sh_ptr s' = None" if "sh_pc s' t' = Making \<or> (\<exists>l. sh_pc s' t' = Storing l)"
    using that assms(2,3,6) getInvD(2,3) [OF assms(1), of t'] by (cases "t' = t") auto
  show "sh_ptr s' = Some l" if "holds (sh_pc s' t') = Some l" for l
    using that assms(2,3,7) getInvD(4) [OF assms(1), of t'] by (cases "t' = t") auto
qed

lemma getInv_step: "getStep mk s s' \<Longrightarrow> getInv s \<Longrightarrow> getInv s'"
proof (induction rule: getStep.induct)
  case (store s t l)
  have c: "inCritical (sh_pc s t)" "sh_ptr s = None" using store getInvD(3) by auto
  from c(2) have "holds (sh_pc s t') = None" for t'
    using getInvD(4) [OF store.prems] by (cases "holds (sh_pc s t')") auto
  with c show ?case
    using store getInv_alone(2,3) [OF store.prems c(1)] by (auto simp: getInv_def goto_def)
next
  case (load_hit s t l)
  show ?case
    by (rule getInv_move [OF load_hit.prems, of _ t "Got l"])
      (use load_hit getInvD(1,2,4) [of s t] in \<open>auto simp: goto_def\<close>)
next
  case (load_miss s t)
  show ?case
    by (rule getInv_move [OF load_miss.prems, of _ t Locking])
      (use load_miss getInvD(1,2,4) [of s t] in \<open>auto simp: goto_def\<close>)
next
  case (lock s t)
  show ?case
    by (rule getInv_move [OF lock.prems, of _ t Checking])
      (use lock getInvD(1,2,4) [of s t] in \<open>auto simp: goto_def\<close>)
next
  case (check_hit s t l)
  show ?case
    by (rule getInv_move [OF check_hit.prems, of _ t "Unlocking l"])
      (use check_hit getInvD(1) [of s t] in \<open>simp_all add: goto_def\<close>)
next
  case (check_miss s t)
  show ?case
    by (rule getInv_move [OF check_miss.prems, of _ t Making])
      (use check_miss getInvD(1,2,4) [of s t] in \<open>auto simp: goto_def\<close>)
next
  case (make_ok s t l)
  show ?case
    by (rule getInv_move [OF make_ok.prems, of _ t "Storing l"])
      (use make_ok getInvD(1,2,4) [of s t] in \<open>auto simp: goto_def\<close>)
next
  case (make_err s t e)
  show ?case
    by (rule getInv_move [OF make_err.prems, of _ t Failing])
      (use make_err getInvD(1,2,4) [of s t] in \<open>auto simp: goto_def\<close>)
next
  case (unlock s t l)
  show ?case
    by (rule getInv_move [OF unlock.prems, of _ t "Got l"])
      (use unlock getInvD(1,2,4) [of s t] in \<open>auto simp: goto_def\<close>)
next
  case (unlock_err s t)
  show ?case
    by (rule getInv_move [OF unlock_err.prems, of _ t Err])
      (use unlock_err getInvD(1,2,4) [of s t] in \<open>auto simp: goto_def\<close>)
qed

lemma getInv_reach: "getReach mk s \<Longrightarrow> getInv s"
proof (induction rule: getReach.induct)
  case start
  then show ?case by (simp add: getInv_def getStart_def)
qed (rule getInv_step)

text \<open>Once the constructor has returned a limiter it is not called again.\<close>

definition madeInv :: "(nat \<Rightarrow> goErr + 'l) \<Rightarrow> 'l shared \<Rightarrow> bool" where
  "madeInv mk s \<longleftrightarrow> (\<forall>n < sh_made s. isl (mk n)) \<or>
     (\<forall>n. Suc n < sh_made s \<longrightarrow> isl (mk n)) \<and> (sh_ptr s \<noteq> None \<or> (\<exists>t l. sh_pc s t = Storing l))"

lemma madeInv_move:
  assumes "madeInv mk s" "sh_pc s' = (sh_pc s)(t := p)" "sh_ptr s' = sh_ptr s" "sh_made s' = sh_made s"
    and "\<And>l. sh_pc s t = Storing l \<Longrightarrow> sh_ptr s \<noteq> None"
  shows "madeInv mk s'"
proof -
  have "sh_ptr s' \<noteq> None \<or> (\<exists>t l. sh_pc s' t = Storing l)" if "sh_ptr s \<noteq> None \<or> (\<exists>t l. sh_pc s t = Storing l)"
    using that assms(2,3,5) by (metis fun_upd_other)
  with assms(1,4) show ?thesis by (auto simp: madeInv_def)
qed

lemma madeInv_making:
  assumes "getInv s" "madeInv mk s" "sh_pc s t = Making"
  shows "\<forall>n < sh_made s. isl (mk n)"
proof -
  have "sh_pc s t' \<noteq> Storing k" for t' k
    using getInv_alone(3) [OF assms(1), of t t'] assms(3) by (cases "t' = t") auto
  then show ?thesis using getInvD(2) [OF assms(1,3)] assms(2) by (auto simp: madeInv_def)
qed

lemma madeInv_step: "getStep mk s s' \<Longrightarrow> getInv s \<Longrightarrow> madeInv mk s \<Longrightarrow> madeInv mk s'"
proof (induction rule: getStep.induct)
  case (make_ok s t l)
  let ?s = "goto t (Storing l) (s\<lparr>sh_made := Suc (sh_made s)\<rparr>)"
  have "\<forall>n < sh_made s. isl (mk n)" using make_ok madeInv_making by blast
  then have "\<forall>n. Suc n < sh_made ?s \<longrightarrow> isl (mk n)" by (simp add: goto_def)
  moreover have "sh_pc ?s t = Storing l" by (simp add: goto_def)
  ultimately show ?case unfolding madeInv_def by blast
next
  case (make_err s t e)
  then have "\<forall>n < Suc (sh_made s). isl (mk n)" using madeInv_making [of s mk t] by (auto simp: less_Suc_eq)
  then show ?case by (simp add: madeInv_def goto_def)
next
  case (store s t l)
  then show ?case by (auto simp: madeInv_def goto_def)
next
  case (load_hit s t l)
  show ?case
    by (rule madeInv_move [OF load_hit.prems(2), of _ t "Got l"])
      (use load_hit getInvD(4) [of s t] in \<open>auto simp: goto_def\<close>)
next
  case (load_miss s t)
  show ?case
    by (rule madeInv_move [OF load_miss.prems(2), of _ t Locking])
      (use load_miss getInvD(4) [of s t] in \<open>auto simp: goto_def\<close>)
next
  case (lock s t)
  show ?case
    by (rule madeInv_move [OF lock.prems(2), of _ t Checking])
      (use lock getInvD(4) [of s t] in \<open>auto simp: goto_def\<close>)
next
  case (check_hit s t l)
  show ?case
    by (rule madeInv_move [OF check_hit.prems(2), of _ t "Unlocking l"]) (use check_hit in \<open>simp_all add: goto_def\<close>)
next
  case (check_miss s t)
  show ?case
    by (rule madeInv_move [OF check_miss.prems(2), of _ t Making])
      (use check_miss getInvD(4) [of s t] in \<open>auto simp: goto_def\<close>)
next
  case (unlock s t l)
  show ?case
    by (rule madeInv_move [OF unlock.prems(2), of _ t "Got l"])
      (use unlock getInvD(4) [of s t] in \<open>auto simp: goto_def\<close>)
next
  case (unlock_err s t)
  show ?case
    by (rule madeInv_move [OF unlock_err.prems(2), of _ t Err])
      (use unlock_err getInvD(4) [of s t] in \<open>auto simp: goto_def\<close>)
qed

lemma madeInv_reach: "getReach mk s \<Longrightarrow> madeInv mk s"
proof (induction rule: getReach.induct)
  case start
  then show ?case by (simp add: madeInv_def getStart_def)
next
  case (step s s')
  then show ?case using madeInv_step getInv_reach by blast
qed

text \<open>
  Runs of the first \<open>n\<close> goroutines, by their number of steps. The work that is left for a goroutine bounds the number of
  its steps.
\<close>

inductive getRun :: "(nat \<Rightarrow> goErr + 'l) \<Rightarrow> nat \<Rightarrow> nat \<Rightarrow> 'l shared \<Rightarrow> bool" for mk n where
  none: "getRun mk n 0 getStart"
| more: "getRun mk n k s \<Longrightarrow> getStep mk s s' \<Longrightarrow> \<forall>t \<ge> n. sh_pc s' t = Start \<Longrightarrow> getRun mk n (Suc k) s'"

fun workLeft :: "'l pc \<Rightarrow> nat" where
  "workLeft Start = 6"
| "workLeft Locking = 5"
| "workLeft Checking = 4"
| "workLeft Making = 3"
| "workLeft (Storing _) = 2"
| "workLeft (Unlocking _) = 1"
| "workLeft Failing = 1"
| "workLeft (Got _) = 0"
| "workLeft Err = 0"

fun returned :: "'l pc \<Rightarrow> bool" where
  "returned (Got _) = True"
| "returned Err = True"
| "returned _ = False"

lemma getRun_reach: "getRun mk n k s \<Longrightarrow> getReach mk s"
  by (induction rule: getRun.induct) (auto intro: getReach.intros)

lemma getStep_work:
  assumes "getStep mk s s'"
  obtains t p where "sh_pc s' = (sh_pc s)(t := p)" "workLeft p < workLeft (sh_pc s t)" "p \<noteq> Start"
  using assms by (elim getStepE) (fastforce simp: goto_def)+

lemma getRun_outside: "getRun mk n k s \<Longrightarrow> t \<ge> n \<Longrightarrow> sh_pc s t = Start"
  by (cases rule: getRun.cases) (auto simp: getStart_def)

lemma getRun_work: "getRun mk n k s \<Longrightarrow> k + (\<Sum>t<n. workLeft (sh_pc s t)) \<le> 6 * n"
proof (induction rule: getRun.induct)
  case (more k s s')
  obtain t p where t: "sh_pc s' = (sh_pc s)(t := p)" "workLeft p < workLeft (sh_pc s t)" "p \<noteq> Start"
    using getStep_work [OF more.hyps(2)] .
  have n: "t < n" using more.hyps(3) t(1,3) by (metis fun_upd_same not_le)
  have "(\<Sum>u<n. workLeft (sh_pc s' u)) < (\<Sum>u<n. workLeft (sh_pc s u))"
    by (rule sum_strict_mono_ex1) (use t n in auto)
  with more.IH show ?case by simp
qed (simp add: getStart_def)

lemma getStep_own:
  assumes "sh_pc s t \<in> {Start, Checking, Making, Failing} \<or> inCritical (sh_pc s t) \<or> sh_pc s t = Locking \<and> sh_owner s = None"
  shows "\<exists>p s'. getStep mk s s' \<and> sh_pc s' = (sh_pc s)(t := p)"
proof -
  have g: "sh_pc (goto t p x) = (sh_pc x)(t := p)" for p and x :: "'a shared" by (simp add: goto_def)
  consider "sh_pc s t = Start" | "sh_pc s t = Locking" "sh_owner s = None" | "sh_pc s t = Checking" | "sh_pc s t = Making"
    | l where "sh_pc s t = Storing l" | l where "sh_pc s t = Unlocking l" | "sh_pc s t = Failing"
    using assms by (cases "sh_pc s t") auto
  then show ?thesis
  proof cases
    case 1
    then show ?thesis using getStep.load_hit [of s t] getStep.load_miss [of s t] by (cases "sh_ptr s") (metis g)+
  next
    case 2
    show ?thesis by (intro exI conjI, rule getStep.lock [OF 2]) (simp add: goto_def)
  next
    case 3
    then show ?thesis using getStep.check_hit [of s t] getStep.check_miss [of s t] by (cases "sh_ptr s") (metis g)+
  next
    case 4
    show ?thesis
    proof (cases "mk (sh_made s)")
      case (Inl e)
      show ?thesis by (intro exI conjI, rule getStep.make_err [of s t mk, OF 4 Inl]) (simp add: goto_def)
    next
      case (Inr l)
      show ?thesis by (intro exI conjI, rule getStep.make_ok [of s t mk, OF 4 Inr]) (simp add: goto_def)
    qed
  next
    case 5
    show ?thesis by (intro exI conjI, rule getStep.store [OF 5]) (simp add: goto_def)
  next
    case 6
    show ?thesis by (intro exI conjI, rule getStep.unlock [OF 6]) (simp add: goto_def)
  next
    case 7
    show ?thesis by (intro exI conjI, rule getStep.unlock_err [OF 7]) (simp add: goto_def)
  qed
qed

text \<open>Whoever has to wait for the mutex waits for a goroutine that can go on.\<close>

lemma getRun_progress:
  assumes "getRun mk n k s" "t < n" "\<not> returned (sh_pc s t)"
  shows "\<exists>s'. getRun mk n (Suc k) s'"
proof -
  note I = getInv_reach [OF getRun_reach [OF assms(1)]]
  obtain u where u: "u < n" "sh_pc s u \<in> {Start, Checking, Making, Failing} \<or> inCritical (sh_pc s u) \<or>
      sh_pc s u = Locking \<and> sh_owner s = None"
  proof (cases "sh_pc s t = Locking \<and> sh_owner s \<noteq> None")
    case True
    then obtain u where c: "inCritical (sh_pc s u)" using getInvD(1) [OF I] by blast
    moreover have "u < n" using c getRun_outside [OF assms(1), of u] by (cases "u < n") auto
    ultimately show ?thesis using that by blast
  next
    case False
    then show ?thesis using that [of t] assms(2,3) by (cases "sh_pc s t") auto
  qed
  obtain p s' where s': "getStep mk s s'" "sh_pc s' = (sh_pc s)(u := p)" using getStep_own [OF u(2)] by blast
  have "sh_pc s' v = Start" if "v \<ge> n" for v using that getRun_outside [OF assms(1) that] s'(2) u(1) by simp
  then show ?thesis using getRun.more [OF assms(1) s'(1)] by blast
qed

lemma getReach_err:
  assumes "getReach mk s" "sh_pc s t \<in> {Failing, Err}"
  shows "\<exists>i < sh_made s. isl (mk i)"
  using assms
proof (induction arbitrary: t rule: getReach.induct)
  case (step s s')
  from step.hyps(2) step.prems step.IH show ?case
    by (elim getStepE) (auto simp: goto_def less_Suc_eq split: if_splits)
qed (simp add: getStart_def)

section \<open>Properties\<close>

text \<open>The limiter refuses a request: it has a key, is no preflight, and the limiter says no.\<close>

definition refused ::
  "('f, 'l) limiterLib \<Rightarrow> ('r, 'f) rateLimitMiddleware \<Rightarrow> 'l \<Rightarrow> 'r Ctx \<Rightarrow> rlResult \<Rightarrow> 'l \<Rightarrow> bool" where
  "refused lib m l c res l' \<longleftrightarrow> \<not> isPreflight c \<and> \<not> Allowed res \<and>
     (\<exists>key. m_keyGenerator m c = Inr key \<and> key \<noteq> [] \<and> AllowLimit lib l key (customLimit m c) = (Inr res, l'))"

lemma reject_headers:
  assumes rs: "response_store (e_ro ev)" and hn: "rlDistinct hn"
    and outer: "\<forall>n \<in> fst ` set (c_alwaysHeaders c). lowerKey n \<notin> lowerKey ` {h_Limit hn, h_Policy hn, h_Remaining hn, h_Reset hn}"
    and c': "c' = defaultError ev ct (rateLimitError hn res True) (resetForError (e_ro ev) (setHeaders (e_ro ev) hn now m res eff c))"
  shows "r_PeekHeader (e_ro ev) (h_Remaining hn) (c_Response c') = showInt (max (Remaining res) 0)"
    "eff > 0 \<Longrightarrow> r_PeekHeader (e_ro ev) (h_Limit hn) (c_Response c') = showInt eff"
    "RetryAfter res > 0 \<Longrightarrow> r_PeekHeader (e_ro ev) (h_RetryAfter hn) (c_Response c') = formatSeconds (RetryAfter res)"
proof -
  let ?ro = "e_ro ev"
  let ?c1 = "setHeaders ?ro hn now m res eff c"
  have inj: "\<forall>n \<in> fst ` set (c_alwaysHeaders ?c1). lowerKey n = lowerKey k \<longrightarrow> n = k"
    if k: "k \<in> {h_Limit hn, h_Remaining hn}" for k
  proof (intro ballI impI)
    fix n assume n: "n \<in> fst ` set (c_alwaysHeaders ?c1)" "lowerKey n = lowerKey k"
    with outer k have "n \<notin> fst ` set (c_alwaysHeaders c)" by force
    with n(1) setHeaders_always(1) have "n \<in> {h_Limit hn, h_Policy hn, h_Remaining hn, h_Reset hn}" by blast
    with n(2) k hn show "n = k" by (auto simp: rlDistinct_def Let_def)
  qed
  have keep: "r_PeekHeader ?ro k (c_Response c') = r_PeekHeader ?ro k (c_Response ?c1)"
    if "k \<in> {h_Limit hn, h_Remaining hn}" "k \<in> fst ` set (c_alwaysHeaders ?c1)" for k
    unfolding c' using response_store.reject_kept [OF rs refl hn _ that(2) inj [OF that(1)]] that(1) by blast
  show "r_PeekHeader ?ro (h_Remaining hn) (c_Response c') = showInt (max (Remaining res) 0)"
    using keep [of "h_Remaining hn"] by (simp add: setHeaders_always(2) response_store.setHeaders_peek(1) [OF rs hn])
  show "r_PeekHeader ?ro (h_Limit hn) (c_Response c') = showInt eff" if "eff > 0"
    using that keep [of "h_Limit hn"] by (simp add: setHeaders_always(3) response_store.setHeaders_peek(3) [OF rs hn])
  show "r_PeekHeader ?ro (h_RetryAfter hn) (c_Response c') = formatSeconds (RetryAfter res)" if "RetryAfter res > 0"
    using that response_store.default_peek_set [OF rs refl, of "h_RetryAfter hn"] hn by (simp add: c' rlDistinct_def Let_def)
qed

text \<open>
  C25. A request over the limit never reaches the next handler: whatever that handler is, the client gets status
  429. If the headers are emitted, those with the remaining requests and the limit, set before the response is reset to render the
  error, are still on it, with the time to wait when the limiter gives one. No header that an outer middleware
  has registered may clash with them.
\<close>

theorem rate_limit_reject:
  assumes rs: "response_store (e_ro ev)" and eh: "ErrorHandler ropts = None"
    and ref: "refused lib m l c res l'" and hn: "rlDistinct hn"
    and outer: "\<forall>n \<in> fst ` set (c_alwaysHeaders c). lowerKey n \<notin> lowerKey ` {h_Limit hn, h_Policy hn, h_Remaining hn, h_Reset hn}"
  shows "\<exists>c'. (\<forall>next. rateLimitHandler lib hn now ev ropts m next (Some l) c = (Some l', c', None)) \<and>
     r_StatusCode (e_ro ev) (c_Response c') = 429 \<and>
     (m_emitHeaders m \<longrightarrow>
        r_PeekHeader (e_ro ev) (h_Remaining hn) (c_Response c') = showInt (max (Remaining res) 0) \<and>
        (effectiveLimit m (customLimit m c) > 0 \<longrightarrow>
           r_PeekHeader (e_ro ev) (h_Limit hn) (c_Response c') = showInt (effectiveLimit m (customLimit m c))) \<and>
        (RetryAfter res > 0 \<longrightarrow> r_PeekHeader (e_ro ev) (h_RetryAfter hn) (c_Response c') = formatSeconds (RetryAfter res)))"
proof -
  let ?ro = "e_ro ev"
  define c1 where "c1 = (if m_emitHeaders m then setHeaders ?ro hn now m res (effectiveLimit m (customLimit m c)) c else c)"
  define c' where "c' = defaultError ev (r_ContentType ?ro (c_Response c1)) (rateLimitError hn res (m_emitHeaders m)) (resetForError ?ro c1)"
  have run: "rateLimitHandler lib hn now ev ropts m next (Some l) c = (Some l', c', None)" for "next"
    using ref eh by (auto simp: refused_def rateLimitHandler_def getLimiter_def ctxError_def HandleError_def Let_def c1_def c'_def)
  have st: "r_StatusCode ?ro (c_Response c') = 429" by (simp add: c'_def response_store.default_status [OF rs refl])
  have e: "c' = defaultError ev (r_ContentType ?ro (c_Response c1)) (rateLimitError hn res True)
      (resetForError ?ro (setHeaders ?ro hn now m res (effectiveLimit m (customLimit m c)) c))" if "m_emitHeaders m"
    using that by (simp add: c'_def c1_def)
  show ?thesis
    by (intro exI [of _ c'] conjI allI impI, rule run, rule st) (rule reject_headers [OF rs hn outer e]; assumption)+
qed

definition demoNames :: rlNames where
  "demoNames = \<lparr>h_Limit = ''Limit'', h_Policy = ''Policy'', h_Remaining = ''Left'',
     h_Reset = ''Reset'', h_RetryAfter = ''Retry''\<rparr>"

definition demoLimiters :: "(unit, nat) limiterLib" where
  "demoLimiters = \<lparr>NewFixedWindow = (\<lambda>_ n _ _. Inr (nat n)), NewTokenBucket = (\<lambda>_ _ n _. Inr (nat n)),
     AllowLimit = (\<lambda>l _ _. (Inr \<lparr>Allowed = 0 < l, Remaining = int l - 1, ResetAt = 0, RetryAfter = 1500000000\<rparr>, l - 1))\<rparr>"

definition demoRateLimit :: "(assocResp, unit) rateLimitMiddleware option" where
  "demoRateLimit = RateLimit (\<lambda>_. []) (\<lambda>_. ''127.0.0.1'')
     (Some \<lparr>rl_Enabled = True, rl_Strategy = ''fixed-window'', rl_Limit = 60, rl_Window = 60 * second, rl_Rate = (),
        rl_Burst = 0, rl_WaitLimit = 0\<rparr>) []"

theorem rate_limit_reject_witness:
  "\<exists>c'. rateLimitHandler demoLimiters demoNames 0 demoEnv demoOptions (the demoRateLimit) (\<lambda>c. (c, None)) (Some 0)
       (acquireCtx [] demoRaw) = (Some 0, c', None) \<and>
     assocPeek ''Limit'' (c_Response c') = ''60'' \<and> assocPeek ''Retry'' (c_Response c') = ''2''"
proof -
  let ?m = "the demoRateLimit" and ?c = "acquireCtx [] demoRaw"
  let ?res = "\<lparr>Allowed = False, Remaining = -1, ResetAt = 0, RetryAfter = 1500000000\<rparr>"
  have m: "m_keyGenerator ?m ?c = Inr ''ip:127.0.0.1''" "m_emitHeaders ?m" "customLimit ?m ?c = 0" "effectiveLimit ?m 0 = 60"
    by (simp_all add: demoRateLimit_def RateLimit_def defaultRateLimitKey_def contextUser_def acquireCtx_def anonymousUser_def
        anon_defs customLimit_def effectiveLimit_def)
  have e: "e_ro demoEnv = assocOps" "r_PeekHeader assocOps = assocPeek" by (simp_all add: demoEnv_def assocOps_def)
  have o: "ErrorHandler demoOptions = None" by (simp add: demoOptions_def)
  have r: "refused demoLimiters ?m 0 ?c ?res 0"
    using m by (simp add: refused_def isPreflight_def acquireCtx_def demoRaw_def demoLimiters_def)
  have hn: "rlDistinct demoNames" by code_simp
  have s: "showInt 60 = ''60''" "formatSeconds 1500000000 = ''2''" by code_simp+
  from rate_limit_reject [OF _ o r hn, of demoEnv 0] show ?thesis
    by (auto simp: e s m assoc.response_store_axioms demoNames_def)
qed

text \<open>
  C26. However many requests ask for the limiter at the same time, in whatever order their steps are
  interleaved, at most one limiter is made and all of them get it: two that have returned have the same one, no two are
  between lock and unlock at once, and after a call of the constructor that succeeded there is none.
\<close>

theorem get_limiter_once:
  assumes "getReach mk s"
  shows "(sh_pc s t = Got l \<and> sh_pc s t' = Got l' \<longrightarrow> l = l' \<and> sh_ptr s = Some l) \<and>
    (inCritical (sh_pc s t) \<and> inCritical (sh_pc s t') \<longrightarrow> t = t') \<and>
    (n < sh_made s \<and> mk n = Inr l \<longrightarrow> sh_made s = Suc n)"
proof -
  note I = getInv_reach [OF assms]
  have "l = l' \<and> sh_ptr s = Some l" if "sh_pc s t = Got l" "sh_pc s t' = Got l'"
    using getInvD(4) [OF I, of t l] getInvD(4) [OF I, of t' l'] that by simp
  moreover have "t = t'" if "inCritical (sh_pc s t)" "inCritical (sh_pc s t')"
    using getInvD(1) [OF I, of t] getInvD(1) [OF I, of t'] that by simp
  moreover have "sh_made s = Suc n" if "n < sh_made s" "mk n = Inr l"
    using madeInv_reach [OF assms] that unfolding madeInv_def by (metis Suc_lessI sum.disc(2))
  ultimately show ?thesis by blast
qed

text \<open>Two goroutines, of which the second finds the limiter that the first has made.\<close>

theorem get_limiter_once_witness:
  "\<exists>s. getReach (\<lambda>_. Inr (7 :: nat)) s \<and> sh_pc s 0 = Got 7 \<and> sh_pc s 1 = Got 7 \<and> sh_made s = 1"
proof -
  let ?mk = "\<lambda>_. Inr (7 :: nat)"
  define s1 where "s1 = goto 0 Locking (getStart :: nat shared)"
  define s2 where "s2 = goto 0 Checking (s1\<lparr>sh_owner := Some 0\<rparr>)"
  define s3 where "s3 = goto 0 Making s2"
  define s4 where "s4 = goto 0 (Storing 7) (s3\<lparr>sh_made := Suc (sh_made s3)\<rparr>)"
  define s5 where "s5 = goto 0 (Unlocking 7) (s4\<lparr>sh_ptr := Some 7\<rparr>)"
  define s6 where "s6 = goto 0 (Got 7) (s5\<lparr>sh_owner := None\<rparr>)"
  define s7 where "s7 = goto 1 (Got 7) s6"
  have steps: "getStep ?mk getStart s1" "getStep ?mk s1 s2" "getStep ?mk s2 s3" "getStep ?mk s3 s4" "getStep ?mk s4 s5"
    "getStep ?mk s5 s6" "getStep ?mk s6 s7"
    unfolding s1_def s2_def s3_def s4_def s5_def s6_def s7_def
    by (rule load_miss lock check_miss make_ok store unlock load_hit; simp add: goto_def getStart_def)+
  have r: "getReach ?mk s7" by (rule getReach.step [OF _ steps(7)], rule getReach.step [OF _ steps(6)],
      rule getReach.step [OF _ steps(5)], rule getReach.step [OF _ steps(4)], rule getReach.step [OF _ steps(3)],
      rule getReach.step [OF _ steps(2)], rule getReach.step [OF _ steps(1)], rule getReach.start)
  have pc: "sh_pc s7 0 = Got 7" "sh_pc s7 1 = Got 7" by (simp_all add: s7_def s6_def goto_def)
  have m: "0 < sh_made s7" by (simp add: s7_def s6_def s5_def s4_def goto_def)
  from get_limiter_once [OF r, of 0 7 1 7 0] pc m have "sh_made s7 = 1" by simp
  with r pc show ?thesis by blast
qed

text \<open>
  C27. Getting the limiter ends, whatever the interleaving: of \<open>n\<close> requests that ask for it no run has more than \<open>6 n\<close> steps; as long
  as one of them has not returned some step is possible, so that no deadlock is reached; and an error is only returned if
  the constructor has returned one.
\<close>

theorem get_limiter_terminates:
  assumes "getRun mk n k s"
  shows "k \<le> 6 * n \<and> ((\<forall>t < n. returned (sh_pc s t)) \<or> (\<exists>s'. getRun mk n (Suc k) s')) \<and>
    (\<forall>t. sh_pc s t = Err \<longrightarrow> (\<exists>i < sh_made s. isl (mk i)))"
  using getRun_work [OF assms] getRun_progress [OF assms] getReach_err [OF getRun_reach [OF assms]] by fastforce

theorem get_limiter_terminates_witness:
  "\<exists>s'. getRun (\<lambda>_. Inr (7 :: nat)) 2 1 (s' :: nat shared)"
proof -
  have "\<not> (\<forall>t < (2 :: nat). returned (sh_pc (getStart :: nat shared) t))" by (auto simp: getStart_def intro: exI [of _ 0])
  then show ?thesis using get_limiter_terminates [OF getRun.none [of "\<lambda>_. Inr (7 :: nat)" 2]] by auto
qed

end
