(* ===== verification/Nonce.thy ===== *)
theory Nonce
  imports Errors
begin

text \<open>
  One-time nonces: the store of \<open>src/token/nonce/memory.go\<close> behind the interface of \<open>src/token/nonce/nonce.go\<close>.

  The cache of the core library is the parameter \<open>cacheOps\<close> on a state \<open>'c\<close>, the ULID generator the parameter
  \<open>gen\<close> on its entropy \<open>'e\<close>; errors are \<^typ>\<open>goErr\<close> values. What a cache may do is the locale \<open>bool_cache\<close>:
  entries may expire at any time, so every law is an upper bound on what is stored, and a deletion may fail and
  leave its entry. \<open>Verify\<close> ignores that failure: the locale \<open>counted_store\<close> counts the nonces that stay alive for it. The interface
  \<open>Store\<close> is the locale \<open>nonce_store\<close>, whose clients may rely on a nonce being accepted once for each time it was
  created; the store keeps it over a cache whose deletions do not fail (\<open>deleting_cache\<close>).
\<close>

record 'c cacheOps =
  cacheSet :: "bytes \<Rightarrow> bool \<Rightarrow> 'c \<Rightarrow> 'c \<times> goErr option"
  cacheGet :: "bytes \<Rightarrow> 'c \<Rightarrow> goErr + bool"
  cacheDelete :: "bytes \<Rightarrow> 'c \<Rightarrow> 'c \<times> goErr option"

type_synonym 'e ulidGen = "'e \<Rightarrow> (goErr + bytes) \<times> 'e"

text \<open>A store is the cache with the entropy source.\<close>

type_synonym ('c, 'e) CacheNonceStore = "'c \<times> 'e"

definition wrapCacheErr :: "goErr \<Rightarrow> goErr" where
  "wrapCacheErr err = err\<lparr>e_Error := ''nonce can not be stored in cache: '' @ e_Error err\<rparr>"

definition createNonce ::
  "'c cacheOps \<Rightarrow> 'e ulidGen \<Rightarrow> ('c, 'e) CacheNonceStore \<Rightarrow> (goErr + bytes) \<times> ('c, 'e) CacheNonceStore" where
  "createNonce co gen s =
     (case gen (snd s) of
        (Inl err, en) \<Rightarrow> (Inl err, (fst s, en))
      | (Inr key, en) \<Rightarrow>
          (case cacheSet co key True (fst s) of
             (c, Some err) \<Rightarrow> (Inl (wrapCacheErr err), (c, en))
           | (c, None) \<Rightarrow> (Inr key, (c, en))))"

definition verifyNonce ::
  "'c cacheOps \<Rightarrow> bytes \<Rightarrow> ('c, 'e) CacheNonceStore \<Rightarrow> (goErr + bool) \<times> ('c, 'e) CacheNonceStore" where
  "verifyNonce co nonce s =
     (case cacheGet co nonce (fst s) of
        Inl err \<Rightarrow> (Inl err, s)
      | Inr i \<Rightarrow> (Inr i, if i then (fst (cacheDelete co nonce (fst s)), snd s) else s))"

section \<open>The contract of a store\<close>

datatype nonceOp = OpCreate | OpVerify bytes

datatype nonceEvent = Created bytes | Accepted bytes | NoEvent

text \<open>The events of a sequence of operations on a store.\<close>

fun storeRun ::
  "('s \<Rightarrow> (goErr + bytes) \<times> 's) \<Rightarrow> (bytes \<Rightarrow> 's \<Rightarrow> (goErr + bool) \<times> 's) \<Rightarrow> nonceOp list \<Rightarrow> 's \<Rightarrow> nonceEvent list" where
  "storeRun create verify [] s = []"
| "storeRun create verify (OpCreate # ops) s =
     (case create s of (r, s1) \<Rightarrow> (case r of Inr k \<Rightarrow> Created k | Inl _ \<Rightarrow> NoEvent) # storeRun create verify ops s1)"
| "storeRun create verify (OpVerify n # ops) s =
     (case verify n s of (r, s1) \<Rightarrow> (case r of Inr True \<Rightarrow> Accepted n | _ \<Rightarrow> NoEvent) # storeRun create verify ops s1)"

text \<open>How often a run accepts a nonce in a state where accepting it leaves it alive.\<close>

fun storeKept ::
  "('s \<Rightarrow> (goErr + bytes) \<times> 's) \<Rightarrow> (bytes \<Rightarrow> 's \<Rightarrow> (goErr + bool) \<times> 's) \<Rightarrow> ('s \<Rightarrow> bytes \<Rightarrow> bool) \<Rightarrow> bytes \<Rightarrow>
   nonceOp list \<Rightarrow> 's \<Rightarrow> nat" where
  "storeKept create verify kept n [] s = 0"
| "storeKept create verify kept n (OpCreate # ops) s = storeKept create verify kept n ops (snd (create s))"
| "storeKept create verify kept n (OpVerify m # ops) s =
     of_bool (m = n \<and> fst (verify n s) = Inr True \<and> kept s n) + storeKept create verify kept n ops (snd (verify m s))"

lemma storeKept_none: "(\<And>s. \<not> kept s n) \<Longrightarrow> storeKept create verify kept n ops s = 0"
  by (induction create verify kept n ops s rule: storeKept.induct) simp_all

locale counted_store =
  fixes create :: "'s \<Rightarrow> (goErr + bytes) \<times> 's" and verify :: "bytes \<Rightarrow> 's \<Rightarrow> (goErr + bool) \<times> 's"
    and live :: "'s \<Rightarrow> bytes \<Rightarrow> bool" and kept :: "'s \<Rightarrow> bytes \<Rightarrow> bool"
  assumes create_new: "create s = (k, s') \<Longrightarrow> live s' m \<Longrightarrow> k = Inr m \<or> live s m"
    and verify_spent: "verify n s = (Inr True, s') \<Longrightarrow> live s n \<and> (kept s n \<or> \<not> live s' n)"
    and verify_mono: "verify n s = (r, s') \<Longrightarrow> live s' m \<Longrightarrow> live s m"
begin

lemma accepted_at_most:
  "count_list (storeRun create verify ops s) (Accepted n) \<le>
     count_list (storeRun create verify ops s) (Created n) + storeKept create verify kept n ops s + of_bool (live s n)"
proof (induction ops arbitrary: s)
  case (Cons op ops)
  show ?case
  proof (cases op)
    case OpCreate
    obtain k s1 where c: "create s = (k, s1)" by (cases "create s")
    show ?thesis
      using Cons.IH [of s1] create_new [OF c, of n] c OpCreate
      by (cases k; cases "live s1 n"; cases "live s n") (auto split: if_splits)
  next
    case (OpVerify m)
    obtain r s1 where v: "verify m s = (r, s1)" by (cases "verify m s")
    show ?thesis
      using Cons.IH [of s1] verify_mono [OF v, of n] verify_spent [of m s s1] v OpVerify
      by (cases "live s1 n"; cases "live s n"; cases "kept s n") (auto split: if_splits sum.splits bool.splits)
  qed
qed simp

end

locale nonce_store =
  fixes create :: "'s \<Rightarrow> (goErr + bytes) \<times> 's" and verify :: "bytes \<Rightarrow> 's \<Rightarrow> (goErr + bool) \<times> 's"
    and live :: "'s \<Rightarrow> bytes \<Rightarrow> bool"
  assumes create_new: "create s = (k, s') \<Longrightarrow> live s' m \<Longrightarrow> k = Inr m \<or> live s m"
    and verify_live: "verify n s = (Inr True, s') \<Longrightarrow> live s n \<and> \<not> live s' n"
    and verify_mono: "verify n s = (r, s') \<Longrightarrow> live s' m \<Longrightarrow> live s m"
begin

lemma dead_verify: "\<not> live s n \<Longrightarrow> fst (verify n s) \<noteq> Inr True"
  using verify_live by (metis prod.collapse)

end

sublocale nonce_store \<subseteq> counted: counted_store create verify live "\<lambda>_ _. False"
  by unfold_locales (fact create_new, use verify_live in blast, fact verify_mono)

section \<open>The contract of a cache\<close>

text \<open>A deletion that returns no error removes the entry; one that fails may leave it.\<close>

locale bool_cache =
  fixes co :: "'c cacheOps" and has :: "'c \<Rightarrow> bytes \<Rightarrow> bool"
  assumes get_has: "cacheGet co k c = Inr True \<Longrightarrow> has c k"
    and set_has: "cacheSet co k b c = (c', None) \<Longrightarrow> has c' m \<Longrightarrow> m = k \<or> has c m"
    and set_err: "cacheSet co k b c = (c', Some err) \<Longrightarrow> has c' m \<Longrightarrow> has c m"
    and del_mono: "has (fst (cacheDelete co k c)) m \<Longrightarrow> has c m"
    and del_gone: "cacheDelete co k c = (c', None) \<Longrightarrow> \<not> has c' k"

definition deleteFails :: "'c cacheOps \<Rightarrow> ('c, 'e) CacheNonceStore \<Rightarrow> bytes \<Rightarrow> bool" where
  "deleteFails co s n \<longleftrightarrow> snd (cacheDelete co n (fst s)) \<noteq> None"

context bool_cache
begin

lemma counted_laws: "counted_store (createNonce co gen) (verifyNonce co) (\<lambda>s. has (fst s)) (deleteFails co)"
proof
  show "r = Inr m \<or> has (fst s) m" if "createNonce co gen s = (r, s')" "has (fst s') m" for s r s' m
    using that by (auto dest: set_has set_err simp: createNonce_def split: prod.splits sum.splits option.splits)
  show "has (fst s) n \<and> (deleteFails co s n \<or> \<not> has (fst s') n)" if "verifyNonce co n s = (Inr True, s')" for n s s'
    using that get_has del_gone [of n "fst s"]
    by (auto simp: verifyNonce_def deleteFails_def split: sum.splits if_splits) (metis prod.collapse)
  show "has (fst s) m" if "verifyNonce co n s = (r, s')" "has (fst s') m" for n s r s' m
    using that del_mono by (auto simp: verifyNonce_def split: sum.splits if_splits)
qed

end

text \<open>A cache whose deletions do not fail.\<close>

locale deleting_cache = bool_cache +
  assumes del_ok: "snd (cacheDelete co k c) = None"
begin

lemma store_laws: "nonce_store (createNonce co gen) (verifyNonce co) (\<lambda>s. has (fst s))"
proof
  note L = counted_store.create_new [OF counted_laws] counted_store.verify_spent [OF counted_laws] counted_store.verify_mono [OF counted_laws]
  show "r = Inr m \<or> has (fst s) m" if "createNonce co gen s = (r, s')" "has (fst s') m" for s r s' m
    using L(1) [OF that] .
  show "has (fst s) n \<and> \<not> has (fst s') n" if "verifyNonce co n s = (Inr True, s')" for n s s'
    using L(2) [OF that] del_ok by (simp add: deleteFails_def)
  show "has (fst s) m" if "verifyNonce co n s = (r, s')" "has (fst s') m" for n s r s' m
    using L(3) [OF that] .
qed

end

sublocale deleting_cache \<subseteq> store: nonce_store "createNonce co gen" "verifyNonce co" "\<lambda>s. has (fst s)"
  by (rule store_laws)

text \<open>The memory cache: a list of entries. It satisfies the contract.\<close>

definition memoryCache :: "(bytes \<times> bool) list cacheOps" where
  "memoryCache = \<lparr>cacheSet = (\<lambda>k b c. ((k, b) # c, None)),
     cacheGet = (\<lambda>k c. Inr (map_of c k = Some True)),
     cacheDelete = (\<lambda>k c. (filter (\<lambda>(m, _). m \<noteq> k) c, None))\<rparr>"

definition memoryHas :: "(bytes \<times> bool) list \<Rightarrow> bytes \<Rightarrow> bool" where
  "memoryHas c k \<longleftrightarrow> map_of c k = Some True"

lemma map_of_filter_key: "map_of (filter (\<lambda>(m, _). m \<noteq> k) c) n = (if n = k then None else map_of c n)"
  by (induction c) auto

interpretation memory: deleting_cache memoryCache memoryHas
  by unfold_locales (auto simp: memoryCache_def memoryHas_def map_of_filter_key split: if_splits)

text \<open>An entropy source that counts.\<close>

definition counterGen :: "nat ulidGen" where
  "counterGen n = (Inr (showNat n), Suc n)"

section \<open>Verifying in two goroutines\<close>

datatype vpc = VStart bytes | VGot bytes | VDone bytes bool

inductive verifyStep :: "'c cacheOps \<Rightarrow> 'c \<times> (nat \<Rightarrow> vpc) \<Rightarrow> 'c \<times> (nat \<Rightarrow> vpc) \<Rightarrow> bool" for co where
  get_hit: "p t = VStart n \<Longrightarrow> cacheGet co n c = Inr True \<Longrightarrow> verifyStep co (c, p) (c, p(t := VGot n))"
| get_miss: "p t = VStart n \<Longrightarrow> cacheGet co n c = Inr False \<Longrightarrow> verifyStep co (c, p) (c, p(t := VDone n False))"
| delete: "p t = VGot n \<Longrightarrow> verifyStep co (c, p) (fst (cacheDelete co n c), p(t := VDone n True))"

text \<open>
  Reading and deleting are separate steps: two verifications of one nonce that overlap can both accept it,
  although over a cache whose deletions do not fail no two that follow each other can (\<open>nonce_once\<close>).
\<close>

lemma nonce_race:
  assumes "cacheGet co n c = Inr True" "p 0 = VStart n" "p (Suc 0) = VStart n"
  shows "\<exists>c' p'. (verifyStep co)\<^sup>*\<^sup>* (c, p) (c', p') \<and> p' 0 = VDone n True \<and> p' (Suc 0) = VDone n True"
proof -
  define p1 p2 p3 p4 where "p1 = p(0 := VGot n)" and "p2 = p1(Suc 0 := VGot n)" and "p3 = p2(0 := VDone n True)"
    and "p4 = p3(Suc 0 := VDone n True)"
  note ps = p1_def p2_def p3_def p4_def
  define c1 where "c1 = fst (cacheDelete co n c)"
  have s1: "verifyStep co (c, p) (c, p1)"
    unfolding p1_def by (rule get_hit) (simp_all add: assms)
  have s2: "verifyStep co (c, p1) (c, p2)"
    unfolding p2_def by (rule get_hit) (simp_all add: p1_def assms)
  have s3: "verifyStep co (c, p2) (c1, p3)"
    unfolding p3_def c1_def by (rule delete) (simp add: ps)
  have s4: "verifyStep co (c1, p3) (fst (cacheDelete co n c1), p4)"
    unfolding p4_def by (rule delete) (simp add: ps)
  note run = converse_rtranclp_into_rtranclp [of "verifyStep co"]
  have "(verifyStep co)\<^sup>*\<^sup>* (c, p) (fst (cacheDelete co n c1), p4)"
    by (rule run [OF s1 run [OF s2 run [OF s3 run [OF s4 rtranclp.rtrancl_refl]]]])
  moreover have "p4 0 = VDone n True" "p4 (Suc 0) = VDone n True" by (simp_all add: ps)
  ultimately show ?thesis by blast
qed

section \<open>Properties\<close>

text \<open>
  C28. A nonce is accepted at most as often as it was created, not counting the acceptances whose deletion from the cache
  failed: in every sequence of the store's operations that starts without it, over a cache that may lose entries at any time and whose
  deletions may return an error, which \<open>Verify\<close> ignores. Over a cache whose deletions do not fail the bound is the number of creations.
\<close>

theorem nonce_once:
  assumes "bool_cache co has" "\<not> has c n"
  shows "count_list (storeRun (createNonce co gen) (verifyNonce co) ops (c, en)) (Accepted n)
      \<le> count_list (storeRun (createNonce co gen) (verifyNonce co) ops (c, en)) (Created n) +
        storeKept (createNonce co gen) (verifyNonce co) (deleteFails co) n ops (c, en) \<and>
    ((\<forall>k d. snd (cacheDelete co k d) = None) \<longrightarrow>
      count_list (storeRun (createNonce co gen) (verifyNonce co) ops (c, en)) (Accepted n)
      \<le> count_list (storeRun (createNonce co gen) (verifyNonce co) ops (c, en)) (Created n))"
proof -
  have "storeKept (createNonce co gen) (verifyNonce co) (deleteFails co) n ops s = 0" if "\<forall>k d. snd (cacheDelete co k d) = None" for s
    by (rule storeKept_none) (simp add: deleteFails_def that)
  with counted_store.accepted_at_most [OF bool_cache.counted_laws [OF assms(1)], of gen ops "(c, en)" n] assms(2) show ?thesis
    by auto
qed

text \<open>
  A nonce that is created, used and used again: over the memory cache the second use is refused, over a cache whose
  deletions fail it is accepted.
\<close>

definition readOnlyDelete :: "(bytes \<times> bool) list cacheOps" where
  "readOnlyDelete = memoryCache\<lparr>cacheDelete := (\<lambda>k c. (c, Some (plainErr ''cache is read-only'')))\<rparr>"

interpretation readOnly: bool_cache readOnlyDelete memoryHas
  by unfold_locales (auto simp: readOnlyDelete_def memoryCache_def memoryHas_def split: if_splits)

lemma nonce_delete_ignored:
  "storeRun (createNonce readOnlyDelete counterGen) (verifyNonce readOnlyDelete) [OpCreate, OpVerify ''0'', OpVerify ''0''] ([], 0)
     = [Created ''0'', Accepted ''0'', Accepted ''0'']"
  by code_simp

theorem nonce_once_witness:
  "storeRun (createNonce memoryCache counterGen) (verifyNonce memoryCache) [OpCreate, OpVerify ''0'', OpVerify ''0''] ([], 0)
     = [Created ''0'', Accepted ''0'', NoEvent] \<and>
   count_list (storeRun (createNonce memoryCache counterGen) (verifyNonce memoryCache) [OpCreate, OpVerify ''0'', OpVerify ''0''] ([], 0))
     (Accepted ''0'') \<le> 1 \<and>
   (2 :: nat) \<le> 1 + storeKept (createNonce readOnlyDelete counterGen) (verifyNonce readOnlyDelete) (deleteFails readOnlyDelete) ''0''
     [OpCreate, OpVerify ''0'', OpVerify ''0''] ([], 0)"
proof -
  let ?ops = "[OpCreate, OpVerify ''0'', OpVerify ''0'']"
  have e: "storeRun (createNonce memoryCache counterGen) (verifyNonce memoryCache) ?ops ([], 0)
     = [Created ''0'', Accepted ''0'', NoEvent]" by code_simp
  have d: "\<forall>k c. snd (cacheDelete memoryCache k c) = None" by (simp add: memoryCache_def)
  from nonce_once [OF memory.bool_cache_axioms, of "[]" "''0''" counterGen ?ops 0] d
    nonce_once [OF readOnly.bool_cache_axioms, of "[]" "''0''" counterGen ?ops 0]
  show ?thesis unfolding e nonce_delete_ignored by (simp add: memoryHas_def)
qed

end
