(* ===== verification/Go_Url.thy ===== *)
theory Go_Url
  imports Strconv "HOL-Library.List_Lexorder" "HOL-Library.Char_ord"
begin

text \<open>
  The parts of packages \<open>net/url\<close> and \<open>path\<close> that the sources call: escaping of query components and path
  segments, \<open>Values.Encode\<close>, and \<open>path.Clean\<close>. Parsing of URLs is a parameter where it is called.
\<close>

section \<open>Escaping\<close>

definition isUnreserved :: "char \<Rightarrow> bool" where
  "isUnreserved c \<longleftrightarrow> (let n = (of_char c :: nat) in
     (48 \<le> n \<and> n \<le> 57) \<or> (65 \<le> n \<and> n \<le> 90) \<or> (97 \<le> n \<and> n \<le> 122)) \<or> c \<in> set ''-_.~''"

definition hexDigit :: "nat \<Rightarrow> char" where
  "hexDigit n = ''0123456789ABCDEF'' ! n"

definition percent :: "char \<Rightarrow> bytes" where
  "percent c = [CHR ''%'', hexDigit (of_char c div 16), hexDigit (of_char c mod 16)]"

definition QueryEscape :: "bytes \<Rightarrow> bytes" where
  "QueryEscape s = concat (map (\<lambda>c. if c = space then ''+'' else if isUnreserved c then [c] else percent c) s)"

text \<open>A path segment also keeps some of the reserved characters.\<close>

definition PathEscape :: "bytes \<Rightarrow> bytes" where
  "PathEscape s = concat (map (\<lambda>c. if isUnreserved c \<or> c \<in> set ''$&+=:@'' then [c] else percent c) s)"

text \<open>\<open>Values\<close> as the list of its \<open>Add\<close> calls; the encoding is sorted by key.\<close>

definition ValuesEncode :: "(bytes \<times> bytes) list \<Rightarrow> bytes" where
  "ValuesEncode vs =
     Join (concat (map (\<lambda>k. map (\<lambda>(_, v). QueryEscape k @ ''='' @ QueryEscape v) (filter (\<lambda>(n, _). n = k) vs))
       (sort (remdups (map fst vs))))) ''&''"

section \<open>Cleaning a path\<close>

text \<open>
  \<open>path.Clean\<close> on the segments between slashes: empty and dot segments are dropped, a double dot drops the one
  before it, except at the root of a rooted path and after another double dot kept at the start.
\<close>

fun cleanSegs :: "bool \<Rightarrow> bytes list \<Rightarrow> bytes list \<Rightarrow> bytes list" where
  "cleanSegs rooted out [] = rev out"
| "cleanSegs rooted out (s # ss) =
     (if s = [] \<or> s = ''.'' then cleanSegs rooted out ss
      else if s = ''..'' then
        (case out of
           [] \<Rightarrow> cleanSegs rooted (if rooted then [] else [''..'']) ss
         | o1 # os \<Rightarrow> if o1 = ''..'' then cleanSegs rooted (''..'' # out) ss else cleanSegs rooted os ss)
      else cleanSegs rooted (s # out) ss)"

definition pathClean :: "bytes \<Rightarrow> bytes" where
  "pathClean p =
     (if p = [] then ''.''
      else let rooted = HasPrefix p [slash]; segs = cleanSegs rooted [] (Split p slash) in
        if rooted then slash # Join segs [slash]
        else if segs = [] then ''.'' else Join segs [slash])"

lemma cleanSegs_rooted:
  "''..'' \<notin> set out \<Longrightarrow> [] \<notin> set out \<Longrightarrow> ''..'' \<notin> set (cleanSegs True out ss) \<and> [] \<notin> set (cleanSegs True out ss)"
proof (induction ss arbitrary: out)
  case (Cons s ss)
  consider "s = [] \<or> s = ''.''" | "s = ''..''" "out = []" | o1 os where "s = ''..''" "out = o1 # os"
    | "s \<noteq> []" "s \<noteq> ''.''" "s \<noteq> ''..''"
    by (cases out) auto
  then show ?case
  proof cases
    case 1
    then show ?thesis using Cons.IH [OF Cons.prems] by simp
  next
    case 2
    then show ?thesis using Cons.IH [of "[]"] by simp
  next
    case (3 o1 os)
    then show ?thesis using Cons.IH [of os] Cons.prems by auto
  next
    case 4
    then show ?thesis using Cons.IH [of "s # out"] Cons.prems by simp
  qed
qed simp

lemma cleanSegs_ne: "[] \<notin> set out \<Longrightarrow> [] \<notin> set (cleanSegs r out ss)"
  by (induction r out ss rule: cleanSegs.induct) (auto split: list.splits)

lemma cleanSegs_pieces: "set (cleanSegs r out ss) \<subseteq> set out \<union> set ss"
proof (induction r out ss rule: cleanSegs.induct)
  case (2 r out s ss)
  then show ?case by (auto split: list.splits if_splits)
qed simp

lemma hexDigit_hex: "n < 16 \<Longrightarrow> hexDigit n \<in> set ''0123456789ABCDEF''"
  unfolding hexDigit_def by (rule nth_mem) simp

text \<open>Escaped text holds none of the characters that structure a query.\<close>

lemma percent_chars: "set (percent c) \<subseteq> insert (CHR ''%'') (set ''0123456789ABCDEF'')"
proof -
  have "of_char c div 16 < (16 :: nat)" using nat_of_char_less_256 [of c] by (simp add: less_mult_imp_div_less)
  moreover have "of_char c mod 16 < (16 :: nat)" by simp
  ultimately show ?thesis unfolding percent_def using hexDigit_hex by simp
qed

end
