(* ===== verification/WS_Federation.thy ===== *)
theory WS_Federation
  imports Nonce Go_Url Error_Handler
begin

text \<open>
  WS-Federation sign-in: the claims and their checks (\<open>src/wsfed/claims.go\<close>), reading a response of the
  identity provider (\<open>src/wsfed/response.go\<close>), parsing a token (\<open>src/wsfed/token.go\<close>), the addresses
  to sign in and out (\<open>src/wsfed/urls.go\<close>) and the metadata (\<open>src/wsfed/metadata.go\<close>,
  \<open>src/wsfed/wsfed.go\<close>).

  XML documents, signatures, certificates and parsed URLs belong to libraries: their types \<open>'x\<close>, \<open>'k\<close>, \<open>'u\<close> and
  the calls on them are the fields of \<open>wfLib\<close>. The nonce store is any pair of operations as in \<^const>\<open>storeRun\<close>.
  Times and durations are nanoseconds. A nil pointer that the code follows without a test is \<open>Panic\<close>.
\<close>

section \<open>Claims\<close>

record RegisteredClaims =
  cl_Issuer :: bytes
  cl_SubjectID :: bytes
  cl_SubjectFormat :: bytes
  cl_Audience :: "bytes list"
  cl_ExpiresAt :: "int option"
  cl_NotBefore :: "int option"
  cl_IssuedAt :: "int option"
  cl_ID :: bytes
  cl_Attributes :: "bytes \<Rightarrow> bytes list option"

fun audLoop :: "bytes \<Rightarrow> bytes list \<Rightarrow> bool \<Rightarrow> bytes \<Rightarrow> bool \<times> bytes" where
  "audLoop cmp [] result sb = (result, sb)"
| "audLoop cmp (a # aud) result sb = audLoop cmp aud (if a = cmp then True else result) (sb @ a)"

definition verifyAud :: "bytes list \<Rightarrow> bytes \<Rightarrow> bool \<Rightarrow> bool" where
  "verifyAud aud cmp required =
     (if length aud = 0 then \<not> required
      else let (result, sb) = audLoop cmp aud False [] in
        if length sb = 0 then \<not> required else result)"

definition verifyExp :: "int option \<Rightarrow> int \<Rightarrow> int \<Rightarrow> bool \<Rightarrow> bool" where
  "verifyExp e now skew required = (case e of None \<Rightarrow> \<not> required | Some e \<Rightarrow> now - skew < e)"

definition verifyIat :: "int option \<Rightarrow> int \<Rightarrow> int \<Rightarrow> bool \<Rightarrow> bool" where
  "verifyIat iat now skew required =
     (case iat of None \<Rightarrow> \<not> required | Some iat \<Rightarrow> now + skew > iat \<or> now + skew = iat)"

definition verifyNbf :: "int option \<Rightarrow> int \<Rightarrow> int \<Rightarrow> bool \<Rightarrow> bool" where
  "verifyNbf nbf now skew required =
     (case nbf of None \<Rightarrow> \<not> required | Some nbf \<Rightarrow> now + skew > nbf \<or> now + skew = nbf)"

definition verifyIss :: "bytes \<Rightarrow> bytes \<Rightarrow> bool \<Rightarrow> bool" where
  "verifyIss iss cmp required = (if iss = [] then \<not> required else iss = cmp)"

section \<open>Errors, libraries and the service\<close>

datatype wfErr =
    ErrTokenMalformed
  | ErrTokenUnverifiable
  | ErrTokenSignatureInvalid
  | ErrTokenNonceInvalid
  | ErrTokenInvalidAudience
  | ErrTokenExpired
  | ErrTokenUsedBeforeIssued
  | ErrTokenInvalidIssuer
  | ErrTokenNotValidYet
  | UnsupportedWa bytes
  | NoEndpoint
  | FormError reqErr
  | LibError goErr

datatype sigErr = ErrMissingSignature | ErrInvalidSignature | OtherSigError goErr

text \<open>The parts of the metadata document that the code reads; absent elements are nil pointers.\<close>

record KeyDescriptor =
  kd_Use :: bytes
  kd_Certs :: "bytes list option"

record RoleDescriptor =
  rd_Type :: bytes
  rd_Keys :: "KeyDescriptor list"
  rd_Address :: "bytes option"

record EntityDescriptor =
  ed_EntityID :: bytes
  ed_Roles :: "RoleDescriptor list"

record ('x, 'k, 'u) wfLib =
  x_validate :: "bytes \<Rightarrow> goErr option"
  x_read :: "bytes \<Rightarrow> goErr + 'x option"
  x_FindElement :: "'x \<Rightarrow> bytes \<Rightarrow> 'x option"
  x_FindElements :: "'x \<Rightarrow> bytes \<Rightarrow> 'x list"
  x_Text :: "'x \<Rightarrow> bytes"
  x_Attr :: "'x \<Rightarrow> bytes \<Rightarrow> bytes option"
  x_toString :: "'x \<Rightarrow> goErr + bytes"
  x_verify :: "'k list \<Rightarrow> bytes \<Rightarrow> 'x \<Rightarrow> sigErr + 'x list"
  x_parseTime :: "bytes \<Rightarrow> goErr + int"
  x_unmarshal :: "bytes \<Rightarrow> goErr + EntityDescriptor"
  x_base64 :: "bytes \<Rightarrow> goErr + bytes"
  x_parseCert :: "bytes \<Rightarrow> goErr + 'k"
  x_urlParse :: "bytes \<Rightarrow> goErr + 'u"
  x_urlString :: "'u \<Rightarrow> bytes \<Rightarrow> bytes"

record ('k, 'u) WsFederation =
  wf_MetadataURL :: "'u option"
  wf_IDPEndpoint :: "'u option"
  wf_Issuer :: bytes
  wf_ClockSkew :: int
  wf_certs :: "'k list"
  wf_ready :: bool

datatype 'a outcome = Panic | Return 'a

definition ClearCertificateStore :: "('k, 'u) WsFederation \<Rightarrow> ('k, 'u) WsFederation" where
  "ClearCertificateStore p = p\<lparr>wf_certs := []\<rparr>"

definition AddTrustedSigningCertificate :: "'k \<Rightarrow> ('k, 'u) WsFederation \<Rightarrow> ('k, 'u) WsFederation" where
  "AddTrustedSigningCertificate c p = p\<lparr>wf_certs := wf_certs p @ [c]\<rparr>"

text \<open>\<open>st\<close> is the nonce store over the cache that \<open>New\<close> creates, or the error of creating it.\<close>

definition wfNew :: "('x, 'k, 'u) wfLib \<Rightarrow> goErr + 's \<Rightarrow> bytes \<Rightarrow> goErr + ('k, 'u) WsFederation \<times> 's" where
  "wfNew lib st metadataURL =
     (case (if metadataURL \<noteq> [] then (case x_urlParse lib metadataURL of Inl e \<Rightarrow> Inl e | Inr u \<Rightarrow> Inr (Some u)) else Inr None) of
        Inl e \<Rightarrow> Inl e
      | Inr u \<Rightarrow>
          (case st of
             Inl e \<Rightarrow> Inl e
           | Inr s \<Rightarrow> Inr (\<lparr>wf_MetadataURL = u, wf_IDPEndpoint = None, wf_Issuer = [], wf_ClockSkew = 5 * 60 * 1000000000,
                           wf_certs = [], wf_ready = False\<rparr>, s)))"

section \<open>Metadata\<close>

text \<open>
  \<open>check\<close> in the order of its loops. \<open>fetched\<close> is what the HTTP client gets from the metadata address. The
  service is returned as the loops leave it, also when they stop at an error.
\<close>

fun addCerts :: "('x, 'k, 'u) wfLib \<Rightarrow> bytes list \<Rightarrow> ('k, 'u) WsFederation \<Rightarrow> ('k, 'u) WsFederation \<times> wfErr option" where
  "addCerts lib [] p = (p, None)"
| "addCerts lib (d # ds) p =
     (if d = [] then addCerts lib ds p
      else case x_base64 lib d of
        Inl e \<Rightarrow> (p, Some (LibError e))
      | Inr data \<Rightarrow>
          (case x_parseCert lib data of
             Inl e \<Rightarrow> (p, Some (LibError e))
           | Inr c \<Rightarrow> addCerts lib ds (AddTrustedSigningCertificate c p)))"

fun addKeys ::
  "('x, 'k, 'u) wfLib \<Rightarrow> KeyDescriptor list \<Rightarrow> ('k, 'u) WsFederation \<Rightarrow> ('k, 'u) WsFederation \<times> wfErr option outcome" where
  "addKeys lib [] p = (p, Return None)"
| "addKeys lib (kd # kds) p =
     (if kd_Use kd \<noteq> ''signing'' then addKeys lib kds p
      else case kd_Certs kd of
        None \<Rightarrow> (p, Panic)
      | Some ds \<Rightarrow>
          (case addCerts lib ds p of
             (p, Some e) \<Rightarrow> (p, Return (Some e))
           | (p, None) \<Rightarrow> addKeys lib kds p))"

definition isSTS :: "bytes \<Rightarrow> bool" where
  "isSTS t \<longleftrightarrow> HasSuffix t '':SecurityTokenServiceType'' \<or> t = ''SecurityTokenServiceType''"

fun addRoles ::
  "('x, 'k, 'u) wfLib \<Rightarrow> RoleDescriptor list \<Rightarrow> ('k, 'u) WsFederation \<Rightarrow> ('k, 'u) WsFederation \<times> wfErr option outcome" where
  "addRoles lib [] p = (p, Return None)"
| "addRoles lib (r # rs) p =
     (if \<not> isSTS (rd_Type r) then addRoles lib rs p
      else case addKeys lib (rd_Keys r) p of
        (p, Return None) \<Rightarrow>
          (case rd_Address r of
             None \<Rightarrow> (p, Panic)
           | Some a \<Rightarrow>
               (case x_urlParse lib a of
                  Inl e \<Rightarrow> (p, Return (Some (LibError e)))
                | Inr addr \<Rightarrow> addRoles lib rs (p\<lparr>wf_IDPEndpoint := Some addr\<rparr>)))
      | (p, r) \<Rightarrow> (p, r))"

definition prefixErr :: "bytes \<Rightarrow> goErr \<Rightarrow> goErr" where
  "prefixErr s e = e\<lparr>e_Error := s @ e_Error e\<rparr>"

definition wfCheck ::
  "('x, 'k, 'u) wfLib \<Rightarrow> goErr + bytes \<Rightarrow> bool \<Rightarrow> ('k, 'u) WsFederation \<Rightarrow> ('k, 'u) WsFederation \<times> wfErr option outcome" where
  "wfCheck lib fetched force p =
     (if wf_ready p \<and> \<not> force then (p, Return None)
      else if wf_MetadataURL p = None then
        (if wf_IDPEndpoint p = None then (p, Return (Some NoEndpoint)) else (p\<lparr>wf_ready := True\<rparr>, Return None))
      else case fetched of
        Inl e \<Rightarrow> (p, Return (Some (LibError (prefixErr ''failed to get WS-Federation metadata: '' e))))
      | Inr buf \<Rightarrow>
          (case x_unmarshal lib buf of
             Inl e \<Rightarrow> (p, Return (Some (LibError (prefixErr ''failed to unmarshal WS-Federation server metadata: '' e))))
           | Inr metadata \<Rightarrow>
               (case addRoles lib (ed_Roles metadata) ((ClearCertificateStore p)\<lparr>wf_Issuer := ed_EntityID metadata\<rparr>) of
                  (p, Return None) \<Rightarrow> (p\<lparr>wf_ready := True\<rparr>, Return None)
                | (p, r) \<Rightarrow> (p, r))))"

definition RefreshMetadata ::
  "('x, 'k, 'u) wfLib \<Rightarrow> goErr + bytes \<Rightarrow> ('k, 'u) WsFederation \<Rightarrow> ('k, 'u) WsFederation \<times> wfErr option outcome" where
  "RefreshMetadata lib fetched p = (if wf_MetadataURL p = None then (p, Return None) else wfCheck lib fetched True p)"

definition wfReady ::
  "('x, 'k, 'u) wfLib \<Rightarrow> goErr + bytes \<Rightarrow> ('k, 'u) WsFederation \<Rightarrow> ('k, 'u) WsFederation \<times> bool outcome" where
  "wfReady lib fetched p =
     (case wfCheck lib fetched False p of
        (p, Panic) \<Rightarrow> (p, Panic)
      | (p, Return (Some _)) \<Rightarrow> (p, Return False)
      | (p, Return None) \<Rightarrow> (p, Return (wf_ready p)))"

section \<open>Tokens\<close>

record Token =
  tk_Raw :: bytes
  tk_Validated :: bytes
  tk_Claims :: RegisteredClaims
  tk_Signature :: bytes
  tk_Valid :: bool

definition tokenClaimValue :: "Token \<Rightarrow> bytes \<Rightarrow> bytes" where
  "tokenClaimValue t name = (case cl_Attributes (tk_Claims t) name of Some (c # _) \<Rightarrow> c | _ \<Rightarrow> [])"

definition tokenClaimValues :: "Token \<Rightarrow> bytes \<Rightarrow> bytes list" where
  "tokenClaimValues t name = (case cl_Attributes (tk_Claims t) name of Some cs \<Rightarrow> cs | None \<Rightarrow> [])"

record tokenParseOptions =
  po_SaveToken :: bool
  po_ClockSkew :: int
  po_Audience :: bytes
  po_CheckExp :: bool
  po_CheckIat :: bool
  po_CheckNbf :: bool
  po_CheckIssuer :: bool

datatype TokenParseOption =
    SaveToken bool
  | TokenClockSkew int
  | TokenValidateIssuer bool
  | TokenAudience bytes
  | TokenValidateIssuedAt bool
  | TokenValidateExpiresAt bool
  | TokenValidateNotBefore bool

fun applyParseOption :: "TokenParseOption \<Rightarrow> tokenParseOptions \<Rightarrow> tokenParseOptions" where
  "applyParseOption (SaveToken o') p = p\<lparr>po_SaveToken := o'\<rparr>"
| "applyParseOption (TokenClockSkew o') p = p\<lparr>po_ClockSkew := o'\<rparr>"
| "applyParseOption (TokenValidateIssuer o') p = p\<lparr>po_CheckIssuer := o'\<rparr>"
| "applyParseOption (TokenAudience o') p = p\<lparr>po_Audience := o'\<rparr>"
| "applyParseOption (TokenValidateIssuedAt o') p = p\<lparr>po_CheckIat := o'\<rparr>"
| "applyParseOption (TokenValidateExpiresAt o') p = p\<lparr>po_CheckExp := o'\<rparr>"
| "applyParseOption (TokenValidateNotBefore o') p = p\<lparr>po_CheckNbf := o'\<rparr>"

definition attrValue :: "('x, 'k, 'u) wfLib \<Rightarrow> 'x \<Rightarrow> bytes \<Rightarrow> bytes" where
  "attrValue lib el key = (case x_Attr lib el key of Some v \<Rightarrow> v | None \<Rightarrow> [])"

text \<open>The assertion of a document, and which attribute holds its id.\<close>

definition findAssertion :: "('x, 'k, 'u) wfLib \<Rightarrow> bytes \<Rightarrow> wfErr + 'x" where
  "findAssertion lib resp =
     (case x_validate lib resp of
        Some e \<Rightarrow> Inl (LibError e)
      | None \<Rightarrow>
          (case x_read lib resp of
             Inl e \<Rightarrow> Inl (LibError e)
           | Inr None \<Rightarrow> Inl ErrTokenMalformed
           | Inr (Some el) \<Rightarrow>
               (case x_FindElement lib el ''//Assertion'' of
                  None \<Rightarrow> Inl ErrTokenMalformed
                | Some el \<Rightarrow> Inr el)))"

definition idAttrOf :: "('x, 'k, 'u) wfLib \<Rightarrow> 'x \<Rightarrow> bytes" where
  "idAttrOf lib el = (if x_Attr lib el ''ID'' = None then ''AssertionID'' else ''ID'')"

definition verifySignature :: "('x, 'k, 'u) wfLib \<Rightarrow> 'k list \<Rightarrow> 'x \<Rightarrow> wfErr + 'x" where
  "verifySignature lib certs el =
     (case x_verify lib certs (idAttrOf lib el) el of
        Inl ErrMissingSignature \<Rightarrow> Inl ErrTokenUnverifiable
      | Inl ErrInvalidSignature \<Rightarrow> Inl ErrTokenSignatureInvalid
      | Inl (OtherSigError e) \<Rightarrow> Inl (LibError e)
      | Inr [] \<Rightarrow> Inl ErrTokenMalformed
      | Inr (v # _) \<Rightarrow> Inr v)"

text \<open>The texts kept with the token: the whole assertion, its signature and what was signed.\<close>

definition savedTexts :: "('x, 'k, 'u) wfLib \<Rightarrow> 'x \<Rightarrow> 'x \<Rightarrow> wfErr + bytes \<times> bytes \<times> bytes" where
  "savedTexts lib el validated =
     (case x_toString lib el of
        Inl e \<Rightarrow> Inl (LibError e)
      | Inr raw \<Rightarrow>
          (case x_FindElement lib el ''./Signature'' of
             None \<Rightarrow> Inl ErrTokenMalformed
           | Some signel \<Rightarrow>
               (case x_toString lib signel of
                  Inl e \<Rightarrow> Inl (LibError e)
                | Inr signature \<Rightarrow>
                    (case x_toString lib validated of
                       Inl e \<Rightarrow> Inl (LibError e)
                     | Inr validatedRaw \<Rightarrow> Inr (raw, signature, validatedRaw)))))"

definition optTime :: "('x, 'k, 'u) wfLib \<Rightarrow> bytes \<Rightarrow> wfErr + int option" where
  "optTime lib s =
     (if length s > 0 then (case x_parseTime lib s of Inl e \<Rightarrow> Inl (LibError e) | Inr t \<Rightarrow> Inr (Some t)) else Inr None)"

definition issuerOf :: "('x, 'k, 'u) wfLib \<Rightarrow> 'x \<Rightarrow> bytes" where
  "issuerOf lib v =
     (if length (attrValue lib v ''Issuer'') > 0 then attrValue lib v ''Issuer''
      else case x_FindElement lib v ''./Issuer'' of Some i \<Rightarrow> x_Text lib i | None \<Rightarrow> [])"

definition subjectOf :: "('x, 'k, 'u) wfLib \<Rightarrow> 'x \<Rightarrow> bytes \<times> bytes" where
  "subjectOf lib v =
     (case x_FindElement lib v ''./AttributeStatement/Subject/NameIdentifier'' of
        Some sub \<Rightarrow> (x_Text lib sub, attrValue lib sub ''Format'')
      | None \<Rightarrow>
          (case x_FindElement lib v ''./Subject/NameID'' of
             Some sub \<Rightarrow> (x_Text lib sub, attrValue lib sub ''Format'')
           | None \<Rightarrow> ([], [])))"

definition audiencesOf :: "('x, 'k, 'u) wfLib \<Rightarrow> 'x \<Rightarrow> bytes list" where
  "audiencesOf lib cond =
     map (x_Text lib) (x_FindElements lib cond ''./AudienceRestrictionCondition/Audience'') @
     map (x_Text lib) (x_FindElements lib cond ''./AudienceRestriction/Audience'')"

definition conditionsOf :: "('x, 'k, 'u) wfLib \<Rightarrow> 'x \<Rightarrow> RegisteredClaims \<Rightarrow> wfErr + RegisteredClaims" where
  "conditionsOf lib v cl =
     (case x_FindElement lib v ''./Conditions'' of
        None \<Rightarrow> Inr cl
      | Some cond \<Rightarrow>
          (case optTime lib (attrValue lib cond ''NotBefore'') of
             Inl e \<Rightarrow> Inl e
           | Inr nbf \<Rightarrow>
               (case optTime lib (attrValue lib cond ''NotOnOrAfter'') of
                  Inl e \<Rightarrow> Inl e
                | Inr e \<Rightarrow> Inr (cl\<lparr>cl_NotBefore := nbf, cl_ExpiresAt := e, cl_Audience := cl_Audience cl @ audiencesOf lib cond\<rparr>))))"

definition attrName :: "('x, 'k, 'u) wfLib \<Rightarrow> 'x \<Rightarrow> bytes" where
  "attrName lib attr =
     (let name = attrValue lib attr ''Name'' in
      if length name = 0
      then let ns = attrValue lib attr ''AttributeNamespace''; name = attrValue lib attr ''AttributeName'' in
           if length ns > 0 \<and> length name > 0 then ns @ ''/'' @ name else name
      else name)"

fun attributesOf :: "('x, 'k, 'u) wfLib \<Rightarrow> 'x list \<Rightarrow> (bytes \<Rightarrow> bytes list option) \<Rightarrow> wfErr + (bytes \<Rightarrow> bytes list option)" where
  "attributesOf lib [] m = Inr m"
| "attributesOf lib (a # as) m =
     (if length (attrName lib a) = 0 then Inl ErrTokenMalformed
      else attributesOf lib as (m(attrName lib a \<mapsto> map (x_Text lib) (x_FindElements lib a ''./AttributeValue''))))"

definition claimsOf :: "('x, 'k, 'u) wfLib \<Rightarrow> bytes \<Rightarrow> 'x \<Rightarrow> wfErr + RegisteredClaims" where
  "claimsOf lib idAttr v =
     (case optTime lib (attrValue lib v ''IssueInstant'') of
        Inl e \<Rightarrow> Inl e
      | Inr iat \<Rightarrow>
          (case conditionsOf lib v
             \<lparr>cl_Issuer = issuerOf lib v, cl_SubjectID = fst (subjectOf lib v), cl_SubjectFormat = snd (subjectOf lib v),
              cl_Audience = [], cl_ExpiresAt = None, cl_NotBefore = None, cl_IssuedAt = iat,
              cl_ID = attrValue lib v idAttr, cl_Attributes = Map.empty\<rparr> of
             Inl e \<Rightarrow> Inl e
           | Inr cl \<Rightarrow>
               (case attributesOf lib (x_FindElements lib v ''./AttributeStatement/Attribute'') Map.empty of
                  Inl e \<Rightarrow> Inl e
                | Inr m \<Rightarrow> Inr (cl\<lparr>cl_Attributes := m\<rparr>))))"

definition decodeResponse ::
  "('x, 'k, 'u) wfLib \<Rightarrow> ('k, 'u) WsFederation \<Rightarrow> bytes \<Rightarrow> tokenParseOptions \<Rightarrow> wfErr + Token" where
  "decodeResponse lib p resp opts =
     (case findAssertion lib resp of
        Inl e \<Rightarrow> Inl e
      | Inr el \<Rightarrow>
          (case verifySignature lib (wf_certs p) el of
             Inl e \<Rightarrow> Inl e
           | Inr validated \<Rightarrow>
               (case (if po_SaveToken opts then savedTexts lib el validated else Inr ([], [], [])) of
                  Inl e \<Rightarrow> Inl e
                | Inr (raw, signature, validatedRaw) \<Rightarrow>
                    (case claimsOf lib (idAttrOf lib el) validated of
                       Inl e \<Rightarrow> Inl e
                     | Inr cl \<Rightarrow> Inr \<lparr>tk_Raw = raw, tk_Validated = validatedRaw, tk_Claims = cl,
                                      tk_Signature = signature, tk_Valid = False\<rparr>))))"

text \<open>The checks of \<open>Parse\<close>: each overwrites the error of the ones before.\<close>

definition checkClaims :: "('k, 'u) WsFederation \<Rightarrow> tokenParseOptions \<Rightarrow> int \<Rightarrow> RegisteredClaims \<Rightarrow> wfErr option" where
  "checkClaims p opts now cl =
     (let err = None;
          err = (if po_CheckIssuer opts \<and> wf_Issuer p \<noteq> [] \<and> \<not> verifyIss (wf_Issuer p) (cl_Issuer cl) True
                 then Some ErrTokenInvalidIssuer else err);
          err = (if po_Audience opts \<noteq> [] \<and> \<not> verifyAud (cl_Audience cl) (po_Audience opts) True
                 then Some ErrTokenInvalidAudience else err);
          err = (if \<not> verifyIat (cl_IssuedAt cl) now (po_ClockSkew opts) True \<and> po_CheckIat opts
                 then Some ErrTokenUsedBeforeIssued else err);
          err = (if \<not> verifyExp (cl_ExpiresAt cl) now (po_ClockSkew opts) True \<and> po_CheckExp opts
                 then Some ErrTokenExpired else err);
          err = (if \<not> verifyNbf (cl_NotBefore cl) now (po_ClockSkew opts) True \<and> po_CheckNbf opts
                 then Some ErrTokenNotValidYet else err)
      in err)"

definition parseOptions :: "('k, 'u) WsFederation \<Rightarrow> TokenParseOption list \<Rightarrow> tokenParseOptions" where
  "parseOptions p opt = foldl (\<lambda>opts o'. applyParseOption o' opts)
     \<lparr>po_SaveToken = False, po_ClockSkew = wf_ClockSkew p, po_Audience = [], po_CheckExp = True, po_CheckIat = True,
      po_CheckNbf = True, po_CheckIssuer = True\<rparr> opt"

text \<open>
  \<open>Parse\<close> returns the service, and unless it panics a token and an error, of which both may be set. An invalid
  signature is tried once more after the metadata has been read again. The clock is read once here.
\<close>

definition parseToken ::
  "('x, 'k, 'u) wfLib \<Rightarrow> goErr + bytes \<Rightarrow> int \<Rightarrow> bytes \<Rightarrow> TokenParseOption list \<Rightarrow> ('k, 'u) WsFederation \<Rightarrow>
   ('k, 'u) WsFederation \<times> (Token option \<times> wfErr option) outcome" where
  "parseToken lib fetched now token opt p =
     (let opts = parseOptions p opt;
          (p, res) = (case decodeResponse lib p token opts of
             Inr t \<Rightarrow> (p, Return (Inr t))
           | Inl err \<Rightarrow>
               if wf_MetadataURL p \<noteq> None \<and> err = ErrTokenSignatureInvalid
               then (case RefreshMetadata lib fetched p of
                       (p, Panic) \<Rightarrow> (p, Panic)
                     | (p, Return None) \<Rightarrow> (p, Return (decodeResponse lib p token opts))
                     | (p, Return (Some _)) \<Rightarrow> (p, Return (Inl err)))
               else (p, Return (Inl err)))
      in case res of
           Panic \<Rightarrow> (p, Panic)
         | Return (Inl err) \<Rightarrow> (p, Return (None, Some err))
         | Return (Inr t) \<Rightarrow>
             (let err = checkClaims p opts now (tk_Claims t) in (p, Return (Some (t\<lparr>tk_Valid := err = None\<rparr>), err))))"

section \<open>Reading a response\<close>

definition isSignoutResponse :: "args \<Rightarrow> 'f form \<Rightarrow> bool" where
  "isSignoutResponse query form =
     (let wa = (case queryStringOptional query ''wa'' of Some w \<Rightarrow> Some w | None \<Rightarrow> formStringOptional form ''wa'') in
      case wa of None \<Rightarrow> False | Some w \<Rightarrow> w = ''wsignoutcleanup1.0'' \<or> w = ''wsignout1.0'')"

text \<open>The nonce store is the operation \<open>verify\<close> on its state.\<close>

definition readResponse ::
  "('x, 'k, 'u) wfLib \<Rightarrow> (bytes \<Rightarrow> 's \<Rightarrow> (goErr + bool) \<times> 's) \<Rightarrow> goErr + bytes \<Rightarrow> int \<Rightarrow> TokenParseOption list \<Rightarrow>
   args \<Rightarrow> 'f form \<Rightarrow> ('k, 'u) WsFederation \<times> 's \<Rightarrow> (('k, 'u) WsFederation \<times> 's) \<times> (Token option \<times> wfErr option) outcome" where
  "readResponse lib verify fetched now opt query form ps =
     (if isSignoutResponse query form then (ps, Return (None, None))
      else case formString form ''wa'' of
        Inl e \<Rightarrow> (ps, Return (None, Some (FormError e)))
      | Inr wa \<Rightarrow>
          if wa \<noteq> ''wsignin1.0'' then (ps, Return (None, Some (UnsupportedWa wa)))
          else case formString form ''wctx'' of
            Inl e \<Rightarrow> (ps, Return (None, Some (FormError e)))
          | Inr wctx \<Rightarrow>
              (case verify wctx (snd ps) of
                 (Inr True, st) \<Rightarrow>
                   (case formString form ''wresult'' of
                      Inl e \<Rightarrow> ((fst ps, st), Return (None, Some (FormError e)))
                    | Inr wresult \<Rightarrow>
                        (case parseToken lib fetched now wresult opt (fst ps) of (p, r) \<Rightarrow> ((p, st), r)))
               | (_, st) \<Rightarrow> ((fst ps, st), Return (None, Some ErrTokenNonceInvalid))))"

section \<open>Addresses\<close>

record requestParams =
  rp_Wreply :: bytes
  rp_Params :: "(bytes \<times> bytes) list"

datatype RequestOption = WithRequestWreply bytes | WithRequestParam bytes bytes

fun applyRequestOption :: "RequestOption \<Rightarrow> requestParams \<Rightarrow> requestParams" where
  "applyRequestOption (WithRequestWreply o') p = p\<lparr>rp_Wreply := o'\<rparr>"
| "applyRequestOption (WithRequestParam n v) p = p\<lparr>rp_Params := rp_Params p @ [(n, v)]\<rparr>"

definition requestOptions :: "RequestOption list \<Rightarrow> requestParams" where
  "requestOptions options = foldl (\<lambda>p o'. applyRequestOption o' p) \<lparr>rp_Wreply = [], rp_Params = []\<rparr> options"

text \<open>\<open>stamp\<close> is the current time in RFC 3339 form. A nil endpoint after a successful check is dereferenced.\<close>

definition signinURL ::
  "('x, 'k, 'u) wfLib \<Rightarrow> ('s \<Rightarrow> (goErr + bytes) \<times> 's) \<Rightarrow> goErr + bytes \<Rightarrow> bytes \<Rightarrow> bytes \<Rightarrow> RequestOption list \<Rightarrow>
   ('k, 'u) WsFederation \<times> 's \<Rightarrow> (('k, 'u) WsFederation \<times> 's) \<times> (wfErr + bytes) outcome" where
  "signinURL lib create fetched stamp realm options ps =
     (case wfCheck lib fetched False (fst ps) of
        (p, Panic) \<Rightarrow> ((p, snd ps), Panic)
      | (p, Return (Some e)) \<Rightarrow> ((p, snd ps), Return (Inl e))
      | (p, Return None) \<Rightarrow>
          (case wf_IDPEndpoint p of
             None \<Rightarrow> ((p, snd ps), Panic)
           | Some u \<Rightarrow>
               let rp = requestOptions options in
               (case create (snd ps) of
                  (Inl e, st) \<Rightarrow> ((p, st), Return (Inl (LibError e)))
                | (Inr wctx, st) \<Rightarrow>
                    ((p, st), Return (Inr (x_urlString lib u (ValuesEncode
                       ([(''wa'', ''wsignin1.0''), (''wtrealm'', realm)] @
                        (if rp_Wreply rp \<noteq> [] then [(''wreply'', rp_Wreply rp)] else []) @
                        [(''wct'', stamp), (''wctx'', wctx)] @ rp_Params rp))))))))"

definition signoutURL ::
  "('x, 'k, 'u) wfLib \<Rightarrow> goErr + bytes \<Rightarrow> bytes \<Rightarrow> RequestOption list \<Rightarrow> ('k, 'u) WsFederation \<Rightarrow>
   ('k, 'u) WsFederation \<times> (wfErr + bytes) outcome" where
  "signoutURL lib fetched realm options p =
     (case wfCheck lib fetched False p of
        (p, Panic) \<Rightarrow> (p, Panic)
      | (p, Return (Some e)) \<Rightarrow> (p, Return (Inl e))
      | (p, Return None) \<Rightarrow>
          (case wf_IDPEndpoint p of
             None \<Rightarrow> (p, Panic)
           | Some u \<Rightarrow>
               let rp = requestOptions options in
               (p, Return (Inr (x_urlString lib u (ValuesEncode
                  ([(''wa'', ''wsignout1.0''), (''wtrealm'', realm)] @
                   (if rp_Wreply rp \<noteq> [] then [(''wreply'', rp_Wreply rp)] else []))))))))"

section \<open>What a check accepts\<close>

lemma audLoop_eq: "audLoop cmp aud r sb = (r \<or> cmp \<in> set aud, sb @ concat aud)"
  by (induction cmp aud r sb rule: audLoop.induct) auto

lemma verifyAud_iff: "cmp \<noteq> [] \<Longrightarrow> verifyAud aud cmp True \<longleftrightarrow> cmp \<in> set aud"
  by (auto simp: verifyAud_def audLoop_eq)

lemma verify_iffs:
  "verifyIat a now skew True \<longleftrightarrow> (\<exists>t. a = Some t \<and> t \<le> now + skew)"
  "verifyNbf a now skew True \<longleftrightarrow> (\<exists>t. a = Some t \<and> t \<le> now + skew)"
  "verifyExp a now skew True \<longleftrightarrow> (\<exists>t. a = Some t \<and> now - skew < t)"
  by (auto simp: verifyIat_def verifyNbf_def verifyExp_def split: option.splits)

lemma checkClaims_None:
  "checkClaims p opts now cl = None \<longleftrightarrow>
     (po_CheckIssuer opts \<and> wf_Issuer p \<noteq> [] \<longrightarrow> cl_Issuer cl = wf_Issuer p) \<and>
     (po_Audience opts \<noteq> [] \<longrightarrow> po_Audience opts \<in> set (cl_Audience cl)) \<and>
     (po_CheckIat opts \<longrightarrow> (\<exists>t. cl_IssuedAt cl = Some t \<and> t \<le> now + po_ClockSkew opts)) \<and>
     (po_CheckExp opts \<longrightarrow> (\<exists>t. cl_ExpiresAt cl = Some t \<and> now - po_ClockSkew opts < t)) \<and>
     (po_CheckNbf opts \<longrightarrow> (\<exists>t. cl_NotBefore cl = Some t \<and> t \<le> now + po_ClockSkew opts))"
proof -
  have "checkClaims p opts now cl = None \<longleftrightarrow>
     \<not> (po_CheckIssuer opts \<and> wf_Issuer p \<noteq> [] \<and> \<not> verifyIss (wf_Issuer p) (cl_Issuer cl) True) \<and>
     \<not> (po_Audience opts \<noteq> [] \<and> \<not> verifyAud (cl_Audience cl) (po_Audience opts) True) \<and>
     \<not> (\<not> verifyIat (cl_IssuedAt cl) now (po_ClockSkew opts) True \<and> po_CheckIat opts) \<and>
     \<not> (\<not> verifyExp (cl_ExpiresAt cl) now (po_ClockSkew opts) True \<and> po_CheckExp opts) \<and>
     \<not> (\<not> verifyNbf (cl_NotBefore cl) now (po_ClockSkew opts) True \<and> po_CheckNbf opts)"
    unfolding checkClaims_def Let_def by (simp split: if_split)
  moreover have "po_Audience opts \<noteq> [] \<and> \<not> verifyAud (cl_Audience cl) (po_Audience opts) True \<longleftrightarrow>
      po_Audience opts \<noteq> [] \<and> po_Audience opts \<notin> set (cl_Audience cl)"
    using verifyAud_iff by blast
  moreover have "po_CheckIssuer opts \<and> wf_Issuer p \<noteq> [] \<and> \<not> verifyIss (wf_Issuer p) (cl_Issuer cl) True \<longleftrightarrow>
      po_CheckIssuer opts \<and> wf_Issuer p \<noteq> [] \<and> cl_Issuer cl \<noteq> wf_Issuer p"
    by (auto simp: verifyIss_def)
  ultimately show ?thesis unfolding verify_iffs by blast
qed

text \<open>A decoded token has claims read from an element that the signature check has returned.\<close>

definition signedClaims :: "('x, 'k, 'u) wfLib \<Rightarrow> 'k list \<Rightarrow> bytes \<Rightarrow> RegisteredClaims \<Rightarrow> bool" where
  "signedClaims lib certs resp cl \<longleftrightarrow>
     (\<exists>el v vs. findAssertion lib resp = Inr el \<and> x_verify lib certs (idAttrOf lib el) el = Inr (v # vs) \<and>
        claimsOf lib (idAttrOf lib el) v = Inr cl)"

lemma verifySignature_Inr:
  "verifySignature lib certs el = Inr v \<longleftrightarrow> (\<exists>vs. x_verify lib certs (idAttrOf lib el) el = Inr (v # vs))"
  by (auto simp: verifySignature_def split: sum.splits sigErr.splits list.splits)

lemma decode_signed:
  assumes "decodeResponse lib p resp opts = Inr t"
  shows "signedClaims lib (wf_certs p) resp (tk_Claims t)"
  using assms
  by (auto simp: decodeResponse_def signedClaims_def verifySignature_Inr split: sum.splits if_splits)

lemma parse_cases:
  assumes "parseToken lib fetched now token opt p = (p', Return (Some t, err))"
  shows "signedClaims lib (wf_certs p') token (tk_Claims t) \<and> tk_Valid t = (err = None) \<and>
    err = checkClaims p' (parseOptions p opt) now (tk_Claims t)"
proof -
  let ?opts = "parseOptions p opt"
  show ?thesis
  proof (cases "decodeResponse lib p token ?opts")
    case (Inr t0)
    then show ?thesis using assms decode_signed [OF Inr] by (auto simp: parseToken_def Let_def)
  next
    case (Inl e)
    show ?thesis
    proof (cases "wf_MetadataURL p \<noteq> None \<and> e = ErrTokenSignatureInvalid")
      case False
      then show ?thesis using assms Inl by (auto simp: parseToken_def Let_def)
    next
      case True
      obtain p1 r where R: "RefreshMetadata lib fetched p = (p1, r)" by (cases "RefreshMetadata lib fetched p")
      show ?thesis
      proof (cases "r = Return None")
        case True2: True
        show ?thesis
        proof (cases "decodeResponse lib p1 token ?opts")
          case (Inr t0)
          with decode_signed [OF this] assms Inl True R True2 show ?thesis by (auto simp: parseToken_def Let_def)
        qed (use assms Inl True R True2 in \<open>simp add: parseToken_def Let_def\<close>)
      next
        case False
        with assms Inl True R show ?thesis
          by (cases r) (auto simp: parseToken_def Let_def split: option.splits)
      qed
    qed
  qed
qed

lemma read_cases:
  assumes "readResponse lib verify fetched now opt query form (p, st) = ((p', st'), Return (Some t, err))"
  obtains wctx wresult where "formString form ''wa'' = Inr ''wsignin1.0''" "formString form ''wctx'' = Inr wctx"
    "verify wctx st = (Inr True, st')" "formString form ''wresult'' = Inr wresult"
    "parseToken lib fetched now wresult opt p = (p', Return (Some t, err))"
proof -
  from assms obtain wa where wa: "formString form ''wa'' = Inr wa" "\<not> isSignoutResponse query form" "wa = ''wsignin1.0''"
    by (auto simp: readResponse_def split: if_splits sum.splits)
  with assms obtain wctx where wctx: "formString form ''wctx'' = Inr wctx"
    by (auto simp: readResponse_def split: sum.splits)
  obtain r st1 where v: "verify wctx st = (r, st1)" by (cases "verify wctx st")
  with assms wa wctx have r: "r = Inr True"
    by (cases r) (auto simp: readResponse_def split: bool.splits)
  with assms wa wctx v obtain wresult where res: "formString form ''wresult'' = Inr wresult"
    by (auto simp: readResponse_def split: sum.splits)
  obtain p1 out where pt: "parseToken lib fetched now wresult opt p = (p1, out)" by (cases "parseToken lib fetched now wresult opt p")
  with assms wa wctx v r res have "p1 = p'" "out = Return (Some t, err)" "st1 = st'"
    by (simp_all add: readResponse_def)
  with that wa wctx v r res pt show thesis by simp
qed

section \<open>Properties\<close>

text \<open>
  C29. What a sign-in that succeeds has shown, whatever the request holds. The form carries a nonce that was live
  and is used up; the claims are read from an element that the signature check over the service's certificates
  has returned for the assertion in the form; the token is marked valid; and its issuer, audience and times pass every
  check that is switched on. The nonce store keeps its contract, as the store of \<open>Nonce\<close> does over a cache whose deletions do not fail.
\<close>

theorem wsfed_accept:
  assumes "nonce_store create verify live"
    and "readResponse lib verify fetched now opt query form (p, st) = ((p', st'), Return (Some t, None))"
  shows "let opts = parseOptions p opt; cl = tk_Claims t in
    (\<exists>wctx. formString form ''wctx'' = Inr wctx \<and> live st wctx \<and> \<not> live st' wctx) \<and>
    (\<exists>wresult. formString form ''wresult'' = Inr wresult \<and> signedClaims lib (wf_certs p') wresult cl) \<and>
    tk_Valid t \<and>
    (po_CheckIssuer opts \<and> wf_Issuer p' \<noteq> [] \<longrightarrow> cl_Issuer cl = wf_Issuer p') \<and>
    (po_Audience opts \<noteq> [] \<longrightarrow> po_Audience opts \<in> set (cl_Audience cl)) \<and>
    (po_CheckIat opts \<longrightarrow> (\<exists>i. cl_IssuedAt cl = Some i \<and> i \<le> now + po_ClockSkew opts)) \<and>
    (po_CheckExp opts \<longrightarrow> (\<exists>e. cl_ExpiresAt cl = Some e \<and> now - po_ClockSkew opts < e)) \<and>
    (po_CheckNbf opts \<longrightarrow> (\<exists>n. cl_NotBefore cl = Some n \<and> n \<le> now + po_ClockSkew opts))"
proof -
  obtain wctx wresult where r: "formString form ''wctx'' = Inr wctx" "verify wctx st = (Inr True, st')"
    "formString form ''wresult'' = Inr wresult" "parseToken lib fetched now wresult opt p = (p', Return (Some t, None))"
    by (rule read_cases [OF assms(2)])
  have live: "live st wctx \<and> \<not> live st' wctx"
    by (rule nonce_store.verify_live [OF assms(1) r(2)])
  have c: "signedClaims lib (wf_certs p') wresult (tk_Claims t)" "tk_Valid t"
    "checkClaims p' (parseOptions p opt) now (tk_Claims t) = None"
    using parse_cases [OF r(4)] by auto
  from c(3) r(1,3) live c(1,2) show ?thesis
    unfolding Let_def checkClaims_None by blast
qed

text \<open>
  C30. A response cannot be replayed. Once a response has been read to the end, whether its token was valid or
  not, a later request with the same nonce, whatever else it holds and whatever the service has become, is given no
  token: unless it is a sign-out, the error is that the nonce is invalid or that the form is incomplete. The nonce store keeps its
  contract, as the store of \<open>Nonce\<close> does over a cache whose deletions do not fail.
\<close>

theorem wsfed_replay:
  assumes "nonce_store create verify live"
    and "readResponse lib verify fetched now opt query form (p, st) = ((p', st'), Return (Some t, err))"
    and "formString form2 ''wctx'' = formString form ''wctx''"
  shows "\<exists>st2 err2. readResponse lib2 verify fetched2 now2 opt2 query2 form2 (p2, st') = ((p2, st2), Return (None, err2)) \<and>
    (formString form2 ''wa'' = Inr ''wsignin1.0'' \<and> \<not> isSignoutResponse query2 form2 \<longrightarrow> err2 = Some ErrTokenNonceInvalid)"
proof -
  obtain wctx where r: "formString form ''wctx'' = Inr wctx" "verify wctx st = (Inr True, st')"
    by (rule read_cases [OF assms(2)])
  have "\<not> live st' wctx"
    using nonce_store.verify_live [OF assms(1) r(2)] by blast
  then have "fst (verify wctx st') \<noteq> Inr True" by (rule nonce_store.dead_verify [OF assms(1)])
  then obtain v st2 where v: "verify wctx st' = (v, st2)" "v \<noteq> Inr True" by (metis prod.collapse fst_conv)
  show ?thesis
  proof (cases "isSignoutResponse query2 form2 \<or> formString form2 ''wa'' \<noteq> Inr ''wsignin1.0''")
    case True
    then show ?thesis by (auto simp: readResponse_def split: sum.splits)
  next
    case False
    with v r(1) assms(3) show ?thesis
      by (cases v) (auto simp: readResponse_def split: bool.splits)
  qed
qed

text \<open>A document library with one assertion, for the witnesses.\<close>

definition demoXml :: "(nat, nat, bytes) wfLib" where
  "demoXml = \<lparr>x_validate = (\<lambda>_. None), x_read = (\<lambda>_. Inr (Some 0)),
     x_FindElement = (\<lambda>el path. if path = ''//Assertion'' then Some 1 else if path = ''./Conditions'' then Some 2 else None),
     x_FindElements = (\<lambda>_ _. []), x_Text = (\<lambda>_. []),
     x_Attr = (\<lambda>el k. if k = ''NotOnOrAfter'' then Some ''late'' else if k = ''NotBefore'' \<or> k = ''IssueInstant'' then Some ''early'' else None),
     x_toString = (\<lambda>_. Inr []), x_verify = (\<lambda>certs _ el. if 7 \<in> set certs then Inr [el] else Inl ErrInvalidSignature),
     x_parseTime = (\<lambda>s. Inr (if s = ''late'' then 1000 else 0)), x_unmarshal = (\<lambda>_. Inr \<lparr>ed_EntityID = [], ed_Roles = []\<rparr>),
     x_base64 = Inr, x_parseCert = (\<lambda>_. Inr 7), x_urlParse = Inr, x_urlString = (\<lambda>u q. u @ ''?'' @ q)\<rparr>"

definition demoService :: "(nat, bytes) WsFederation" where
  "demoService = \<lparr>wf_MetadataURL = None, wf_IDPEndpoint = Some ''https://idp'', wf_Issuer = [], wf_ClockSkew = 0,
     wf_certs = [7], wf_ready = True\<rparr>"

definition demoForm :: "unit form" where
  "demoForm = PostArgs \<lparr>args_All = [], args_Peek = (\<lambda>k. if k = ''wa'' then ''wsignin1.0'' else if k = ''wctx'' then ''0'' else ''<x/>'')\<rparr>"

definition noArgs :: args where
  "noArgs = \<lparr>args_All = [], args_Peek = (\<lambda>_. [])\<rparr>"

definition demoClaims :: RegisteredClaims where
  "demoClaims = \<lparr>cl_Issuer = [], cl_SubjectID = [], cl_SubjectFormat = [], cl_Audience = [], cl_ExpiresAt = Some 1000,
     cl_NotBefore = Some 0, cl_IssuedAt = Some 0, cl_ID = [], cl_Attributes = Map.empty\<rparr>"

lemma demo_read:
  "readResponse demoXml (verifyNonce memoryCache) (Inr []) 500 [] noArgs demoForm (demoService, [(''0'', True)], 1 :: nat) =
     ((demoService, [], 1), Return (Some \<lparr>tk_Raw = [], tk_Validated = [], tk_Claims = demoClaims, tk_Signature = [], tk_Valid = True\<rparr>, None))"
proof -
  have f: "formString demoForm ''wa'' = Inr ''wsignin1.0''" "formString demoForm ''wctx'' = Inr ''0''"
    "formString demoForm ''wresult'' = Inr ''<x/>''" "\<not> isSignoutResponse noArgs demoForm"
    by (simp_all add: demoForm_def formString_def noArgs_def isSignoutResponse_def queryStringOptional_def formStringOptional_def)
  have v: "verifyNonce memoryCache ''0'' ([(''0'', True)], 1 :: nat) = (Inr True, ([], 1))"
    by (simp add: verifyNonce_def memoryCache_def)
  have a: "findAssertion demoXml ''<x/>'' = Inr 1" "verifySignature demoXml [7] 1 = Inr 1"
    by (simp_all add: findAssertion_def verifySignature_def demoXml_def)
  have c: "claimsOf demoXml (idAttrOf demoXml 1) 1 = Inr demoClaims"
    by (simp add: claimsOf_def demoClaims_def demoXml_def optTime_def attrValue_def conditionsOf_def subjectOf_def
        issuerOf_def audiencesOf_def idAttrOf_def)
  have d: "decodeResponse demoXml demoService ''<x/>'' (parseOptions demoService []) =
      Inr \<lparr>tk_Raw = [], tk_Validated = [], tk_Claims = demoClaims, tk_Signature = [], tk_Valid = False\<rparr>"
    using a c by (simp add: decodeResponse_def parseOptions_def demoService_def)
  have k: "checkClaims demoService (parseOptions demoService []) 500 demoClaims = None"
    by (simp add: checkClaims_None demoService_def demoClaims_def parseOptions_def)
  show ?thesis using f v d k by (simp add: readResponse_def parseToken_def)
qed

theorem wsfed_accept_witness:
  "\<exists>p' st' t. readResponse demoXml (verifyNonce memoryCache) (Inr []) 500 [] noArgs demoForm (demoService, [(''0'', True)], 1 :: nat) =
     ((p', st'), Return (Some t, None)) \<and> tk_Valid t \<and> cl_ExpiresAt (tk_Claims t) = Some 1000"
  using wsfed_accept [OF memory.store_laws [of counterGen] demo_read] demo_read by (auto simp: demoClaims_def Let_def)

theorem wsfed_replay_witness:
  "\<exists>st2. readResponse demoXml (verifyNonce memoryCache) (Inr []) 500 [] noArgs demoForm (demoService, [], 1 :: nat) =
     ((demoService, st2), Return (None, Some ErrTokenNonceInvalid))"
  using wsfed_replay [OF memory.store_laws [of counterGen] demo_read refl, of demoXml "Inr []" 500 "[]" noArgs demoService]
  by (auto simp: noArgs_def demoForm_def formString_def isSignoutResponse_def queryStringOptional_def formStringOptional_def Let_def)

end
