(* ===== verification/Responses.thy ===== *)
theory Responses
  imports Go_Url Error_Handler
begin

text \<open>
  The composed responses of \<open>src/response.go\<close>: JSON bodies, streams, safe redirects and paging links.

  A parsed URL is a record with the fields of \<open>net/url\<close>; its \<open>String\<close> is written out, the parser is the
  parameter \<open>parse\<close>. Of the parser the safety of redirects needs documented facts, the locale
  \<open>url_parser\<close>: a text that starts with a single slash
  has a path that is empty or starts with one, and no opaque part; without scheme and host there is no user information; a URL with
  a host has no opaque part (it is \<open>[scheme:][//[userinfo@]host][/]path\<close>), and scheme, host and user information hold no
  character that ends them.
  The paginator is given by its total and its links; the name of the total header belongs to the core library.
\<close>

section \<open>URLs\<close>

record url =
  u_Scheme :: bytes
  u_Opaque :: bytes
  u_Userinfo :: bytes
  u_Host :: bytes
  u_Path :: bytes
  u_RawPath :: bytes
  u_RawQuery :: bytes
  u_Fragment :: bytes
  u_OmitHost :: bool
  u_ForceQuery :: bool

text \<open>The characters that a path keeps unescaped, and those that a given encoding may keep.\<close>

definition pathSafe :: "char \<Rightarrow> bool" where
  "pathSafe c \<longleftrightarrow> isUnreserved c \<or> c \<in> set ''$&+,/:;=@''"

definition pathAllowed :: "char \<Rightarrow> bool" where
  "pathAllowed c \<longleftrightarrow> pathSafe c \<or> c \<in> set ''!()*[]%'' \<or> c = CHR 0x27"

definition escapePath :: "bytes \<Rightarrow> bytes" where
  "escapePath s = concat (map (\<lambda>c. if pathSafe c then [c] else percent c) s)"

definition unhex :: "char \<Rightarrow> nat option" where
  "unhex c = (let n = (of_char c :: nat) in
     if 48 \<le> n \<and> n \<le> 57 then Some (n - 48)
     else if 97 \<le> n \<and> n \<le> 102 then Some (n - 97 + 10)
     else if 65 \<le> n \<and> n \<le> 70 then Some (n - 65 + 10)
     else None)"

fun unescapePath :: "bytes \<Rightarrow> bytes option" where
  "unescapePath [] = Some []"
| "unescapePath (c # cs) =
     (if c = CHR ''%'' then
        (case cs of
           a # b # ds \<Rightarrow>
             (case (unhex a, unhex b) of
                (Some x, Some y) \<Rightarrow> map_option ((#) (char_of (16 * x + y))) (unescapePath ds)
              | _ \<Rightarrow> None)
         | _ \<Rightarrow> None)
      else map_option ((#) c) (unescapePath cs))"

definition EscapedPath :: "url \<Rightarrow> bytes" where
  "EscapedPath u =
     (if u_RawPath u \<noteq> [] \<and> (\<forall>c \<in> set (u_RawPath u). pathAllowed c) \<and> unescapePath (u_RawPath u) = Some (u_Path u)
      then u_RawPath u
      else if u_Path u = ''*'' then ''*'' else escapePath (u_Path u))"

text \<open>
  \<open>URL.String\<close>; \<open>u_Userinfo\<close>, \<open>u_Host\<close> and \<open>u_Fragment\<close> hold these parts as they are printed, that is escaped, so hosts are
  also compared in this form.
  A relative path whose first segment has a colon is printed after a dot segment.
\<close>

definition urlString :: "url \<Rightarrow> bytes" where
  "urlString u =
     (let pre = (if u_Scheme u \<noteq> [] then u_Scheme u @ '':'' else []);
          auth = (if (u_Scheme u \<noteq> [] \<or> u_Host u \<noteq> [] \<or> u_Userinfo u \<noteq> []) \<and>
                     \<not> (u_OmitHost u \<and> u_Host u = [] \<and> u_Userinfo u = [])
                  then (if u_Host u \<noteq> [] \<or> u_Path u \<noteq> [] \<or> u_Userinfo u \<noteq> [] then ''//'' else []) @
                       (if u_Userinfo u \<noteq> [] then u_Userinfo u @ ''@'' else []) @ u_Host u
                  else []);
          path = EscapedPath u;
          sep = (if path \<noteq> [] \<and> path ! 0 \<noteq> slash \<and> u_Host u \<noteq> [] then [slash] else []);
          dot = (if pre @ auth @ sep = [] \<and> colon \<in> set (fst (Cut path [slash])) then ''./'' else []);
          body = (if u_Opaque u \<noteq> [] then u_Opaque u else auth @ sep @ dot @ path)
      in pre @ body @ (if u_ForceQuery u \<or> u_RawQuery u \<noteq> [] then ''?'' @ u_RawQuery u else []) @
         (if u_Fragment u \<noteq> [] then ''#'' @ u_Fragment u else []))"

section \<open>Redirects\<close>

definition isCurrentOrigin :: "(rune \<Rightarrow> rune \<Rightarrow> bool) \<Rightarrow> (bytes \<Rightarrow> url option) \<Rightarrow> bytes \<Rightarrow> url \<Rightarrow> bool" where
  "isCurrentOrigin uf parse baseURL u =
     (case parse baseURL of
        None \<Rightarrow> False
      | Some base \<Rightarrow> EqualFold uf (u_Scheme u) (u_Scheme base) \<and> EqualFold uf (u_Host u) (u_Host base))"

abbreviation backslash :: char where "backslash \<equiv> CHR 0x5C"

definition sanitizeRedirect ::
  "(rune \<Rightarrow> rune \<Rightarrow> bool) \<Rightarrow> (bytes \<Rightarrow> url option) \<Rightarrow> bytes \<Rightarrow> bytes \<Rightarrow> bytes \<Rightarrow> bytes" where
  "sanitizeRedirect uf parse baseURL basePath target =
     (let fallback = basePath @ ''/'' in
      if target = [] \<or> backslash \<in> set target then fallback
      else case parse target of
        None \<Rightarrow> fallback
      | Some u \<Rightarrow>
          (let u = u\<lparr>u_Path := if u_Path u = [] then ''/'' else pathClean (u_Path u)\<rparr> in
           if u_Scheme u = [] \<and> u_Host u = [] \<and> HasPrefix target ''/'' \<and> \<not> HasPrefix target ''//''
           then basePath @ urlString u
           else if u_Scheme u \<noteq> [] \<and> u_Host u \<noteq> [] \<and> isCurrentOrigin uf parse baseURL u
           then urlString u
           else fallback))"

definition Redirect ::
  "'r srvEnv \<Rightarrow> (int \<Rightarrow> bool) \<Rightarrow> (bytes \<Rightarrow> url option) \<Rightarrow> bytes \<Rightarrow> bytes \<Rightarrow> ProxyOptions \<Rightarrow> bytes \<Rightarrow> 'r Ctx \<Rightarrow> 'r Ctx" where
  "Redirect ev isRedirect parse muxHost basePath po target c =
     RedirectUnsafe (e_ro ev) isRedirect
       (sanitizeRedirect (e_uf ev) parse (BaseURL muxHost basePath po c) basePath target) c"

section \<open>Bodies\<close>

definition ctxJSON ::
  "'r srvEnv \<Rightarrow> 'r RouterOptions \<Rightarrow> ('j \<Rightarrow> goErr + bytes) \<Rightarrow> 'j \<Rightarrow> 'r RequestHandler" where
  "ctxJSON ev opts marshal obj c =
     (let c = onResponse (r_SetContentType (e_ro ev) ContentTypeJSON) c in
      case marshal obj of
        Inl err \<Rightarrow> ctxError ev opts (Some err) c
      | Inr buf \<Rightarrow> (onResponse (r_SetBody (e_ro ev) buf) c, None))"

text \<open>A stream is the content it will deliver.\<close>

definition respStream :: "(bytes \<Rightarrow> 'r \<Rightarrow> 'r) \<Rightarrow> bytes \<Rightarrow> 'r Ctx \<Rightarrow> 'r Ctx" where
  "respStream setBodyStream content = onResponse (setBodyStream content)"

section \<open>Paging links\<close>

text \<open>\<open>strings.Replace\<close> of the first occurrence.\<close>

definition replaceFirst :: "bytes \<Rightarrow> bytes \<Rightarrow> bytes \<Rightarrow> bytes" where
  "replaceFirst s old new = (case Index s old of None \<Rightarrow> s | Some i \<Rightarrow> take i s @ new @ drop (i + length old) s)"

definition fillRoute :: "(bytes \<times> bytes) list \<Rightarrow> bytes \<Rightarrow> bytes" where
  "fillRoute values route = foldl (\<lambda>r (k, v). replaceFirst r (''{'' @ k @ ''}'') (PathEscape v)) route values"

definition SetPaging ::
  "'r respOps \<Rightarrow> (bytes \<Rightarrow> url option) \<Rightarrow> (url \<Rightarrow> bytes list) \<Rightarrow> int \<Rightarrow> bytes \<Rightarrow> bytes \<Rightarrow> (bytes \<times> bytes) list \<Rightarrow> 'r Ctx \<Rightarrow> 'r Ctx" where
  "SetPaging ro parse links n hTotal baseURL values c =
     (let c = headerSet ro hTotal (showInt n) c;
          c = AppendAccessControlExposeHeaders ro [hTotal] c
      in if length (c_routerPath c) = 0 then c
         else case parse (baseURL @ fillRoute values (c_routerPath c)) of
           None \<Rightarrow> c
         | Some curl \<Rightarrow>
             (let ls = links curl in
              if length ls > 0
              then AppendAccessControlExposeHeaders ro [''Link''] (headerSet ro ''Link'' (Join ls '','') c)
              else c))"

section \<open>Where a redirect leads\<close>

locale url_parser =
  fixes parse :: "bytes \<Rightarrow> url option"
  assumes rooted_path: "parse s = Some u \<Longrightarrow> HasPrefix s ''/'' \<Longrightarrow> \<not> HasPrefix s ''//'' \<Longrightarrow>
      (u_Path u = [] \<or> HasPrefix (u_Path u) ''/'') \<and>
      (u_RawPath u = [] \<or> HasPrefix (u_RawPath u) ''/'') \<and> u_Opaque u = []"
    and no_userinfo: "parse s = Some u \<Longrightarrow> u_Host u = [] \<Longrightarrow> u_Scheme u = [] \<Longrightarrow> u_Userinfo u = []"
    and host_opaque: "parse s = Some u \<Longrightarrow> u_Host u \<noteq> [] \<Longrightarrow> u_Opaque u = []"
    and scheme_chars: "parse s = Some u \<Longrightarrow> colon \<notin> set (u_Scheme u)"
    and authority_chars: "parse s = Some u \<Longrightarrow> c \<in> set (u_Userinfo u) \<union> set (u_Host u) \<Longrightarrow>
      c \<notin> {slash, qmark, CHR ''#'', CHR ''@'', backslash}"

text \<open>A text that a browser resolves on the same host: a slash that no slash or backslash follows.\<close>

definition localPath :: "bytes \<Rightarrow> bool" where
  "localPath s \<longleftrightarrow> (\<exists>r. s = slash # r \<and> (r = [] \<or> hd r \<noteq> slash \<and> hd r \<noteq> backslash))"

lemma HasPrefix_byte: "HasPrefix s [c] \<longleftrightarrow> s \<noteq> [] \<and> hd s = c"
  by (cases s) (auto simp: HasPrefix_def)

lemma Join_hd: "w \<noteq> [] \<Longrightarrow> hd (Join (w # ws) sep) = hd w"
  by (cases ws) simp_all

lemma pathClean_local:
  assumes "HasPrefix p ''/''"
  shows "\<exists>r. pathClean p = slash # r \<and> (r = [] \<or> hd r \<noteq> slash)"
proof -
  let ?segs = "cleanSegs True [] (Split p slash)"
  have p: "pathClean p = slash # Join ?segs [slash]"
    using assms by (auto simp: pathClean_def Let_def HasPrefix_def)
  have ne: "[] \<notin> set ?segs" using cleanSegs_rooted [of "[]"] by simp
  have sl: "slash \<notin> set w" if "w \<in> set ?segs" for w
    using that cleanSegs_pieces [of True "[]" "Split p slash"] Split_pieces by fastforce
  show ?thesis
  proof (cases ?segs)
    case Nil
    then show ?thesis using p by simp
  next
    case (Cons w ws)
    then have w: "w \<noteq> []" "slash \<notin> set w" using ne sl [of w] by auto
    then have "hd (Join ?segs [slash]) = hd w" using Join_hd [OF w(1)] Cons by simp
    moreover have "hd w \<noteq> slash" using w by (metis hd_in_set)
    ultimately have "hd (Join ?segs [slash]) \<noteq> slash" by simp
    with p show ?thesis by (intro exI [of _ "Join ?segs [slash]"]) simp
  qed
qed

lemma escapePath_slash: "escapePath (slash # r) = slash # escapePath r"
  by (simp add: escapePath_def pathSafe_def isUnreserved_def Let_def)

lemma escapePath_hd:
  assumes "r = [] \<or> hd r \<noteq> slash"
  shows "escapePath r = [] \<or> hd (escapePath r) \<noteq> slash \<and> hd (escapePath r) \<noteq> backslash"
proof (cases r)
  case (Cons c cs)
  have "\<not> pathSafe backslash" by code_simp
  then show ?thesis using assms Cons by (auto simp: escapePath_def percent_def)
qed (simp add: escapePath_def)

lemma unescape_slash: "unescapePath (slash # s) = Some t \<Longrightarrow> \<exists>t'. t = slash # t' \<and> unescapePath s = Some t'"
  by auto

text \<open>The escaped form of a clean rooted path cannot be taken for a host.\<close>

lemma EscapedPath_local:
  assumes "u_Path u = slash # r" "r = [] \<or> hd r \<noteq> slash"
    and "u_RawPath u = [] \<or> HasPrefix (u_RawPath u) ''/''"
  shows "localPath (EscapedPath u)"
proof (cases "u_RawPath u \<noteq> [] \<and> (\<forall>c \<in> set (u_RawPath u). pathAllowed c) \<and> unescapePath (u_RawPath u) = Some (u_Path u)")
  case True
  then obtain q where q: "u_RawPath u = slash # q" using assms(3) by (cases "u_RawPath u") (auto simp: HasPrefix_def)
  with True assms(1) have "unescapePath q = Some r" by auto
  then have "q = [] \<or> hd q \<noteq> slash" using assms(2) by (cases q) auto
  moreover have "\<not> pathAllowed backslash" by code_simp
  then have "hd q \<noteq> backslash" if "q \<noteq> []" using that q True by (cases q) auto
  ultimately show ?thesis using True q by (auto simp: EscapedPath_def localPath_def)
next
  case False
  then have e: "EscapedPath u = escapePath (slash # r)" using assms(1) by (auto simp: EscapedPath_def)
  show ?thesis
    unfolding e escapePath_slash localPath_def using escapePath_hd [OF assms(2)] by blast
qed

lemma urlString_local:
  assumes "u_Scheme u = []" "u_Host u = []" "u_Userinfo u = []" "u_Opaque u = []" "localPath (EscapedPath u)"
  shows "localPath (urlString u)"
proof -
  obtain r where r: "EscapedPath u = slash # r" "r = [] \<or> hd r \<noteq> slash \<and> hd r \<noteq> backslash"
    using assms(5) by (auto simp: localPath_def)
  have "Cut (slash # r) [slash] = ([], r, True)"
    by (simp add: Cut_def HasPrefix_def)
  then show ?thesis using assms(1-4) r by (cases r) (auto simp: urlString_def localPath_def Let_def)
qed

lemma localPath_append:
  "localPath b \<Longrightarrow> b \<noteq> ''/'' \<Longrightarrow> localPath (b @ s)"
  by (auto simp: localPath_def hd_append)

text \<open>
  The scheme and the host that a client takes from an absolute location: the scheme up to the first colon, and after two slashes
  the authority up to a slash, backslash, question mark or hash, the host in it after the last at sign.
\<close>

definition endsAuthority :: "char \<Rightarrow> bool" where
  "endsAuthority c \<longleftrightarrow> c \<in> {slash, backslash, qmark, CHR ''#''}"

definition afterAt :: "bytes \<Rightarrow> bytes" where
  "afterAt auth = rev (takeWhile (\<lambda>c. c \<noteq> CHR ''@'') (rev auth))"

definition locationOrigin :: "bytes \<Rightarrow> (bytes \<times> bytes) option" where
  "locationOrigin s =
     (let scheme = takeWhile (\<lambda>c. c \<noteq> colon) s; rest = dropWhile (\<lambda>c. c \<noteq> colon) s in
      if scheme \<noteq> [] \<and> take 3 rest = ''://'' then Some (scheme, afterAt (takeWhile (\<lambda>c. \<not> endsAuthority c) (drop 3 rest)))
      else None)"

lemma afterAt_host: "CHR ''@'' \<notin> set h \<Longrightarrow> afterAt h = h \<and> afterAt (i @ CHR ''@'' # h) = h"
  by (auto simp: afterAt_def takeWhile_append takeWhile_eq_all_conv [THEN iffD2])

lemma escapePath_ne: "s \<noteq> [] \<Longrightarrow> escapePath s \<noteq> []"
  by (cases s) (simp_all add: escapePath_def percent_def)

lemma EscapedPath_ne: "u_Path u \<noteq> [] \<Longrightarrow> EscapedPath u \<noteq> []"
  using escapePath_ne by (auto simp: EscapedPath_def)

text \<open>A printed URL with a host: the authority ends where the path begins.\<close>

lemma urlString_host:
  assumes "u_Scheme u \<noteq> []" "u_Host u \<noteq> []" "u_Opaque u = []" "u_Path u \<noteq> []"
  shows "\<exists>r. urlString u = u_Scheme u @ ''://'' @ (if u_Userinfo u \<noteq> [] then u_Userinfo u @ ''@'' else []) @ u_Host u @ slash # r"
proof -
  have "EscapedPath u \<noteq> []" by (rule EscapedPath_ne [OF assms(4)])
  then obtain c r where "EscapedPath u = c # r" by (cases "EscapedPath u") auto
  with assms show ?thesis by (cases "c = slash") (simp_all add: urlString_def Let_def)
qed

lemma origin_printed:
  assumes "s \<noteq> []" "colon \<notin> set s" "\<forall>c \<in> set i \<union> set h. c \<notin> {slash, qmark, CHR ''#'', CHR ''@'', backslash}"
  shows "locationOrigin (s @ ''://'' @ (if i \<noteq> [] then i @ ''@'' else []) @ h @ slash # r) = Some (s, h)"
proof -
  let ?a = "(if i \<noteq> [] then i @ ''@'' else []) @ h"
  have s: "takeWhile (\<lambda>c. c \<noteq> colon) (s @ ''://'' @ x) = s" "dropWhile (\<lambda>c. c \<noteq> colon) (s @ ''://'' @ x) = ''://'' @ x" for x
    using assms(2) by (auto simp: takeWhile_append dropWhile_append takeWhile_eq_all_conv [THEN iffD2] dropWhile_eq_Nil_conv [THEN iffD2])
  have "\<forall>c \<in> set ?a. \<not> endsAuthority c" using assms(3) by (auto simp: endsAuthority_def)
  moreover have "endsAuthority slash" by (simp add: endsAuthority_def)
  ultimately have "takeWhile (\<lambda>c. \<not> endsAuthority c) (?a @ slash # r) = ?a"
    by (subst takeWhile_append2) simp_all
  moreover have "afterAt ?a = h" using afterAt_host [of h i] assms(3) by auto
  ultimately show ?thesis using assms(1) s [of "?a @ slash # r"] by (simp add: locationOrigin_def)
qed

text \<open>What becomes of a target: the base path with a slash or a local path, or a URL of the current origin.\<close>

lemma sanitize_relative:
  assumes "url_parser parse" "parse target = Some u" "u_Scheme u = []" "u_Host u = []" "HasPrefix target ''/''" "\<not> HasPrefix target ''//''"
  shows "localPath (urlString (u\<lparr>u_Path := if u_Path u = [] then ''/'' else pathClean (u_Path u)\<rparr>))"
proof -
  let ?v = "u\<lparr>u_Path := if u_Path u = [] then ''/'' else pathClean (u_Path u)\<rparr>"
  note c = url_parser.rooted_path [OF assms(1,2,5,6)] url_parser.no_userinfo [OF assms(1,2,4,3)]
  have "\<exists>r. u_Path ?v = slash # r \<and> (r = [] \<or> hd r \<noteq> slash)"
    using c(1) pathClean_local [of "u_Path u"] by auto
  then obtain r where "u_Path ?v = slash # r" "r = [] \<or> hd r \<noteq> slash" by blast
  then have "localPath (EscapedPath ?v)" using EscapedPath_local [of ?v r] c(1) by simp
  then show ?thesis using urlString_local [of ?v] c assms(3,4) by simp
qed

lemma pathClean_ne: "pathClean p \<noteq> []"
proof (cases "HasPrefix p [slash]")
  case True
  then show ?thesis by (auto simp: pathClean_def Let_def)
next
  case False
  have "Join ws [slash] \<noteq> []" if "ws \<noteq> []" "[] \<notin> set ws" for ws
    using that Join_hd [of "hd ws" "tl ws" "[slash]"] by (cases "(ws, [slash])" rule: Join.cases) auto
  moreover have "[] \<notin> set (cleanSegs False [] (Split p slash))" using cleanSegs_ne [of "[]" False "Split p slash"] by simp
  ultimately show ?thesis using False by (simp add: pathClean_def Let_def)
qed

lemma sanitize_absolute:
  assumes "url_parser parse" "parse target = Some u" "u_Scheme u \<noteq> []" "u_Host u \<noteq> []"
  shows "locationOrigin (urlString (u\<lparr>u_Path := if u_Path u = [] then ''/'' else pathClean (u_Path u)\<rparr>)) = Some (u_Scheme u, u_Host u)"
proof -
  let ?v = "u\<lparr>u_Path := if u_Path u = [] then ''/'' else pathClean (u_Path u)\<rparr>"
  have sel: "u_Scheme ?v = u_Scheme u" "u_Host ?v = u_Host u" "u_Userinfo ?v = u_Userinfo u" "u_Opaque ?v = u_Opaque u" by simp_all
  have "u_Path ?v \<noteq> []" using pathClean_ne by simp
  with urlString_host [of ?v, unfolded sel, OF assms(3,4) url_parser.host_opaque [OF assms(1,2,4)]]
  obtain r where r: "urlString ?v = u_Scheme u @ ''://'' @ (if u_Userinfo u \<noteq> [] then u_Userinfo u @ ''@'' else []) @ u_Host u @ slash # r"
    by blast
  show ?thesis unfolding r
    using url_parser.authority_chars [OF assms(1,2)] by (intro origin_printed assms(3) url_parser.scheme_chars [OF assms(1,2)]) blast
qed

lemma sanitize_cases:
  assumes "url_parser parse"
  shows "(\<exists>s. sanitizeRedirect uf parse baseURL basePath target = basePath @ s \<and> localPath s) \<or>
    (\<exists>scheme host base. locationOrigin (sanitizeRedirect uf parse baseURL basePath target) = Some (scheme, host) \<and>
       parse baseURL = Some base \<and> EqualFold uf scheme (u_Scheme base) \<and> EqualFold uf host (u_Host base))"
proof (cases "target = [] \<or> backslash \<in> set target \<or> parse target = None")
  case True
  then have "sanitizeRedirect uf parse baseURL basePath target = basePath @ ''/''" by (auto simp: sanitizeRedirect_def Let_def)
  then show ?thesis by (simp add: localPath_def)
next
  case False
  then obtain u where u: "parse target = Some u" by auto
  let ?v = "u\<lparr>u_Path := if u_Path u = [] then ''/'' else pathClean (u_Path u)\<rparr>"
  show ?thesis
  proof (cases "u_Scheme u = [] \<and> u_Host u = [] \<and> HasPrefix target ''/'' \<and> \<not> HasPrefix target ''//''")
    case True
    then have "sanitizeRedirect uf parse baseURL basePath target = basePath @ urlString ?v"
      using False u by (simp add: sanitizeRedirect_def Let_def)
    with sanitize_relative [OF assms u] True show ?thesis by blast
  next
    case rel: False
    show ?thesis
    proof (cases "u_Scheme u \<noteq> [] \<and> u_Host u \<noteq> [] \<and> isCurrentOrigin uf parse baseURL ?v")
      case True
      then have "sanitizeRedirect uf parse baseURL basePath target = urlString ?v"
        using False u by (simp add: sanitizeRedirect_def Let_def)
      with sanitize_absolute [OF assms u] True show ?thesis by (auto simp: isCurrentOrigin_def split: option.splits)
    next
      case abs: False
      then have "sanitizeRedirect uf parse baseURL basePath target = basePath @ ''/''"
        using False rel u by (auto simp: sanitizeRedirect_def Let_def)
      then show ?thesis by (simp add: localPath_def)
    qed
  qed
qed

lemma RedirectUnsafe_location:
  "response_store ro \<Longrightarrow> r_PeekHeader ro ''Location'' (c_Response (RedirectUnsafe ro isRedirect url c)) = url"
proof -
  assume a: "response_store ro"
  have "\<not> specialKey ''Location''" by code_simp
  then show ?thesis by (simp add: RedirectUnsafe_def Let_def response_store.peek_same [OF a])
qed

section \<open>Properties\<close>

text \<open>
  C31. No open redirect. Whatever target a handler passes to \<open>Redirect\<close>, the \<open>Location\<close> of the response is a path on the
  same host (it starts with a slash that neither a slash nor a backslash follows), or an absolute URL whose scheme and host, as a client
  reads them from the text of the header, are those of the application's own base URL up to case. The base path must itself be
  empty or such a path, longer than a slash.
\<close>

theorem redirect_same_origin:
  assumes "url_parser parse" "basePath = [] \<or> localPath basePath \<and> basePath \<noteq> ''/''" "response_store (e_ro ev)"
  shows "\<exists>loc. r_PeekHeader (e_ro ev) ''Location'' (c_Response (Redirect ev isRedirect parse muxHost basePath po target c)) = loc \<and>
    (localPath loc \<or>
     (\<exists>scheme host base. locationOrigin loc = Some (scheme, host) \<and> parse (BaseURL muxHost basePath po c) = Some base \<and>
        EqualFold (e_uf ev) scheme (u_Scheme base) \<and> EqualFold (e_uf ev) host (u_Host base)))"
proof -
  let ?base = "BaseURL muxHost basePath po c"
  let ?loc = "sanitizeRedirect (e_uf ev) parse ?base basePath target"
  have app: "localPath (basePath @ s)" if "localPath s" for s using assms(2) that localPath_append by auto
  from sanitize_cases [OF assms(1), of "e_uf ev" ?base basePath target]
  have "localPath ?loc \<or> (\<exists>scheme host base. locationOrigin ?loc = Some (scheme, host) \<and> parse ?base = Some base \<and>
      EqualFold (e_uf ev) scheme (u_Scheme base) \<and> EqualFold (e_uf ev) host (u_Host base))"
    using app by auto
  then show ?thesis by (simp add: Redirect_def RedirectUnsafe_location [OF assms(3)])
qed

text \<open>A parser of rooted paths and of addresses whose host is made of unreserved characters.\<close>

definition demoParse :: "bytes \<Rightarrow> url option" where
  "demoParse s =
     (let rest = drop 8 s; host = takeWhile (\<lambda>c. c \<noteq> slash) rest;
          u = \<lparr>u_Scheme = [], u_Opaque = [], u_Userinfo = [], u_Host = [], u_Path = s,
               u_RawPath = [], u_RawQuery = [], u_Fragment = [], u_OmitHost = False, u_ForceQuery = False\<rparr>
      in if HasPrefix s ''/'' then Some u
         else if HasPrefix s ''https://'' \<and> list_all isUnreserved host
         then Some (u\<lparr>u_Scheme := ''https'', u_Host := host, u_Path := dropWhile (\<lambda>c. c \<noteq> slash) rest\<rparr>)
         else None)"

interpretation demoParser: url_parser demoParse
proof
  have r: "\<not> isUnreserved c" if "c \<in> {slash, qmark, CHR ''#'', CHR ''@'', backslash}" for c
    using that by (auto simp: isUnreserved_def Let_def)
  show "c \<notin> {slash, qmark, CHR ''#'', CHR ''@'', backslash}"
    if "demoParse s = Some u" "c \<in> set (u_Userinfo u) \<union> set (u_Host u)" for s u c
    using that r [of c] by (auto simp: demoParse_def Let_def list_all_iff split: if_splits)
qed (auto simp: demoParse_def Let_def split: if_splits)

abbreviation demoLocation :: "bytes \<Rightarrow> bytes" where
  "demoLocation target \<equiv> assocPeek ''Location'' (c_Response (Redirect demoEnv (\<lambda>_. False) demoParse [] ''/app'' defaultProxyOptions target
     (acquireCtx [] (demoRaw\<lparr>fc_Request := demoReq\<lparr>rq_TLS := True\<rparr>\<rparr>))))"

text \<open>A path, an address of the application and one of another host.\<close>

theorem redirect_same_origin_witness:
  "map demoLocation [''/a/..//b'', ''https://example.com/x'', ''https://evil.com/x''] = [''/app/b'', ''https://example.com/x'', ''/app/''] \<and>
   (\<forall>target. localPath (demoLocation target) \<or>
      (\<exists>scheme host. locationOrigin (demoLocation target) = Some (scheme, host) \<and>
         EqualFold (\<lambda>_ _. False) scheme ''https'' \<and> EqualFold (\<lambda>_ _. False) host ''example.com''))"
proof -
  let ?c = "acquireCtx [] (demoRaw\<lparr>fc_Request := demoReq\<lparr>rq_TLS := True\<rparr>\<rparr>)"
  have store: "response_store (e_ro demoEnv)" by (simp add: demoEnv_def assoc.response_store_axioms)
  have app: "''/app'' = [] \<or> localPath ''/app'' \<and> ''/app'' \<noteq> ''/''" by (simp add: localPath_def)
  have e: "r_PeekHeader (e_ro demoEnv) = assocPeek" "e_uf demoEnv = (\<lambda>_ _. False)" by (simp_all add: demoEnv_def assocOps_def)
  have "case demoParse (BaseURL [] ''/app'' defaultProxyOptions ?c) of None \<Rightarrow> False
      | Some base \<Rightarrow> u_Scheme base = ''https'' \<and> u_Host base = ''example.com''" by code_simp
  then have b: "\<exists>base. demoParse (BaseURL [] ''/app'' defaultProxyOptions ?c) = Some base \<and> u_Scheme base = ''https'' \<and> u_Host base = ''example.com''"
    by (simp split: option.splits)
  have "map demoLocation [''/a/..//b'', ''https://example.com/x'', ''https://evil.com/x''] = [''/app/b'', ''https://example.com/x'', ''/app/'']"
    by code_simp
  moreover have "localPath (demoLocation target) \<or>
      (\<exists>scheme host. locationOrigin (demoLocation target) = Some (scheme, host) \<and>
         EqualFold (\<lambda>_ _. False) scheme ''https'' \<and> EqualFold (\<lambda>_ _. False) host ''example.com'')" for target
    using redirect_same_origin [OF demoParser.url_parser_axioms app store, of "\<lambda>_. False" "[]" defaultProxyOptions target ?c] b
    unfolding e by auto
  ultimately show ?thesis by blast
qed

end
