(* ===== verification/Healthz.thy ===== *)
theory Healthz
  imports Responses
begin

text \<open>
  The health check endpoint \<open>src/healthz/healthz.go\<close>, with \<open>SkipRequestLog\<close> and \<open>SkipMetrics\<close> of \<open>src/logger.go\<close>.
  A check maps the context to the context it leaves and its response, nil being \<^const>\<open>None\<close>, or to
  the value it panicked with. A nil check is \<^const>\<open>None\<close> in the list of checks. The JSON encoder is a parameter.
\<close>

definition SkipRequestLog :: "'r Ctx \<Rightarrow> 'r Ctx" where
  "SkipRequestLog c = setUserValue ''__log_request'' (UBool False) c"

definition IsSkipRequestLog :: "'r Ctx \<Rightarrow> bool" where
  "IsSkipRequestLog c = (case fc_UserValues (c_context c) ''__log_request'' of Some (UBool val) \<Rightarrow> \<not> val | _ \<Rightarrow> True)"

definition SkipMetrics :: "'r Ctx \<Rightarrow> 'r Ctx" where
  "SkipMetrics c = setUserValue ''__skip_metrics'' (UBool True) c"

abbreviation Pass :: bytes where "Pass \<equiv> ''pass''"
abbreviation Fail :: bytes where "Fail \<equiv> ''fail''"
abbreviation Warn :: bytes where "Warn \<equiv> ''warn''"

definition statusRank :: "bytes \<Rightarrow> int" where
  "statusRank s = (if s = Fail then 2 else if s = Warn then 1 else if s = Pass then 0 else 0)"

record healthResponse =
  hr_Status :: bytes
  hr_Description :: bytes

type_synonym 'r CheckFunc = "'r Ctx \<Rightarrow> 'r Ctx \<times> (panicVal + healthResponse option)"

fun checksLoop ::
  "'r CheckFunc option list \<Rightarrow> healthResponse \<Rightarrow> 'r Ctx \<Rightarrow> 'r Ctx \<times> (panicVal + healthResponse)" where
  "checksLoop [] resp ctx = (ctx, Inr resp)"
| "checksLoop (None # fns) resp ctx = checksLoop fns resp ctx"
| "checksLoop (Some fn # fns) resp ctx =
     (case fn ctx of
        (ctx, Inl p) \<Rightarrow> (ctx, Inl p)
      | (ctx, Inr None) \<Rightarrow> checksLoop fns resp ctx
      | (ctx, Inr (Some r)) \<Rightarrow>
          checksLoop fns (if statusRank (hr_Status r) > statusRank (hr_Status resp) then r else resp) ctx)"

text \<open>\<open>IsTrusted\<close> on a nil address: it is equal to no address and in no network.\<close>

definition healthzTrusted :: "TrustedSource \<Rightarrow> 'r Ctx \<Rightarrow> bool" where
  "healthzTrusted ts c =
     (case contextIP (rq_RemoteAddr (c_Request c)) of Some a \<Rightarrow> IsTrusted ts a | None \<Rightarrow> IsTrusted ts [])"

definition healthzHandler ::
  "'r srvEnv \<Rightarrow> 'r RouterOptions \<Rightarrow> TrustedSource \<Rightarrow> (healthResponse \<Rightarrow> goErr + bytes) \<Rightarrow> 'r CheckFunc option list \<Rightarrow>
   'r RequestHandler" where
  "healthzHandler ev opts ts marshal checks ctx =
     (let ctx = SkipMetrics (SkipRequestLog ctx) in
      if \<not> healthzTrusted ts ctx then NotFound ev opts ctx
      else case checksLoop checks \<lparr>hr_Status = Pass, hr_Description = []\<rparr> ctx of
        (ctx, Inl p) \<Rightarrow> (ctx, Some p)
      | (ctx, Inr resp) \<Rightarrow>
          ctxJSON ev opts marshal resp (if hr_Status resp = Fail then setStatusCode (e_ro ev) 503 ctx else ctx))"

section \<open>The worst response wins\<close>

text \<open>The first response of the highest rank above that of the start.\<close>

definition firstWorst :: "healthResponse \<Rightarrow> healthResponse list \<Rightarrow> healthResponse \<Rightarrow> bool" where
  "firstWorst r0 rs r \<longleftrightarrow>
     (\<forall>x \<in> set rs. statusRank (hr_Status x) \<le> statusRank (hr_Status r)) \<and>
     statusRank (hr_Status r0) \<le> statusRank (hr_Status r) \<and>
     (if \<forall>x \<in> set rs. statusRank (hr_Status x) \<le> statusRank (hr_Status r0) then r = r0
      else \<exists>us vs. rs = us @ r # vs \<and> (\<forall>x \<in> set us. statusRank (hr_Status x) < statusRank (hr_Status r)) \<and>
           statusRank (hr_Status r0) < statusRank (hr_Status r))"

lemma firstWorst_Cons:
  "firstWorst (if statusRank (hr_Status a) > statusRank (hr_Status r0) then a else r0) rs r \<Longrightarrow> firstWorst r0 (a # rs) r"
proof (cases "statusRank (hr_Status a) > statusRank (hr_Status r0)")
  case True
  assume "firstWorst (if statusRank (hr_Status a) > statusRank (hr_Status r0) then a else r0) rs r"
  with True have w: "firstWorst a rs r" by simp
  show ?thesis
  proof (cases "\<forall>x \<in> set rs. statusRank (hr_Status x) \<le> statusRank (hr_Status a)")
    case True2: True
    with w have r: "r = a" by (simp add: firstWorst_def)
    with True have "\<exists>us vs. a # rs = us @ r # vs \<and>
        (\<forall>x \<in> set us. statusRank (hr_Status x) < statusRank (hr_Status r)) \<and>
        statusRank (hr_Status r0) < statusRank (hr_Status r)"
      by (intro exI [of _ "[]"] exI [of _ rs]) simp
    with True True2 r show ?thesis unfolding firstWorst_def by auto
  next
    case False
    with w obtain us vs where "rs = us @ r # vs" "\<forall>x \<in> set us. statusRank (hr_Status x) < statusRank (hr_Status r)"
      "statusRank (hr_Status a) < statusRank (hr_Status r)" by (auto simp: firstWorst_def)
    note s = this
    have "a # rs = (a # us) @ r # vs" "\<forall>x \<in> set (a # us). statusRank (hr_Status x) < statusRank (hr_Status r)"
      using s by auto
    then have "\<exists>us vs. a # rs = us @ r # vs \<and> (\<forall>x \<in> set us. statusRank (hr_Status x) < statusRank (hr_Status r))" by blast
    with True w s(3) show ?thesis unfolding firstWorst_def by auto
  qed
next
  case False
  assume "firstWorst (if statusRank (hr_Status a) > statusRank (hr_Status r0) then a else r0) rs r"
  with False have w: "firstWorst r0 rs r" by simp
  show ?thesis
  proof (cases "\<forall>x \<in> set rs. statusRank (hr_Status x) \<le> statusRank (hr_Status r0)")
    case True
    with w False show ?thesis by (auto simp: firstWorst_def)
  next
    case False2: False
    with w obtain us vs where "rs = us @ r # vs" "\<forall>x \<in> set us. statusRank (hr_Status x) < statusRank (hr_Status r)"
      "statusRank (hr_Status r0) < statusRank (hr_Status r)" by (auto simp: firstWorst_def)
    note s = this
    have "a # rs = (a # us) @ r # vs" "\<forall>x \<in> set (a # us). statusRank (hr_Status x) < statusRank (hr_Status r)"
      using s False by auto
    then have "\<exists>us vs. a # rs = us @ r # vs \<and> (\<forall>x \<in> set us. statusRank (hr_Status x) < statusRank (hr_Status r))" by blast
    with False w s(3) show ?thesis unfolding firstWorst_def by auto
  qed
qed

text \<open>Checks that answer without touching the context.\<close>

definition pureCheck :: "healthResponse option \<Rightarrow> 'r CheckFunc" where
  "pureCheck r ctx = (ctx, Inr r)"

definition answers :: "healthResponse option option list \<Rightarrow> healthResponse list" where
  "answers rs = concat (map (\<lambda>r. case r of Some (Some x) \<Rightarrow> [x] | _ \<Rightarrow> []) rs)"

lemma checksLoop_pure:
  "\<exists>r. checksLoop (map (map_option pureCheck) rs) r0 ctx = (ctx, Inr r) \<and> firstWorst r0 (answers rs) r"
proof (induction rs arbitrary: r0)
  case Nil
  then show ?case by (simp add: firstWorst_def answers_def)
next
  case (Cons a rs)
  show ?case
  proof (cases a)
    case None
    then show ?thesis using Cons.IH [of r0] by (simp add: answers_def)
  next
    case (Some b)
    show ?thesis
    proof (cases b)
      case None
      then show ?thesis using Cons.IH [of r0] Some by (simp add: answers_def pureCheck_def)
    next
      case b: (Some x)
      let ?r1 = "if statusRank (hr_Status x) > statusRank (hr_Status r0) then x else r0"
      obtain r where r: "checksLoop (map (map_option pureCheck) rs) ?r1 ctx = (ctx, Inr r)" "firstWorst ?r1 (answers rs) r"
        using Cons.IH [of ?r1] by blast
      have "answers (a # rs) = x # answers rs" using Some b by (simp add: answers_def)
      moreover have "checksLoop (map (map_option pureCheck) (a # rs)) r0 ctx = (ctx, Inr r)"
        using Some b r(1) by (simp add: pureCheck_def)
      ultimately show ?thesis using firstWorst_Cons [OF r(2)] by auto
    qed
  qed
qed

lemma firstWorst_Fail:
  assumes "firstWorst \<lparr>hr_Status = Pass, hr_Description = []\<rparr> rs r"
  shows "hr_Status r = Fail \<longleftrightarrow> (\<exists>x \<in> set rs. hr_Status x = Fail)"
proof -
  have two: "statusRank s \<le> 2" "statusRank s = 2 \<longleftrightarrow> s = Fail" for s by (auto simp: statusRank_def)
  show ?thesis
  proof
    assume f: "hr_Status r = Fail"
    then have "r \<noteq> \<lparr>hr_Status = Pass, hr_Description = []\<rparr>" by auto
    with assms have "r \<in> set rs" by (auto simp: firstWorst_def split: if_splits)
    with f show "\<exists>x \<in> set rs. hr_Status x = Fail" by blast
  next
    assume "\<exists>x \<in> set rs. hr_Status x = Fail"
    with assms two have "2 \<le> statusRank (hr_Status r)" unfolding firstWorst_def by metis
    with two show "hr_Status r = Fail" by (metis order_antisym)
  qed
qed

section \<open>Properties\<close>



end
