(* ===== verification/Route_Group.thy ===== *)
theory Route_Group
  imports Mux_Props
begin

text \<open>
  The ways to register routes: the shortcuts of \<open>src/mux.go\<close>, the groups of \<open>src/route_group.go\<close> and the
  delegates of \<open>App\<close> in \<open>src/router.go\<close>, with the selection of a router for a request. A group holds its
  prefix and middlewares; the router it points to is the state that is passed along, and so is the
  default router of an \<open>App\<close>. \<open>Proxy\<close> registers two routes and stops at the first panic; the upstream
  handler it builds is a parameter.
\<close>

text \<open>Two registrations in a row: a panic of the first ends both.\<close>

definition andThen :: "('m \<Rightarrow> 'm \<times> handleOut) \<Rightarrow> ('m \<Rightarrow> 'm \<times> handleOut) \<Rightarrow> 'm \<Rightarrow> 'm \<times> handleOut" where
  "andThen f g m = (case f m of (m, HandleOk) \<Rightarrow> g m | (m, out) \<Rightarrow> (m, out))"

text \<open>The path of the second route of a proxy.\<close>

definition proxyTail :: "bytes \<Rightarrow> bytes" where
  "proxyTail path =
     (let path = (if length path > 0 \<and> path ! (length path - 1) \<noteq> slash then path @ [slash] else path) in
      path @ [lbrace] @ ''path:*'' @ [rbrace])"

section \<open>Shortcuts of the router\<close>

definition muxGet :: "regexp \<Rightarrow> ('r routeHandler node list \<Rightarrow> 'r routeHandler node list) \<Rightarrow> bytes \<Rightarrow> 'r RequestHandler option \<Rightarrow> 'r mux \<Rightarrow> 'r mux \<times> handleOut" where
  "muxGet rx srt path handler = Handle rx srt MethodGet path handler"

definition muxHead :: "regexp \<Rightarrow> ('r routeHandler node list \<Rightarrow> 'r routeHandler node list) \<Rightarrow> bytes \<Rightarrow> 'r RequestHandler option \<Rightarrow> 'r mux \<Rightarrow> 'r mux \<times> handleOut" where
  "muxHead rx srt path handler = Handle rx srt MethodHead path handler"

definition muxQuery :: "regexp \<Rightarrow> ('r routeHandler node list \<Rightarrow> 'r routeHandler node list) \<Rightarrow> bytes \<Rightarrow> 'r RequestHandler option \<Rightarrow> 'r mux \<Rightarrow> 'r mux \<times> handleOut" where
  "muxQuery rx srt path handler = Handle rx srt MethodQuery path handler"

definition muxPost :: "regexp \<Rightarrow> ('r routeHandler node list \<Rightarrow> 'r routeHandler node list) \<Rightarrow> bytes \<Rightarrow> 'r RequestHandler option \<Rightarrow> 'r mux \<Rightarrow> 'r mux \<times> handleOut" where
  "muxPost rx srt path handler = Handle rx srt MethodPost path handler"

definition muxPut :: "regexp \<Rightarrow> ('r routeHandler node list \<Rightarrow> 'r routeHandler node list) \<Rightarrow> bytes \<Rightarrow> 'r RequestHandler option \<Rightarrow> 'r mux \<Rightarrow> 'r mux \<times> handleOut" where
  "muxPut rx srt path handler = Handle rx srt MethodPut path handler"

definition muxPatch :: "regexp \<Rightarrow> ('r routeHandler node list \<Rightarrow> 'r routeHandler node list) \<Rightarrow> bytes \<Rightarrow> 'r RequestHandler option \<Rightarrow> 'r mux \<Rightarrow> 'r mux \<times> handleOut" where
  "muxPatch rx srt path handler = Handle rx srt MethodPatch path handler"

definition muxDelete :: "regexp \<Rightarrow> ('r routeHandler node list \<Rightarrow> 'r routeHandler node list) \<Rightarrow> bytes \<Rightarrow> 'r RequestHandler option \<Rightarrow> 'r mux \<Rightarrow> 'r mux \<times> handleOut" where
  "muxDelete rx srt path handler = Handle rx srt MethodDelete path handler"

definition muxConnect :: "regexp \<Rightarrow> ('r routeHandler node list \<Rightarrow> 'r routeHandler node list) \<Rightarrow> bytes \<Rightarrow> 'r RequestHandler option \<Rightarrow> 'r mux \<Rightarrow> 'r mux \<times> handleOut" where
  "muxConnect rx srt path handler = Handle rx srt MethodConnect path handler"

definition muxOptions :: "regexp \<Rightarrow> ('r routeHandler node list \<Rightarrow> 'r routeHandler node list) \<Rightarrow> bytes \<Rightarrow> 'r RequestHandler option \<Rightarrow> 'r mux \<Rightarrow> 'r mux \<times> handleOut" where
  "muxOptions rx srt path handler = Handle rx srt MethodOptions path handler"

definition muxTrace :: "regexp \<Rightarrow> ('r routeHandler node list \<Rightarrow> 'r routeHandler node list) \<Rightarrow> bytes \<Rightarrow> 'r RequestHandler option \<Rightarrow> 'r mux \<Rightarrow> 'r mux \<times> handleOut" where
  "muxTrace rx srt path handler = Handle rx srt MethodTrace path handler"

definition muxAny :: "regexp \<Rightarrow> ('r routeHandler node list \<Rightarrow> 'r routeHandler node list) \<Rightarrow> bytes \<Rightarrow> 'r RequestHandler option \<Rightarrow> 'r mux \<Rightarrow> 'r mux \<times> handleOut" where
  "muxAny rx srt path handler = Handle rx srt MethodWild path handler"

definition muxProxy :: "regexp \<Rightarrow> ('r routeHandler node list \<Rightarrow> 'r routeHandler node list) \<Rightarrow> (bytes \<Rightarrow> 'r RequestHandler) \<Rightarrow> bytes \<Rightarrow> 'r mux \<Rightarrow> 'r mux \<times> handleOut" where
  "muxProxy rx srt newProxy path =
     (let p = newProxy path in
      andThen (muxAny rx srt path (Some p)) (muxAny rx srt (proxyTail path) (Some p)))"

section \<open>Groups\<close>

record 'r RouteGroup =
  g_prefix :: bytes
  g_middlewares :: "'r RequestHandlerFunc list"

definition muxGroup :: "bytes \<Rightarrow> 'r RouteGroup" where
  "muxGroup path = \<lparr>g_prefix = path, g_middlewares = []\<rparr>"

text \<open>The loop of \<open>chain\<close> runs from the last middleware to the first.\<close>

definition groupChain :: "'r RouteGroup \<Rightarrow> 'r RequestHandler \<Rightarrow> 'r RequestHandler" where
  "groupChain g handler = foldr (\<lambda>mw h. mw h) (g_middlewares g) handler"

definition groupMutable :: "'r RouteGroup \<Rightarrow> bool \<Rightarrow> 'r mux \<Rightarrow> 'r mux" where
  "groupMutable g v = muxMutable v"

definition groupUse :: "'r RequestHandlerFunc list \<Rightarrow> 'r RouteGroup \<Rightarrow> 'r RouteGroup" where
  "groupUse mws g = g\<lparr>g_middlewares := g_middlewares g @ mws\<rparr>"

definition groupGroup :: "bytes \<Rightarrow> 'r RouteGroup \<Rightarrow> 'r RouteGroup" where
  "groupGroup path g = groupUse (g_middlewares g) \<lparr>g_prefix = g_prefix g @ path, g_middlewares = []\<rparr>"

definition groupHandle ::
  "regexp \<Rightarrow> ('r routeHandler node list \<Rightarrow> 'r routeHandler node list) \<Rightarrow> 'r RouteGroup \<Rightarrow> bytes \<Rightarrow> bytes \<Rightarrow> 'r RequestHandler \<Rightarrow> 'r mux \<Rightarrow> 'r mux \<times> handleOut"
where
  "groupHandle rx srt g meth path handler = Handle rx srt meth (g_prefix g @ path) (Some (groupChain g handler))"

definition groupGet :: "regexp \<Rightarrow> ('r routeHandler node list \<Rightarrow> 'r routeHandler node list) \<Rightarrow> 'r RouteGroup \<Rightarrow> bytes \<Rightarrow> 'r RequestHandler \<Rightarrow> 'r mux \<Rightarrow> 'r mux \<times> handleOut" where
  "groupGet rx srt g path handler = groupHandle rx srt g MethodGet path handler"

definition groupHead :: "regexp \<Rightarrow> ('r routeHandler node list \<Rightarrow> 'r routeHandler node list) \<Rightarrow> 'r RouteGroup \<Rightarrow> bytes \<Rightarrow> 'r RequestHandler \<Rightarrow> 'r mux \<Rightarrow> 'r mux \<times> handleOut" where
  "groupHead rx srt g path handler = groupHandle rx srt g MethodHead path handler"

definition groupQuery :: "regexp \<Rightarrow> ('r routeHandler node list \<Rightarrow> 'r routeHandler node list) \<Rightarrow> 'r RouteGroup \<Rightarrow> bytes \<Rightarrow> 'r RequestHandler \<Rightarrow> 'r mux \<Rightarrow> 'r mux \<times> handleOut" where
  "groupQuery rx srt g path handler = groupHandle rx srt g MethodQuery path handler"

definition groupPost :: "regexp \<Rightarrow> ('r routeHandler node list \<Rightarrow> 'r routeHandler node list) \<Rightarrow> 'r RouteGroup \<Rightarrow> bytes \<Rightarrow> 'r RequestHandler \<Rightarrow> 'r mux \<Rightarrow> 'r mux \<times> handleOut" where
  "groupPost rx srt g path handler = groupHandle rx srt g MethodPost path handler"

definition groupPut :: "regexp \<Rightarrow> ('r routeHandler node list \<Rightarrow> 'r routeHandler node list) \<Rightarrow> 'r RouteGroup \<Rightarrow> bytes \<Rightarrow> 'r RequestHandler \<Rightarrow> 'r mux \<Rightarrow> 'r mux \<times> handleOut" where
  "groupPut rx srt g path handler = groupHandle rx srt g MethodPut path handler"

definition groupPatch :: "regexp \<Rightarrow> ('r routeHandler node list \<Rightarrow> 'r routeHandler node list) \<Rightarrow> 'r RouteGroup \<Rightarrow> bytes \<Rightarrow> 'r RequestHandler \<Rightarrow> 'r mux \<Rightarrow> 'r mux \<times> handleOut" where
  "groupPatch rx srt g path handler = groupHandle rx srt g MethodPatch path handler"

definition groupDelete :: "regexp \<Rightarrow> ('r routeHandler node list \<Rightarrow> 'r routeHandler node list) \<Rightarrow> 'r RouteGroup \<Rightarrow> bytes \<Rightarrow> 'r RequestHandler \<Rightarrow> 'r mux \<Rightarrow> 'r mux \<times> handleOut" where
  "groupDelete rx srt g path handler = groupHandle rx srt g MethodDelete path handler"

definition groupConnect :: "regexp \<Rightarrow> ('r routeHandler node list \<Rightarrow> 'r routeHandler node list) \<Rightarrow> 'r RouteGroup \<Rightarrow> bytes \<Rightarrow> 'r RequestHandler \<Rightarrow> 'r mux \<Rightarrow> 'r mux \<times> handleOut" where
  "groupConnect rx srt g path handler = groupHandle rx srt g MethodConnect path handler"

definition groupOptions :: "regexp \<Rightarrow> ('r routeHandler node list \<Rightarrow> 'r routeHandler node list) \<Rightarrow> 'r RouteGroup \<Rightarrow> bytes \<Rightarrow> 'r RequestHandler \<Rightarrow> 'r mux \<Rightarrow> 'r mux \<times> handleOut" where
  "groupOptions rx srt g path handler = groupHandle rx srt g MethodOptions path handler"

definition groupTrace :: "regexp \<Rightarrow> ('r routeHandler node list \<Rightarrow> 'r routeHandler node list) \<Rightarrow> 'r RouteGroup \<Rightarrow> bytes \<Rightarrow> 'r RequestHandler \<Rightarrow> 'r mux \<Rightarrow> 'r mux \<times> handleOut" where
  "groupTrace rx srt g path handler = groupHandle rx srt g MethodTrace path handler"

definition groupAny :: "regexp \<Rightarrow> ('r routeHandler node list \<Rightarrow> 'r routeHandler node list) \<Rightarrow> 'r RouteGroup \<Rightarrow> bytes \<Rightarrow> 'r RequestHandler \<Rightarrow> 'r mux \<Rightarrow> 'r mux \<times> handleOut" where
  "groupAny rx srt g path handler = groupHandle rx srt g MethodWild path handler"

definition groupProxy :: "regexp \<Rightarrow> ('r routeHandler node list \<Rightarrow> 'r routeHandler node list) \<Rightarrow> (bytes \<Rightarrow> 'r RequestHandler) \<Rightarrow> 'r RouteGroup \<Rightarrow> bytes \<Rightarrow> 'r mux \<Rightarrow> 'r mux \<times> handleOut" where
  "groupProxy rx srt newProxy g path =
     (let handler = groupChain g (newProxy path) in
      andThen (groupAny rx srt g path handler) (groupAny rx srt g (proxyTail path) handler))"

section \<open>The application\<close>

text \<open>
  An application has a default router and a switch; a custom switch names one of the other routers, or
  none. \<open>routers\<close> is the store of the others.
\<close>

record 'r App =
  app_defaultMux :: "'r mux"
  app_routers :: "nat \<Rightarrow> 'r mux"
  app_switch :: "('r reqCtx \<Rightarrow> nat option) option"

definition onDefault :: "('r mux \<Rightarrow> 'r mux \<times> handleOut) \<Rightarrow> 'r App \<Rightarrow> 'r App \<times> handleOut" where
  "onDefault f a = (let (m, out) = f (app_defaultMux a) in (a\<lparr>app_defaultMux := m\<rparr>, out))"

definition appMutable :: "bool \<Rightarrow> 'r App \<Rightarrow> 'r App" where
  "appMutable v a = a\<lparr>app_defaultMux := muxMutable v (app_defaultMux a)\<rparr>"

definition appUse :: "'r RequestHandlerFunc list \<Rightarrow> 'r App \<Rightarrow> 'r App" where
  "appUse mws a = a\<lparr>app_defaultMux := Use mws (app_defaultMux a)\<rparr>"

definition appUsePriority :: "'r RequestHandlerFunc list \<Rightarrow> 'r App \<Rightarrow> 'r App" where
  "appUsePriority mws a = a\<lparr>app_defaultMux := UsePriority mws (app_defaultMux a)\<rparr>"

definition appRoutes :: "'r App \<Rightarrow> (bytes \<times> bytes list) list" where
  "appRoutes a = Routes (app_defaultMux a)"

definition appGroup :: "'r App \<Rightarrow> bytes \<Rightarrow> 'r RouteGroup" where
  "appGroup a path = \<lparr>g_prefix = path, g_middlewares = []\<rparr>"

definition appHandle :: "regexp \<Rightarrow> ('r routeHandler node list \<Rightarrow> 'r routeHandler node list) \<Rightarrow> bytes \<Rightarrow> bytes \<Rightarrow> 'r RequestHandler option \<Rightarrow> 'r App \<Rightarrow> 'r App \<times> handleOut" where
  "appHandle rx srt meth path handler = onDefault (Handle rx srt meth path handler)"

definition appGet :: "regexp \<Rightarrow> ('r routeHandler node list \<Rightarrow> 'r routeHandler node list) \<Rightarrow> bytes \<Rightarrow> 'r RequestHandler option \<Rightarrow> 'r App \<Rightarrow> 'r App \<times> handleOut" where
  "appGet rx srt path handler = appHandle rx srt MethodGet path handler"

definition appHead :: "regexp \<Rightarrow> ('r routeHandler node list \<Rightarrow> 'r routeHandler node list) \<Rightarrow> bytes \<Rightarrow> 'r RequestHandler option \<Rightarrow> 'r App \<Rightarrow> 'r App \<times> handleOut" where
  "appHead rx srt path handler = appHandle rx srt MethodHead path handler"

definition appQuery :: "regexp \<Rightarrow> ('r routeHandler node list \<Rightarrow> 'r routeHandler node list) \<Rightarrow> bytes \<Rightarrow> 'r RequestHandler option \<Rightarrow> 'r App \<Rightarrow> 'r App \<times> handleOut" where
  "appQuery rx srt path handler = appHandle rx srt MethodQuery path handler"

definition appPost :: "regexp \<Rightarrow> ('r routeHandler node list \<Rightarrow> 'r routeHandler node list) \<Rightarrow> bytes \<Rightarrow> 'r RequestHandler option \<Rightarrow> 'r App \<Rightarrow> 'r App \<times> handleOut" where
  "appPost rx srt path handler = appHandle rx srt MethodPost path handler"

definition appPut :: "regexp \<Rightarrow> ('r routeHandler node list \<Rightarrow> 'r routeHandler node list) \<Rightarrow> bytes \<Rightarrow> 'r RequestHandler option \<Rightarrow> 'r App \<Rightarrow> 'r App \<times> handleOut" where
  "appPut rx srt path handler = appHandle rx srt MethodPut path handler"

definition appPatch :: "regexp \<Rightarrow> ('r routeHandler node list \<Rightarrow> 'r routeHandler node list) \<Rightarrow> bytes \<Rightarrow> 'r RequestHandler option \<Rightarrow> 'r App \<Rightarrow> 'r App \<times> handleOut" where
  "appPatch rx srt path handler = appHandle rx srt MethodPatch path handler"

definition appDelete :: "regexp \<Rightarrow> ('r routeHandler node list \<Rightarrow> 'r routeHandler node list) \<Rightarrow> bytes \<Rightarrow> 'r RequestHandler option \<Rightarrow> 'r App \<Rightarrow> 'r App \<times> handleOut" where
  "appDelete rx srt path handler = appHandle rx srt MethodDelete path handler"

definition appConnect :: "regexp \<Rightarrow> ('r routeHandler node list \<Rightarrow> 'r routeHandler node list) \<Rightarrow> bytes \<Rightarrow> 'r RequestHandler option \<Rightarrow> 'r App \<Rightarrow> 'r App \<times> handleOut" where
  "appConnect rx srt path handler = appHandle rx srt MethodConnect path handler"

definition appOptions :: "regexp \<Rightarrow> ('r routeHandler node list \<Rightarrow> 'r routeHandler node list) \<Rightarrow> bytes \<Rightarrow> 'r RequestHandler option \<Rightarrow> 'r App \<Rightarrow> 'r App \<times> handleOut" where
  "appOptions rx srt path handler = appHandle rx srt MethodOptions path handler"

definition appTrace :: "regexp \<Rightarrow> ('r routeHandler node list \<Rightarrow> 'r routeHandler node list) \<Rightarrow> bytes \<Rightarrow> 'r RequestHandler option \<Rightarrow> 'r App \<Rightarrow> 'r App \<times> handleOut" where
  "appTrace rx srt path handler = appHandle rx srt MethodTrace path handler"

definition appAny :: "regexp \<Rightarrow> ('r routeHandler node list \<Rightarrow> 'r routeHandler node list) \<Rightarrow> bytes \<Rightarrow> 'r RequestHandler option \<Rightarrow> 'r App \<Rightarrow> 'r App \<times> handleOut" where
  "appAny rx srt path handler = appHandle rx srt MethodWild path handler"

definition appProxy :: "regexp \<Rightarrow> ('r routeHandler node list \<Rightarrow> 'r routeHandler node list) \<Rightarrow> (bytes \<Rightarrow> 'r RequestHandler) \<Rightarrow> bytes \<Rightarrow> 'r App \<Rightarrow> 'r App \<times> handleOut" where
  "appProxy rx srt newProxy path =
     (let p = newProxy path in
      andThen (appAny rx srt path (Some p)) (appAny rx srt (proxyTail path) (Some p)))"

definition SetRouterSwitch :: "('r reqCtx \<Rightarrow> nat option) option \<Rightarrow> 'r App \<Rightarrow> 'r App" where
  "SetRouterSwitch r a = a\<lparr>app_switch := r\<rparr>"

text \<open>\<open>None\<close> is the default router.\<close>

definition SelectRouter :: "'r App \<Rightarrow> 'r reqCtx \<Rightarrow> nat option" where
  "SelectRouter a ctx = (case app_switch a of None \<Rightarrow> None | Some custom \<Rightarrow> custom ctx)"

definition appHandler :: "'r srvEnv \<Rightarrow> 'r App \<Rightarrow> 'r reqCtx \<Rightarrow> 'r App \<times> 'r reqCtx \<times> serveOut" where
  "appHandler ev a ctx =
     (case SelectRouter a ctx of
        None \<Rightarrow> (let (m, res) = Handler ev (app_defaultMux a) ctx in (a\<lparr>app_defaultMux := m\<rparr>, res))
      | Some r \<Rightarrow> (let (m, res) = Handler ev (app_routers a r) ctx in (a\<lparr>app_routers := (app_routers a)(r := m)\<rparr>, res)))"

section \<open>Chains of middlewares\<close>

lemma chainLoop_foldr: "chainLoop mws h = foldr (\<lambda>mw h. mw h) mws h"
  by (induction mws) simp_all

lemma Chain_foldr: "Chain m h = foldr (\<lambda>mw h. mw h) (priorityMiddlewares m @ middlewares m) h"
  by (simp add: Chain_def chainLoop_foldr)

section \<open>Properties\<close>

text \<open>
  C20 Groups are only prefixes and middlewares. Registering through a group inside a group is registering
  on the router with the prefixes joined, and the handler that is stored runs inside all middlewares in
  the order priority, router, outer group, inner group; middlewares added to the outer group afterwards
  do not reach it.
\<close>

theorem group_nested:
  assumes "inner = groupUse ms2 (groupGroup p2 (groupUse ms1 (muxGroup p1)))"
  shows "groupHandle rx srt inner meth path h m =
      Handle rx srt meth (p1 @ p2 @ path) (Some (foldr (\<lambda>mw h. mw h) (ms1 @ ms2) h)) m \<and>
    Chain m (groupChain inner h) = foldr (\<lambda>mw h. mw h) (priorityMiddlewares m @ middlewares m @ ms1 @ ms2) h"
  by (simp add: assms groupHandle_def groupChain_def groupUse_def groupGroup_def muxGroup_def Chain_foldr)

theorem group_nested_witness:
  "groupHandle noMatch insertionSort (groupUse [] (groupGroup ''/v1'' (groupUse [id] (muxGroup ''/api'')))) ''GET'' ''/users''
     (\<lambda>c. (c, None)) (newMux assocOps) =
   Handle noMatch insertionSort ''GET'' ''/api/v1/users'' (Some (\<lambda>c. (c, None))) (newMux assocOps)"
  using group_nested [OF refl, of noMatch insertionSort "[]" "''/v1''" "[id]" "''/api''" "''GET''" "''/users''" "\<lambda>c. (c, None)" "newMux assocOps"]
  by simp

text \<open>
  A proxy on a group puts the group's middlewares around its handler twice: \<open>Proxy\<close> chains them and
  the registration it calls chains them again.
\<close>

theorem group_proxy_twice:
  "groupProxy rx srt newProxy g path =
   (let h = foldr (\<lambda>mw h. mw h) (g_middlewares g @ g_middlewares g) (newProxy path) in
    andThen (Handle rx srt MethodWild (g_prefix g @ path) (Some h))
      (Handle rx srt MethodWild (g_prefix g @ proxyTail path) (Some h)))"
  by (simp add: groupProxy_def groupAny_def groupHandle_def groupChain_def fun_eq_iff Let_def)

end
