(* ===== verification/Static_Files.thy ===== *)
theory Static_Files
  imports Responses Route_Group
begin

text \<open>
  Static files from an embedded file system: \<open>src/static.go\<close>.

  The file system is a function from names to an error or a file, which is the bytes a reader gets before the
  error it ends with, if any. A replacer of package \<open>strings\<close> is a function on texts. The gzip compressor, the table of
  content types, \<open>url.JoinPath\<close> and the test of the accepted encodings are parameters. The static handler is
  shared by all its routes and is passed along; each access to its cache is one step, under the lock of the source.
\<close>

record staticFile =
  sf_data :: bytes
  sf_err :: "goErr option"

type_synonym staticFS = "bytes \<Rightarrow> goErr + staticFile"

type_synonym 'r StaticContentReplacer = "'r Ctx \<Rightarrow> 'r Ctx \<times> (panicVal + bytes \<times> (bytes \<Rightarrow> bytes) option)"

record 'r staticHandler =
  TrimPrefixOpt :: bytes
  ReplacerFunc :: "'r StaticContentReplacer option"
  NotFoundPath :: bytes
  sh_fs :: staticFS
  sh_gzip :: bool
  altcontent :: "bytes \<rightharpoonup> bytes"
  extcache :: "bytes \<rightharpoonup> bytes"

section \<open>Options\<close>

datatype 'r StaticOption =
    StaticDirTrimPrefix bytes
  | StaticContentReplacer "'r StaticContentReplacer option"
  | StaticSPARouterPath bytes
  | staticGzipContent bool

fun applyStatic :: "'r StaticOption \<Rightarrow> 'r staticHandler \<Rightarrow> 'r staticHandler" where
  "applyStatic (StaticDirTrimPrefix p) h = h\<lparr>TrimPrefixOpt := p\<rparr>"
| "applyStatic (StaticContentReplacer r) h = h\<lparr>ReplacerFunc := r\<rparr>"
| "applyStatic (StaticSPARouterPath p) h = h\<lparr>NotFoundPath := p\<rparr>"
| "applyStatic (staticGzipContent g) h = h\<lparr>sh_gzip := g\<rparr>"

abbreviation StaticGzipContent :: "'r StaticOption" where
  "StaticGzipContent \<equiv> staticGzipContent True"

section \<open>The cache\<close>

definition getContent :: "'r staticHandler \<Rightarrow> bytes \<Rightarrow> bytes option" where
  "getContent h key = altcontent h key"

definition setContent :: "bytes \<Rightarrow> bytes \<Rightarrow> 'r staticHandler \<Rightarrow> 'r staticHandler" where
  "setContent key val h = h\<lparr>altcontent := (altcontent h)(key \<mapsto> val)\<rparr>"

definition replaceContent :: "'r staticHandler \<Rightarrow> bytes \<Rightarrow> (bytes \<Rightarrow> bytes) \<Rightarrow> goErr + bytes \<times> bool" where
  "replaceContent h file replacer =
     (case sh_fs h file of
        Inl err \<Rightarrow> Inl err
      | Inr s \<Rightarrow> (case sf_err s of
          Some err \<Rightarrow> Inl err
        | None \<Rightarrow> let content = replacer (sf_data s) in Inr (content, content \<noteq> sf_data s)))"

section \<open>Serving\<close>

text \<open>What the library and the standard library do for the handler.\<close>

record 'r staticEnv =
  se_env :: "'r srvEnv"
  se_opts :: "'r RouterOptions"
  se_gz :: "bytes \<Rightarrow> bytes"
  se_acceptsEncoding :: "fhReq \<Rightarrow> bytes \<Rightarrow> bool"
  se_setBodyStream :: "bytes \<Rightarrow> 'r \<Rightarrow> 'r"

definition serveContent :: "'r staticEnv \<Rightarrow> bool \<Rightarrow> bytes \<Rightarrow> 'r Ctx \<Rightarrow> 'r Ctx" where
  "serveContent se gz content ctx =
     respRaw (e_ro (se_env se)) content
       (if gz then headerSet (e_ro (se_env se)) ''Content-Encoding'' ''gzip'' ctx else ctx)"

definition staticHeaders :: "'r staticEnv \<Rightarrow> 'r staticHandler \<Rightarrow> bytes \<Rightarrow> 'r Ctx \<Rightarrow> 'r Ctx" where
  "staticHeaders se h fpath ctx =
     (let ro = e_ro (se_env se);
          ctx = headerSet ro ''Content-Type'' (case extcache h fpath of Some t \<Rightarrow> t | None \<Rightarrow> []) ctx
      in if sh_gzip h then headerSet ro ''Vary'' ''Accept-Encoding'' ctx else ctx)"

definition usesGzip :: "'r staticEnv \<Rightarrow> 'r staticHandler \<Rightarrow> 'r Ctx \<Rightarrow> bool" where
  "usesGzip se h ctx \<longleftrightarrow> sh_gzip h \<and> se_acceptsEncoding se (c_Request ctx) ''gzip''"

text \<open>The part of the handler that serves a file as it is.\<close>

definition servePlain ::
  "'r staticEnv \<Rightarrow> 'r staticHandler \<Rightarrow> bytes \<Rightarrow> bytes \<Rightarrow> bool \<Rightarrow> 'r Ctx \<Rightarrow> 'r Ctx \<times> panicVal option" where
  "servePlain se h fpath path useGzip ctx =
     (case (if useGzip then getContent h (''gz:*'' @ fpath) else None) of
        Some content \<Rightarrow> (serveContent se True content ctx, None)
      | None \<Rightarrow> (case sh_fs h path of
            Inl err \<Rightarrow> ctxError (se_env se) (se_opts se) (Some err) ctx
          | Inr s \<Rightarrow> (respStream (se_setBodyStream se) (sf_data s) ctx, None)))"

text \<open>The part that replaces values: the two caches are asked first, when the replacer has a hash.\<close>

definition cachedContent :: "'r staticHandler \<Rightarrow> bool \<Rightarrow> bytes \<Rightarrow> bytes \<Rightarrow> bytes option" where
  "cachedContent h useGzip hash fpath =
     (if hash = [] then None
      else let prefix = (if useGzip then ''gz:'' else []) in
        case getContent h (prefix @ fpath) of
          Some content \<Rightarrow> Some content
        | None \<Rightarrow> getContent h (prefix @ hash @ fpath))"

definition storeContent ::
  "'r staticEnv \<Rightarrow> bytes \<Rightarrow> bytes \<Rightarrow> 'r staticHandler \<Rightarrow> 'r staticHandler" where
  "storeContent se cacheKey content h =
     (let h = setContent cacheKey content h in
      if sh_gzip h then setContent (''gz:'' @ cacheKey) (se_gz se content) h else h)"

definition serveReplaced ::
  "'r staticEnv \<Rightarrow> 'r staticHandler \<Rightarrow> bytes \<Rightarrow> bytes \<Rightarrow> bool \<Rightarrow> bytes \<Rightarrow> (bytes \<Rightarrow> bytes) \<Rightarrow> 'r Ctx \<Rightarrow>
   'r staticHandler \<times> 'r Ctx \<times> panicVal option" where
  "serveReplaced se h fpath path useGzip hash replacer ctx =
     (case cachedContent h useGzip hash fpath of
        Some content \<Rightarrow> (h, serveContent se useGzip content ctx, None)
      | None \<Rightarrow> (case replaceContent h path replacer of
          Inl err \<Rightarrow> (h, ctxError (se_env se) (se_opts se) (Some err) ctx)
        | Inr (content, changed) \<Rightarrow>
            if hash = [] then (h, serveContent se False content ctx, None)
            else let cacheKey = (if changed then hash @ fpath else fpath); h = storeContent se cacheKey content h in
              case (if useGzip then getContent h (''gz:'' @ cacheKey) else None) of
                Some gz \<Rightarrow> (h, serveContent se True gz ctx, None)
              | None \<Rightarrow> (h, serveContent se False content ctx, None)))"

definition staticRequest ::
  "'r staticEnv \<Rightarrow> bytes \<Rightarrow> bytes \<Rightarrow> 'r staticHandler \<Rightarrow> 'r Ctx \<Rightarrow> 'r staticHandler \<times> 'r Ctx \<times> panicVal option" where
  "staticRequest se fpath path h ctx =
     (let ctx = staticHeaders se h fpath ctx; useGzip = usesGzip se h ctx in
      case ReplacerFunc h of
        None \<Rightarrow> (h, servePlain se h fpath path useGzip ctx)
      | Some f \<Rightarrow> (case f ctx of
            (ctx, Inl p) \<Rightarrow> (h, ctx, Some p)
          | (ctx, Inr (hash, None)) \<Rightarrow> (h, servePlain se h fpath path useGzip ctx)
          | (ctx, Inr (hash, Some replacer)) \<Rightarrow> serveReplaced se h fpath path useGzip hash replacer ctx))"

section \<open>Registration\<close>

text \<open>\<open>filepath.Ext\<close>: from the last dot of the last element.\<close>

definition filepathExt :: "bytes \<Rightarrow> bytes" where
  "filepathExt p =
     (let t = rev (takeWhile (\<lambda>c. c \<noteq> slash) (rev p)) in
      case LastIndex t ''.'' of Some i \<Rightarrow> drop i t | None \<Rightarrow> [])"

record 'r registrar =
  rg_rx :: regexp
  rg_sort :: "'r routeHandler node list \<Rightarrow> 'r routeHandler node list"
  rg_mime :: "bytes \<Rightarrow> bytes"
  rg_joinPath :: "bytes \<Rightarrow> bytes \<Rightarrow> goErr + bytes"
  rg_closure :: "bytes \<Rightarrow> bytes \<Rightarrow> 'r RequestHandler"

text \<open>
  \<open>rg_closure fpath path\<close> is the handler value that the source makes of \<^const>\<open>staticRequest\<close> over the shared handler.
  What registration leaves: the application, the handler, the jobs of the background task and how it ended.
\<close>

datatype staticOut = StaticOk | StaticErr goErr | StaticPanic handleOut

type_synonym 'r staticReg = "'r App \<times> 'r staticHandler \<times> (bytes \<rightharpoonup> bytes) \<times> staticOut"

definition staticGet :: "'r registrar \<Rightarrow> bytes \<Rightarrow> bytes \<Rightarrow> bytes \<Rightarrow> 'r App \<Rightarrow> 'r staticHandler \<Rightarrow> (bytes \<rightharpoonup> bytes) \<Rightarrow> 'r staticReg" where
  "staticGet rg route fpath file a h jobs =
     (let h = h\<lparr>extcache := (extcache h)(fpath \<mapsto> rg_mime rg (filepathExt fpath))\<rparr>;
          jobs = (if sh_gzip h then jobs(''gz:*'' @ fpath \<mapsto> file) else jobs);
          (a, out) = appGet (rg_rx rg) (rg_sort rg) route (Some (rg_closure rg fpath file)) a
      in (a, h, jobs, if out = HandleOk then StaticOk else StaticPanic out))"

definition staticBase :: "bytes \<Rightarrow> bytes" where
  "staticBase path =
     (let base = (if HasPrefix path ''/'' then path else ''/'' @ path) in
      if HasSuffix base ''/'' then base else base @ ''/'')"

definition staticPath :: "bytes \<Rightarrow> 'r staticHandler \<Rightarrow> bytes \<Rightarrow> bytes" where
  "staticPath base h file =
     base @ (if length (TrimPrefixOpt h) > 0 then TrimPrefix file (TrimPrefixOpt h) else file)"

text \<open>The walk over the file system: each entry has its name, whether it is a directory and the walk's error.\<close>

fun walkFiles ::
  "'r registrar \<Rightarrow> bytes \<Rightarrow> (bytes \<times> bool \<times> goErr option) list \<Rightarrow> 'r App \<Rightarrow> 'r staticHandler \<Rightarrow> (bytes \<rightharpoonup> bytes) \<Rightarrow>
   'r staticReg" where
  "walkFiles rg base [] a h jobs = (a, h, jobs, StaticOk)"
| "walkFiles rg base ((file, isDir, err) # es) a h jobs =
     (case err of
        Some e \<Rightarrow> (a, h, jobs, StaticErr e)
      | None \<Rightarrow>
          if isDir then walkFiles rg base es a h jobs
          else let fpath = staticPath base h file in
            case staticGet rg fpath fpath file a h jobs of
              (a, h, jobs, StaticOk) \<Rightarrow> walkFiles rg base es a h jobs
            | res \<Rightarrow> res)"

definition spaPath :: "'r staticHandler \<Rightarrow> bytes" where
  "spaPath h = (if HasPrefix (NotFoundPath h) ''/'' then NotFoundPath h else ''/'' @ NotFoundPath h)"

definition registerSPA :: "'r registrar \<Rightarrow> bytes \<Rightarrow> 'r App \<Rightarrow> 'r staticHandler \<Rightarrow> (bytes \<rightharpoonup> bytes) \<Rightarrow> 'r staticReg" where
  "registerSPA rg base a h jobs =
     (if length (NotFoundPath h) > 0 then
        case rg_joinPath rg (TrimPrefixOpt h) (TrimPrefix (NotFoundPath h) ''/'') of
          Inl err \<Rightarrow> (a, h, jobs, StaticErr err)
        | Inr file \<Rightarrow> (case sh_fs h file of
            Inl err \<Rightarrow> (a, h, jobs, StaticErr (err\<lparr>e_Error := ''static SPA route handler file not found: '' @ e_Error err\<rparr>))
          | Inr ff \<Rightarrow> staticGet rg (base @ ''{path:*}'') (spaPath h) file a h jobs)
      else (a, h, jobs, StaticOk))"

definition newStatic :: "staticFS \<Rightarrow> 'r StaticOption list \<Rightarrow> 'r staticHandler" where
  "newStatic fs opts = foldl (\<lambda>h opt. applyStatic opt h)
     \<lparr>TrimPrefixOpt = [], ReplacerFunc = None, NotFoundPath = [], sh_fs = fs, sh_gzip = False,
      altcontent = Map.empty, extcache = Map.empty\<rparr> opts"

definition StaticEmbedded ::
  "'r registrar \<Rightarrow> bytes \<Rightarrow> staticFS \<Rightarrow> (bytes \<times> bool \<times> goErr option) list \<Rightarrow> 'r StaticOption list \<Rightarrow> 'r App \<Rightarrow> 'r staticReg" where
  "StaticEmbedded rg path fs entries opts a =
     (case walkFiles rg (staticBase path) entries a (newStatic fs opts) Map.empty of
        (a, h, jobs, StaticOk) \<Rightarrow> registerSPA rg (staticBase path) a h jobs
      | res \<Rightarrow> res)"

text \<open>One turn of the background task that compresses the files.\<close>

definition gzipJob :: "'r staticEnv \<Rightarrow> bytes \<Rightarrow> bytes \<Rightarrow> 'r staticHandler \<Rightarrow> 'r staticHandler" where
  "gzipJob se key path h =
     (case sh_fs h path of
        Inl err \<Rightarrow> h
      | Inr fh \<Rightarrow> setContent key (se_gz se (sf_data fh)) h)"

end
