(* ===== verification/Static_Cache.thy ===== *)
theory Static_Cache
  imports Static_Files
begin

text \<open>
  The cache of the static file handler is invisible. Its keys are a tag followed by the path of a file: nothing for
  a file that replacing leaves as it is, the hash of the replacer otherwise, each with \<open>gz:\<close> in front for the compressed form,
  and \<open>gz:*\<close> for the compressed original. For hashes without the bytes \<open>/\<close>, \<open>:\<close> and \<open>*\<close> the tag
  of a key is unique, so every entry is the content it should be after any sequence of requests and compression jobs.
\<close>

section \<open>What registration leaves\<close>

definition siteRoutes :: "'r staticHandler \<Rightarrow> (bytes \<times> bytes) set \<Rightarrow> (bytes \<rightharpoonup> bytes) \<Rightarrow> bool" where
  "siteRoutes h site jobs \<longleftrightarrow> altcontent h = Map.empty \<and>
     (\<forall>(fpath, path) \<in> site. HasPrefix fpath ''/'') \<and>
     (\<forall>key path. jobs key = Some path \<longrightarrow> (\<exists>fpath. key = ''gz:*'' @ fpath \<and> (fpath, path) \<in> site))"

text \<open>The files that a registration serves, with the paths they are cached under.\<close>

definition embeddedRoutes ::
  "'r registrar \<Rightarrow> bytes \<Rightarrow> (bytes \<times> bool \<times> goErr option) list \<Rightarrow> 'r staticHandler \<Rightarrow> (bytes \<times> bytes) set" where
  "embeddedRoutes rg base entries h =
     {(staticPath base h file, file) | file err. (file, False, err) \<in> set entries} \<union>
     (case rg_joinPath rg (TrimPrefixOpt h) (TrimPrefix (NotFoundPath h) ''/'') of
        Inr file \<Rightarrow> (if length (NotFoundPath h) > 0 then {(spaPath h, file)} else {}) | Inl _ \<Rightarrow> {})"

lemma staticGet_frame:
  assumes "staticGet rg route fpath file a h jobs = (a', h', jobs', out)"
  shows "altcontent h' = altcontent h" "sh_fs h' = sh_fs h" "sh_gzip h' = sh_gzip h" "ReplacerFunc h' = ReplacerFunc h"
    "TrimPrefixOpt h' = TrimPrefixOpt h" "NotFoundPath h' = NotFoundPath h"
    "jobs' = (if sh_gzip h then jobs(''gz:*'' @ fpath \<mapsto> file) else jobs)"
  using assms by (auto simp: staticGet_def Let_def split: prod.splits)

lemma staticPath_cong: "TrimPrefixOpt h = TrimPrefixOpt h' \<Longrightarrow> staticPath base h = staticPath base h'"
  by (simp add: staticPath_def fun_eq_iff)

lemma spaPath_cong: "NotFoundPath h = NotFoundPath h' \<Longrightarrow> spaPath h = spaPath h'"
  by (simp add: spaPath_def)

text \<open>The jobs that a walk adds compress the files that it registers.\<close>

definition walkJobs :: "bytes \<Rightarrow> 'r staticHandler \<Rightarrow> (bytes \<times> bool \<times> goErr option) list \<Rightarrow> (bytes \<rightharpoonup> bytes) \<Rightarrow> (bytes \<rightharpoonup> bytes) \<Rightarrow> bool" where
  "walkJobs base h es jobs jobs' \<longleftrightarrow> (\<forall>key path. jobs' key = Some path \<longrightarrow> jobs key = Some path \<or>
       (\<exists>err. key = ''gz:*'' @ staticPath base h path \<and> (path, False, err) \<in> set es))"

lemma walkJobs_Cons: "walkJobs base h es jobs jobs' \<Longrightarrow> walkJobs base h (e # es) jobs jobs'"
  unfolding walkJobs_def by (metis list.set_intros(2))

lemma walkJobs_add:
  assumes "walkJobs base h es (jobs(''gz:*'' @ staticPath base h fl \<mapsto> fl)) jobs'"
  shows "walkJobs base h ((fl, False, err) # es) jobs jobs'"
  unfolding walkJobs_def
proof (intro allI impI)
  fix key path
  assume "jobs' key = Some path"
  with assms have "(jobs(''gz:*'' @ staticPath base h fl \<mapsto> fl)) key = Some path \<or>
      (\<exists>err. key = ''gz:*'' @ staticPath base h path \<and> (path, False, err) \<in> set es)" by (simp only: walkJobs_def)
  then show "jobs key = Some path \<or>
      (\<exists>e. key = ''gz:*'' @ staticPath base h path \<and> (path, False, e) \<in> set ((fl, False, err) # es))"
    by (metis fun_upd_apply list.set_intros(1) list.set_intros(2) option.inject)
qed

lemma walkFiles_frame:
  assumes "walkFiles rg base es a h jobs = (a', h', jobs', StaticOk)"
  shows "altcontent h' = altcontent h \<and> sh_fs h' = sh_fs h \<and> sh_gzip h' = sh_gzip h \<and> ReplacerFunc h' = ReplacerFunc h \<and>
    TrimPrefixOpt h' = TrimPrefixOpt h \<and> NotFoundPath h' = NotFoundPath h \<and>
    walkJobs base h es jobs jobs'"
  using assms
proof (induction es arbitrary: a h jobs)
  case (Cons e es)
  obtain fl isDir err where e: "e = (fl, isDir, err)" by (cases e) auto
  with Cons.prems have err: "err = None" by (auto split: option.splits)
  show ?case
  proof (cases isDir)
    case True
    with Cons.prems e err have "walkFiles rg base es a h jobs = (a', h', jobs', StaticOk)" by simp
    from Cons.IH [OF this] show ?thesis by (simp add: walkJobs_Cons)
  next
    case False
    let ?f = "staticPath base h fl"
    obtain a1 h1 jobs1 out where g: "staticGet rg ?f ?f fl a h jobs = (a1, h1, jobs1, out)"
      by (cases "staticGet rg ?f ?f fl a h jobs") auto
    with Cons.prems e err False have "out = StaticOk" and w: "walkFiles rg base es a1 h1 jobs1 = (a', h', jobs', StaticOk)"
      by (auto simp: Let_def split: staticOut.splits)
    note fr = staticGet_frame [OF g]
    have sp: "walkJobs base h1 = walkJobs base h" using staticPath_cong [of h1 h] fr(5) by (simp add: walkJobs_def fun_eq_iff)
    from Cons.IH [OF w] have IH: "altcontent h' = altcontent h1" "sh_fs h' = sh_fs h1" "sh_gzip h' = sh_gzip h1"
      "ReplacerFunc h' = ReplacerFunc h1" "TrimPrefixOpt h' = TrimPrefixOpt h1" "NotFoundPath h' = NotFoundPath h1"
      "walkJobs base h es jobs1 jobs'" by (simp_all add: sp)
    have "walkJobs base h (e # es) jobs jobs'"
    proof (cases "sh_gzip h")
      case True
      with IH(7) fr(7) show ?thesis unfolding e using False by (simp add: walkJobs_add)
    next
      case False
      with IH(7) fr(7) show ?thesis by (simp add: walkJobs_Cons)
    qed
    with IH fr show ?thesis by simp
  qed
qed (simp add: walkJobs_def)

lemma newStatic_frame [simp]: "altcontent (newStatic fs opts) = Map.empty" "sh_fs (newStatic fs opts) = fs"
proof -
  have "altcontent (applyStatic opt h) = altcontent h \<and> sh_fs (applyStatic opt h) = sh_fs h" for opt and h :: "'a staticHandler"
    by (cases opt) simp_all
  then have "altcontent (foldl (\<lambda>h opt. applyStatic opt h) h opts) = altcontent h \<and>
      sh_fs (foldl (\<lambda>h opt. applyStatic opt h) h opts) = sh_fs h" for h :: "'a staticHandler"
    by (induction opts arbitrary: h) simp_all
  then show "altcontent (newStatic fs opts :: 'a staticHandler) = Map.empty" "sh_fs (newStatic fs opts :: 'a staticHandler) = fs"
    by (simp_all add: newStatic_def)
qed

lemma staticBase_slash: "HasPrefix (staticBase path) ''/''"
  by (auto simp: staticBase_def Let_def HasPrefix_def take_Cons')

lemma staticPath_slash: "HasPrefix (staticPath (staticBase path) h file) ''/''"
  using staticBase_slash [of path] by (auto simp: staticPath_def HasPrefix_iff)

lemma spaPath_slash: "HasPrefix (spaPath h) ''/''"
  by (auto simp: spaPath_def HasPrefix_def)

lemma embedded_file: "(p, False, err) \<in> set es \<Longrightarrow> (staticPath base h p, p) \<in> embeddedRoutes rg base es h"
  by (auto simp: embeddedRoutes_def)

lemma embedded_spa:
  "rg_joinPath rg (TrimPrefixOpt h) (TrimPrefix (NotFoundPath h) ''/'') = Inr fl \<Longrightarrow> length (NotFoundPath h) > 0 \<Longrightarrow>
   (spaPath h, fl) \<in> embeddedRoutes rg base es h"
  by (simp add: embeddedRoutes_def)

lemma embedded_slash: "(fpath, p) \<in> embeddedRoutes rg (staticBase path) es h \<Longrightarrow> HasPrefix fpath ''/''"
  by (auto simp: embeddedRoutes_def staticPath_slash spaPath_slash split: sum.splits if_splits)

lemma siteRoutesI:
  assumes "altcontent h = Map.empty"
    "\<And>key p. jobs key = Some p \<Longrightarrow> \<exists>fpath. key = ''gz:*'' @ fpath \<and> (fpath, p) \<in> embeddedRoutes rg (staticBase path) es h"
  shows "siteRoutes h (embeddedRoutes rg (staticBase path) es h) jobs"
  using assms embedded_slash unfolding siteRoutes_def by blast

lemma embedded_site:
  assumes "StaticEmbedded rg path fs entries opts a = (a', h, jobs, StaticOk)"
  shows "siteRoutes h (embeddedRoutes rg (staticBase path) entries h) jobs" "sh_fs h = fs"
    "ReplacerFunc h = ReplacerFunc (newStatic fs opts)" "sh_gzip h = sh_gzip (newStatic fs opts)"
proof -
  let ?b = "staticBase path"
  obtain a1 h1 jobs1 out where w: "walkFiles rg ?b entries a (newStatic fs opts) Map.empty = (a1, h1, jobs1, out)"
    by (cases "walkFiles rg ?b entries a (newStatic fs opts) Map.empty") auto
  with assms have out: "out = StaticOk" and r: "registerSPA rg ?b a1 h1 jobs1 = (a', h, jobs, StaticOk)"
    by (auto simp: StaticEmbedded_def split: staticOut.splits)
  note W = walkFiles_frame [OF w [unfolded out]]
  have sp: "staticPath ?b h1 = staticPath ?b (newStatic fs opts)" using W staticPath_cong by blast
  have J: "jobs1 key = Some p \<Longrightarrow> \<exists>err. key = ''gz:*'' @ staticPath ?b (newStatic fs opts) p \<and> (p, False, err) \<in> set entries" for key p
    using W unfolding walkJobs_def by auto
  have "siteRoutes h (embeddedRoutes rg ?b entries h) jobs \<and> sh_fs h = fs \<and>
      ReplacerFunc h = ReplacerFunc (newStatic fs opts) \<and> sh_gzip h = sh_gzip (newStatic fs opts)"
  proof (cases "length (NotFoundPath h1) > 0")
    case False
    with r have "h = h1" "jobs = jobs1" by (auto simp: registerSPA_def)
    have "jobs key = Some p \<Longrightarrow> \<exists>fpath. key = ''gz:*'' @ fpath \<and> (fpath, p) \<in> embeddedRoutes rg ?b entries h" for key p
      using J [of key p] embedded_file [of p _ entries ?b h rg] \<open>h = h1\<close> \<open>jobs = jobs1\<close> sp by metis
    with W \<open>h = h1\<close> show ?thesis by (simp add: siteRoutesI)
  next
    case True
    with r obtain fl where j: "rg_joinPath rg (TrimPrefixOpt h1) (TrimPrefix (NotFoundPath h1) ''/'') = Inr fl"
      and g: "staticGet rg (?b @ ''{path:*}'') (spaPath h1) fl a1 h1 jobs1 = (a', h, jobs, StaticOk)"
      by (auto simp: registerSPA_def split: sum.splits)
    note fr = staticGet_frame [OF g]
    have sp2: "spaPath h = spaPath h1" "staticPath ?b h = staticPath ?b (newStatic fs opts)"
      using spaPath_cong [OF fr(6)] staticPath_cong [OF fr(5)] sp by simp_all
    have "jobs key = Some p \<Longrightarrow> \<exists>fpath. key = ''gz:*'' @ fpath \<and> (fpath, p) \<in> embeddedRoutes rg ?b entries h" for key p
    proof -
      assume "jobs key = Some p"
      with fr(7) consider "key = ''gz:*'' @ spaPath h1" "p = fl" | "jobs1 key = Some p"
        by (metis fun_upd_apply option.inject)
      then show ?thesis
      proof cases
        case 1
        have "(spaPath h, fl) \<in> embeddedRoutes rg ?b entries h"
          by (rule embedded_spa) (use j True fr(5,6) in simp_all)
        with 1 sp2(1) show ?thesis by (intro exI [of _ "spaPath h1"]) simp
      next
        case 2
        from J [OF this] embedded_file [of p _ entries ?b h rg] sp2(2) show ?thesis by metis
      qed
    qed
    with W fr(1-6) show ?thesis by (simp add: siteRoutesI)
  qed
  then show "siteRoutes h (embeddedRoutes rg ?b entries h) jobs" "sh_fs h = fs"
    "ReplacerFunc h = ReplacerFunc (newStatic fs opts)" "sh_gzip h = sh_gzip (newStatic fs opts)" by simp_all
qed

section \<open>Keys\<close>

definition goodHash :: "bytes \<Rightarrow> bool" where
  "goodHash hash \<longleftrightarrow> hash \<noteq> [] \<and> slash \<notin> set hash \<and> colon \<notin> set hash \<and> CHR ''*'' \<notin> set hash"

lemma key_split:
  assumes "u @ f = u' @ f'" "HasPrefix f ''/''" "HasPrefix f' ''/''" "slash \<notin> set u" "slash \<notin> set u'"
  shows "u = u' \<and> f = f'"
proof -
  obtain v v' where f: "f = slash # v" "f' = slash # v'" using assms(2,3) by (auto simp: HasPrefix_iff)
  have tw: "slash \<notin> set x \<Longrightarrow> takeWhile (\<lambda>c. c \<noteq> slash) (x @ slash # y) = x" for x y
    by (induction x) auto
  have "u = u'" using assms(1) tw [OF assms(4), of v] tw [OF assms(5), of v'] unfolding f by simp
  with assms(1) show ?thesis by simp
qed

text \<open>The tag of the content that replacing gives.\<close>

definition entryTag :: "bool \<Rightarrow> bytes \<Rightarrow> bool \<Rightarrow> bytes" where
  "entryTag gz hash changed = (if gz then ''gz:'' else []) @ (if changed then hash else [])"

lemma tag_slash: "goodHash hash \<Longrightarrow> slash \<notin> set (entryTag gz hash changed)"
  by (auto simp: entryTag_def goodHash_def)

lemma tag_inj:
  assumes "entryTag gz hash ch = entryTag gz' hash' ch'" "goodHash hash" "goodHash hash'"
  shows "gz = gz' \<and> ch = ch' \<and> (ch \<longrightarrow> hash = hash')"
proof -
  have "colon \<in> set (entryTag g h c) \<longleftrightarrow> g" if "goodHash h" for g h c
    using that by (auto simp: entryTag_def goodHash_def)
  with assms have "gz = gz'" by metis
  with assms show ?thesis by (auto simp: entryTag_def goodHash_def split: if_splits)
qed

lemma tag_star: "goodHash hash \<Longrightarrow> entryTag gz hash ch \<noteq> ''gz:*''"
  by (auto simp: entryTag_def goodHash_def split: if_splits)

section \<open>The invariant\<close>

text \<open>
  \<open>R hash\<close> is the replacer with that hash. A key holds what it should, for the files \<open>fs\<close> and the compressor \<open>gz\<close>.
\<close>

definition encoded :: "(bytes \<Rightarrow> bytes) \<Rightarrow> bool \<Rightarrow> bytes \<Rightarrow> bytes" where
  "encoded gz z v = (if z then gz v else v)"

definition entryOK ::
  "staticFS \<Rightarrow> (bytes \<Rightarrow> bytes) \<Rightarrow> (bytes \<Rightarrow> bytes \<Rightarrow> bytes) \<Rightarrow> (bytes \<times> bytes) set \<Rightarrow> bytes \<Rightarrow> bytes \<Rightarrow> bool" where
  "entryOK fs gz R site key c \<longleftrightarrow>
     (\<exists>fpath path s. (fpath, path) \<in> site \<and> fs path = Inr s \<and>
        ((\<exists>z hash. goodHash hash \<and> sf_err s = None \<and>
            key = entryTag z hash (R hash (sf_data s) \<noteq> sf_data s) @ fpath \<and> c = encoded gz z (R hash (sf_data s))) \<or>
         key = ''gz:*'' @ fpath \<and> c = gz (sf_data s)))"

definition cacheInv ::
  "staticFS \<Rightarrow> (bytes \<Rightarrow> bytes) \<Rightarrow> (bytes \<Rightarrow> bytes \<Rightarrow> bytes) \<Rightarrow> (bytes \<times> bytes) set \<Rightarrow> (bytes \<rightharpoonup> bytes) \<Rightarrow> bool" where
  "cacheInv fs gz R site m \<longleftrightarrow> (\<forall>key c. m key = Some c \<longrightarrow> entryOK fs gz R site key c)"

lemma cacheInv_upd: "cacheInv fs gz R site m \<Longrightarrow> entryOK fs gz R site key c \<Longrightarrow> cacheInv fs gz R site (m(key \<mapsto> c))"
  by (simp add: cacheInv_def)

text \<open>The replacers of the site: a hash names one replacer, and whether a file changes does not depend on it.\<close>

definition hashedBy :: "(bytes \<Rightarrow> bytes \<Rightarrow> bytes) \<Rightarrow> 'r StaticContentReplacer \<Rightarrow> bool" where
  "hashedBy R f \<longleftrightarrow> (\<forall>ctx ctx' hash rep. f ctx = (ctx', Inr (hash, Some rep)) \<and> hash \<noteq> [] \<longrightarrow> goodHash hash \<and> rep = R hash)"

definition siteOK :: "staticFS \<Rightarrow> (bytes \<Rightarrow> bytes \<Rightarrow> bytes) \<Rightarrow> (bytes \<times> bytes) set \<Rightarrow> bool" where
  "siteOK fs R site \<longleftrightarrow>
     (\<forall>(fpath, path) \<in> site. HasPrefix fpath ''/'' \<and> (\<forall>path'. (fpath, path') \<in> site \<longrightarrow> path' = path) \<and>
        (\<forall>s h1 h2. fs path = Inr s \<and> goodHash h1 \<and> goodHash h2 \<and> R h1 (sf_data s) = sf_data s \<longrightarrow> R h2 (sf_data s) = sf_data s))"

lemma siteOK_D:
  assumes "siteOK fs R site" "(fpath, path) \<in> site"
  shows "HasPrefix fpath ''/''" "(fpath, path') \<in> site \<Longrightarrow> path' = path"
    "fs path = Inr s \<Longrightarrow> goodHash h1 \<Longrightarrow> goodHash h2 \<Longrightarrow> R h1 (sf_data s) = sf_data s \<Longrightarrow> R h2 (sf_data s) = sf_data s"
  using assms unfolding siteOK_def by blast+

lemma entry_read:
  assumes inv: "cacheInv fs gz R site m" and ok: "siteOK fs R site" and f: "(fpath, path) \<in> site" "fs path = Inr s"
    and g: "goodHash hash" and m: "m (entryTag z hash ch @ fpath) = Some c"
  shows "c = encoded gz z (R hash (sf_data s))"
proof -
  obtain fpath' path' s' where e: "(fpath', path') \<in> site" "fs path' = Inr s'"
    and cases: "(\<exists>z' hash'. goodHash hash' \<and>
            entryTag z hash ch @ fpath = entryTag z' hash' (R hash' (sf_data s') \<noteq> sf_data s') @ fpath' \<and>
            c = encoded gz z' (R hash' (sf_data s'))) \<or> entryTag z hash ch @ fpath = ''gz:*'' @ fpath'"
    using inv m unfolding cacheInv_def entryOK_def by metis
  note hp = siteOK_D(1) [OF ok f(1)] siteOK_D(1) [OF ok e(1)]
  from cases show ?thesis
  proof
    assume "\<exists>z' hash'. goodHash hash' \<and>
            entryTag z hash ch @ fpath = entryTag z' hash' (R hash' (sf_data s') \<noteq> sf_data s') @ fpath' \<and>
            c = encoded gz z' (R hash' (sf_data s'))"
    then obtain z' hash' where k: "goodHash hash'"
      "entryTag z hash ch @ fpath = entryTag z' hash' (R hash' (sf_data s') \<noteq> sf_data s') @ fpath'"
      "c = encoded gz z' (R hash' (sf_data s'))" by blast
    from key_split [OF k(2) hp tag_slash [OF g] tag_slash [OF k(1)]]
    have t: "entryTag z hash ch = entryTag z' hash' (R hash' (sf_data s') \<noteq> sf_data s')" "fpath = fpath'" by simp_all
    with siteOK_D(2) [OF ok f(1)] e(1) have "path' = path" by blast
    with e(2) f(2) have s: "s' = s" by simp
    from tag_inj [OF t(1) g k(1)] have z: "z = z'" "ch = (R hash' (sf_data s) \<noteq> sf_data s)" "ch \<longrightarrow> hash = hash'"
      using s by simp_all
    have "R hash (sf_data s) = R hash' (sf_data s)"
      using z siteOK_D(3) [OF ok f(1,2) k(1) g] by (cases ch) auto
    with k(3) s z show ?thesis by simp
  next
    assume "entryTag z hash ch @ fpath = ''gz:*'' @ fpath'"
    from key_split [OF this hp tag_slash [OF g]] have "entryTag z hash ch = ''gz:*''" by simp
    with tag_star [OF g] show ?thesis by blast
  qed
qed

lemma star_read:
  assumes inv: "cacheInv fs gz R site m" and ok: "siteOK fs R site" and f: "(fpath, path) \<in> site" "fs path = Inr s"
    and m: "m (''gz:*'' @ fpath) = Some c"
  shows "c = gz (sf_data s)"
proof -
  obtain fpath' path' s' where e: "(fpath', path') \<in> site" "fs path' = Inr s'"
    and cases: "(\<exists>z' hash'. goodHash hash' \<and>
            ''gz:*'' @ fpath = entryTag z' hash' (R hash' (sf_data s') \<noteq> sf_data s') @ fpath') \<or>
        (''gz:*'' @ fpath = ''gz:*'' @ fpath' \<and> c = gz (sf_data s'))"
    using inv m unfolding cacheInv_def entryOK_def by metis
  note hp = siteOK_D(1) [OF ok f(1)] siteOK_D(1) [OF ok e(1)]
  from cases show ?thesis
  proof
    assume "\<exists>z' hash'. goodHash hash' \<and> ''gz:*'' @ fpath = entryTag z' hash' (R hash' (sf_data s') \<noteq> sf_data s') @ fpath'"
    then obtain z' hash' where k: "goodHash hash'"
      "''gz:*'' @ fpath = entryTag z' hash' (R hash' (sf_data s') \<noteq> sf_data s') @ fpath'" by blast
    from key_split [OF k(2) hp _ tag_slash [OF k(1)]] have "''gz:*'' = entryTag z' hash' (R hash' (sf_data s') \<noteq> sf_data s')" by simp
    with tag_star [OF k(1)] show ?thesis by metis
  next
    assume a: "''gz:*'' @ fpath = ''gz:*'' @ fpath' \<and> c = gz (sf_data s')"
    then have "fpath = fpath'" by simp
    with siteOK_D(2) [OF ok f(1)] e have "path' = path" by blast
    with a e(2) f(2) show ?thesis by simp
  qed
qed

section \<open>Every step keeps the invariant\<close>

lemma storeContent_frame [simp]:
  "sh_fs (storeContent se k c h) = sh_fs h" "sh_gzip (storeContent se k c h) = sh_gzip h"
  "ReplacerFunc (storeContent se k c h) = ReplacerFunc h" "extcache (storeContent se k c h) = extcache h"
  by (simp_all add: storeContent_def setContent_def Let_def)

lemma storeContent_inv:
  assumes "cacheInv fs (se_gz se) R site (altcontent h)" "(fpath, path) \<in> site" "fs path = Inr s" "sf_err s = None" "goodHash hash"
  shows "cacheInv fs (se_gz se) R site (altcontent (storeContent se
           (if R hash (sf_data s) \<noteq> sf_data s then hash @ fpath else fpath) (R hash (sf_data s)) h))"
proof -
  have e: "entryOK fs (se_gz se) R site (entryTag z hash (R hash (sf_data s) \<noteq> sf_data s) @ fpath)
      (encoded (se_gz se) z (R hash (sf_data s)))" for z
    unfolding entryOK_def using assms(2-5) by blast
  let ?k = "if R hash (sf_data s) \<noteq> sf_data s then hash @ fpath else fpath"
  have k: "entryTag False hash (R hash (sf_data s) \<noteq> sf_data s) @ fpath = ?k"
    "entryTag True hash (R hash (sf_data s) \<noteq> sf_data s) @ fpath = ''gz:'' @ ?k"
    by (simp_all add: entryTag_def)
  have e1: "entryOK fs (se_gz se) R site ?k (R hash (sf_data s))"
    using e [of False] unfolding k(1) by (simp add: encoded_def)
  have e2: "entryOK fs (se_gz se) R site (''gz:'' @ ?k) (se_gz se (R hash (sf_data s)))"
    using e [of True] unfolding k(2) by (simp add: encoded_def)
  show ?thesis
    using cacheInv_upd [OF cacheInv_upd [OF assms(1) e1] e2] cacheInv_upd [OF assms(1) e1]
    by (simp only: storeContent_def setContent_def Let_def) simp
qed

lemma storeContent_read:
  assumes "sh_gzip h"
  shows "getContent (storeContent se k c h) (''gz:'' @ k) = Some (se_gz se c)"
  using assms by (simp add: storeContent_def setContent_def getContent_def Let_def)

lemma cached_read:
  assumes "cacheInv fs gz R site (altcontent h)" "siteOK fs R site" "(fpath, path) \<in> site" "fs path = Inr s"
    "goodHash hash" "cachedContent h z hash fpath = Some c"
  shows "c = encoded gz z (R hash (sf_data s))"
proof -
  have "\<exists>ch. altcontent h (entryTag z hash ch @ fpath) = Some c"
  proof (cases "altcontent h ((if z then ''gz:'' else []) @ fpath)")
    case None
    with assms(5,6) show ?thesis
      by (intro exI [of _ True]) (simp add: cachedContent_def getContent_def entryTag_def goodHash_def)
  next
    case (Some d)
    with assms(5,6) show ?thesis
      by (intro exI [of _ False]) (simp add: cachedContent_def getContent_def entryTag_def goodHash_def)
  qed
  with entry_read [OF assms(1-5)] show ?thesis by blast
qed

lemma serveReplaced_ok:
  assumes "cacheInv (sh_fs h) (se_gz se) R site (altcontent h)" "siteOK (sh_fs h) R site" "(fpath, path) \<in> site"
    "sh_fs h path = Inr s" "sf_err s = None" "hash \<noteq> [] \<longrightarrow> goodHash hash \<and> rep = R hash" "z \<longrightarrow> sh_gzip h"
  shows "\<exists>h'. serveReplaced se h fpath path z hash rep ctx =
     (h', serveContent se (z \<and> hash \<noteq> []) (encoded (se_gz se) (z \<and> hash \<noteq> []) (rep (sf_data s))) ctx, None)"
proof (cases "cachedContent h z hash fpath")
  case None
  have r: "replaceContent h path rep = Inr (rep (sf_data s), rep (sf_data s) \<noteq> sf_data s)"
    using assms(4,5) by (simp add: replaceContent_def Let_def)
  show ?thesis
    using None r storeContent_read [of h se _ "rep (sf_data s)"] assms(7)
    by (cases "hash = []"; cases z) (simp_all add: serveReplaced_def Let_def encoded_def)
next
  case (Some c)
  then have h: "hash \<noteq> []" by (auto simp: cachedContent_def)
  with assms(6) have g: "goodHash hash" "rep = R hash" by simp_all
  from cached_read [OF assms(1-4) g(1) Some] Some g(2) h show ?thesis by (simp add: serveReplaced_def)
qed

lemma serveReplaced_inv:
  assumes "cacheInv (sh_fs h) (se_gz se) R site (altcontent h)" "(fpath, path) \<in> site"
    "hash \<noteq> [] \<longrightarrow> goodHash hash \<and> rep = R hash"
  shows "cacheInv (sh_fs h) (se_gz se) R site (altcontent (fst (serveReplaced se h fpath path z hash rep ctx)))"
proof (cases "cachedContent h z hash fpath = None \<and> hash \<noteq> [] \<and> (\<exists>s. sh_fs h path = Inr s \<and> sf_err s = None)")
  case True
  then obtain s where s: "sh_fs h path = Inr s" "sf_err s = None" by blast
  have r: "replaceContent h path rep = Inr (rep (sf_data s), rep (sf_data s) \<noteq> sf_data s)"
    using s by (simp add: replaceContent_def Let_def)
  let ?k = "if rep (sf_data s) \<noteq> sf_data s then hash @ fpath else fpath"
  have "fst (serveReplaced se h fpath path z hash rep ctx) = storeContent se ?k (rep (sf_data s)) h"
    using True r by (simp add: serveReplaced_def Let_def split: option.splits)
  with storeContent_inv [OF assms(1,2) s] assms(3) True show ?thesis by simp
next
  case False
  have "fst (serveReplaced se h fpath path z hash rep ctx) = h"
    using False by (auto simp: serveReplaced_def replaceContent_def Let_def split: option.splits sum.splits)
  with assms(1) show ?thesis by simp
qed

lemma staticRequest_frame:
  "sh_fs (fst (staticRequest se fpath path h ctx)) = sh_fs h" "sh_gzip (fst (staticRequest se fpath path h ctx)) = sh_gzip h"
  "ReplacerFunc (fst (staticRequest se fpath path h ctx)) = ReplacerFunc h"
  "extcache (fst (staticRequest se fpath path h ctx)) = extcache h"
  by (auto simp: staticRequest_def serveReplaced_def Let_def split: option.splits sum.splits prod.splits)

lemma staticRequest_inv:
  assumes "cacheInv (sh_fs h) (se_gz se) R site (altcontent h)" "(fpath, path) \<in> site" "\<forall>f. ReplacerFunc h = Some f \<longrightarrow> hashedBy R f"
  shows "cacheInv (sh_fs h) (se_gz se) R site (altcontent (fst (staticRequest se fpath path h ctx)))"
proof -
  have "hash \<noteq> [] \<longrightarrow> goodHash hash \<and> rep = R hash"
    if "ReplacerFunc h = Some f" "f c = (c', Inr (hash, Some rep))" for f c c' hash rep
    using assms(3) that unfolding hashedBy_def by blast
  with assms(1) serveReplaced_inv [OF assms(1,2)] show ?thesis
    by (auto simp: staticRequest_def Let_def split: option.splits sum.splits prod.splits)
qed

lemma gzipJob_inv:
  assumes "cacheInv (sh_fs h) (se_gz se) R site (altcontent h)" "(fpath, path) \<in> site"
  shows "cacheInv (sh_fs h) (se_gz se) R site (altcontent (gzipJob se (''gz:*'' @ fpath) path h))"
proof (cases "sh_fs h path")
  case (Inr s)
  then have "entryOK (sh_fs h) (se_gz se) R site (''gz:*'' @ fpath) (se_gz se (sf_data s))"
    unfolding entryOK_def using assms(2) by blast
  with Inr assms(1) show ?thesis by (simp add: gzipJob_def setContent_def cacheInv_upd)
qed (simp add: gzipJob_def assms)

text \<open>
  Without the last two assumptions on the site the cache shows: a file that one replacer leaves as it is is served
  unchanged to all later ones, and the hash \<open>*\<close> reads the entry of the compressed original.
\<close>

lemma unchanged_sticks:
  assumes "hash \<noteq> []" "hash' \<noteq> []" "cachedContent h False hash fpath = None"
    "sh_fs h path = Inr s" "sf_err s = None" "rep (sf_data s) = sf_data s"
  shows "snd (serveReplaced se (fst (serveReplaced se h fpath path False hash rep ctx)) fpath path False hash' rep' ctx') =
    (serveContent se False (sf_data s) ctx', None)"
proof -
  have "replaceContent h path rep = Inr (sf_data s, False)" using assms(4-6) by (simp add: replaceContent_def Let_def)
  then have "fst (serveReplaced se h fpath path False hash rep ctx) = storeContent se fpath (sf_data s) h"
    using assms(1,3) by (simp add: serveReplaced_def Let_def)
  moreover have "cachedContent (storeContent se fpath (sf_data s) h) False hash' fpath = Some (sf_data s)"
  proof -
    have "''gz:'' @ fpath \<noteq> fpath" by (metis append_Nil append_same_eq list.distinct(1))
    then have "altcontent (storeContent se fpath (sf_data s) h) fpath = Some (sf_data s)"
      by (simp add: storeContent_def setContent_def Let_def)
    with assms(2) show ?thesis by (simp add: cachedContent_def getContent_def)
  qed
  ultimately show ?thesis by (simp add: serveReplaced_def)
qed

lemma star_collides:
  assumes "sh_fs h path = Inr s" "altcontent h (''gz:'' @ fpath) = None"
  shows "snd (serveReplaced se (gzipJob se (''gz:*'' @ fpath) path h) fpath path True ''*'' rep ctx) =
    (serveContent se True (se_gz se (sf_data s)) ctx, None)"
proof -
  have "''gz:*'' @ fpath \<noteq> ''gz:'' @ fpath" by simp
  with assms have "cachedContent (gzipJob se (''gz:*'' @ fpath) path h) True ''*'' fpath = Some (se_gz se (sf_data s))"
    by (simp add: cachedContent_def getContent_def gzipJob_def setContent_def)
  then show ?thesis by (simp add: serveReplaced_def)
qed

section \<open>Reachable handlers\<close>

inductive staticReach ::
  "'r staticEnv \<Rightarrow> (bytes \<times> bytes) set \<Rightarrow> (bytes \<rightharpoonup> bytes) \<Rightarrow> 'r staticHandler \<Rightarrow> 'r staticHandler \<Rightarrow> bool"
  for se site jobs h0 where
  start: "staticReach se site jobs h0 h0"
| request: "staticReach se site jobs h0 h \<Longrightarrow> (fpath, path) \<in> site \<Longrightarrow>
     staticReach se site jobs h0 (fst (staticRequest se fpath path h ctx))"
| job: "staticReach se site jobs h0 h \<Longrightarrow> jobs key = Some path \<Longrightarrow> staticReach se site jobs h0 (gzipJob se key path h)"

lemma staticReach_inv:
  assumes "staticReach se site jobs h0 h" "siteRoutes h0 site jobs" "\<forall>f. ReplacerFunc h0 = Some f \<longrightarrow> hashedBy R f"
  shows "cacheInv (sh_fs h) (se_gz se) R site (altcontent h) \<and> sh_fs h = sh_fs h0 \<and> sh_gzip h = sh_gzip h0 \<and>
    ReplacerFunc h = ReplacerFunc h0 \<and> extcache h = extcache h0"
  using assms
proof (induction rule: staticReach.induct)
  case start
  then show ?case by (simp add: siteRoutes_def cacheInv_def)
next
  case (request h fpath path ctx)
  note I = request.IH [OF request.prems, THEN conjunct1] request.IH [OF request.prems, THEN conjunct2]
  then have "cacheInv (sh_fs h) (se_gz se) R site (altcontent (fst (staticRequest se fpath path h ctx)))"
    using staticRequest_inv request by metis
  with I show ?case by (simp add: staticRequest_frame)
next
  case (job h key path)
  then obtain fpath where k: "key = ''gz:*'' @ fpath" "(fpath, path) \<in> site" unfolding siteRoutes_def by blast
  have fr: "sh_fs (gzipJob se key path h) = sh_fs h" "sh_gzip (gzipJob se key path h) = sh_gzip h"
    "ReplacerFunc (gzipJob se key path h) = ReplacerFunc h" "extcache (gzipJob se key path h) = extcache h"
    by (simp_all add: gzipJob_def setContent_def split: sum.splits)
  note I = job.IH [OF job.prems, THEN conjunct1] job.IH [OF job.prems, THEN conjunct2]
  from gzipJob_inv [OF I(1) k(2)] I fr k(1) show ?case by simp
qed

section \<open>Properties\<close>

text \<open>
  C34. The cache of a static site is invisible: after any requests for its files and any compression jobs, a request whose
  replacer answers with a text gets the file as this replacer makes it, compressed when the client
  accepts it and the replacer names a hash, just as if nothing were cached. Needed are replacers whose hash
  determines them and holds no \<open>/\<close>, \<open>:\<close> or \<open>*\<close>, one file for each path, and that a file which one replacer
  changes is changed by all.
\<close>

theorem static_cache_transparent:
  assumes emb: "StaticEmbedded rg base fs entries opts a = (a', h0, jobs, StaticOk)"
    and site: "siteOK fs R (embeddedRoutes rg (staticBase base) entries h0)"
    and f: "ReplacerFunc h0 = Some f" "hashedBy R f"
    and reach: "staticReach se (embeddedRoutes rg (staticBase base) entries h0) jobs h0 h"
    and fl: "(fpath, path) \<in> embeddedRoutes rg (staticBase base) entries h0" "fs path = Inr s" "sf_err s = None"
    and rep: "f (staticHeaders se h0 fpath ctx) = (ctx', Inr (hash, Some rep))"
  shows "\<exists>h'. staticRequest se fpath path h ctx =
    (h', serveContent se (usesGzip se h0 ctx \<and> hash \<noteq> [])
       (encoded (se_gz se) (usesGzip se h0 ctx \<and> hash \<noteq> []) (rep (sf_data s))) ctx', None)"
proof -
  note emb = embedded_site [OF emb]
  have "\<forall>g. ReplacerFunc h0 = Some g \<longrightarrow> hashedBy R g" using f by simp
  note J = staticReach_inv [OF reach emb(1) this]
  from J [THEN conjunct1] J [THEN conjunct2] emb(2) f(1) have I: "cacheInv (sh_fs h) (se_gz se) R (embeddedRoutes rg (staticBase base) entries h0) (altcontent h)"
    "sh_fs h = fs" "sh_gzip h = sh_gzip h0" "ReplacerFunc h = Some f" "extcache h = extcache h0"
    by auto
  have hd: "staticHeaders se h fpath ctx = staticHeaders se h0 fpath ctx" "usesGzip se h = usesGzip se h0"
    using I(3,5) by (simp_all add: staticHeaders_def usesGzip_def fun_eq_iff)
  have rq: "usesGzip se h0 (staticHeaders se h0 fpath ctx) = usesGzip se h0 ctx"
    by (simp add: usesGzip_def staticHeaders_def headerSet_def Let_def)
  have g: "hash \<noteq> [] \<longrightarrow> goodHash hash \<and> rep = R hash" using f(2) rep unfolding hashedBy_def by blast
  have z: "usesGzip se h0 ctx \<longrightarrow> sh_gzip h" using I(3) by (simp add: usesGzip_def)
  obtain h' where "serveReplaced se h fpath path (usesGzip se h0 ctx) hash rep ctx' =
     (h', serveContent se (usesGzip se h0 ctx \<and> hash \<noteq> [])
       (encoded (se_gz se) (usesGzip se h0 ctx \<and> hash \<noteq> []) (rep (sf_data s))) ctx', None)"
    using serveReplaced_ok [OF I(1) _ fl(1) _ fl(3) g z] site fl(2) I(2) by blast
  then show ?thesis using I(4) rep by (auto simp: staticRequest_def Let_def hd rq)
qed

text \<open>A site with one script; the replacer writes a number sign and the hash, which names the scheme of the request, for every percent sign.\<close>

definition fillHash :: "bytes \<Rightarrow> bytes \<Rightarrow> bytes" where
  "fillHash hash = concat \<circ> map (\<lambda>c. if c = CHR ''%'' then CHR ''#'' # hash else [c])"

definition schemeReplacer :: "assocResp StaticContentReplacer" where
  "schemeReplacer ctx = (ctx, Inr (let hash = (if rq_TLS (c_Request ctx) then ''s'' else ''p'') in (hash, Some (fillHash hash))))"

definition demoFS :: staticFS where
  "demoFS name = (if name = ''app.js'' then Inr \<lparr>sf_data = ''v=%'', sf_err = None\<rparr> else Inl (plainErr ''no file''))"

definition demoRegistrar :: "assocResp registrar" where
  "demoRegistrar = \<lparr>rg_rx = noMatch, rg_sort = insertionSort, rg_mime = (\<lambda>e. if e = ''.js'' then ''text/javascript'' else []),
     rg_joinPath = (\<lambda>b f. Inr (b @ f)), rg_closure = (\<lambda>_ _ c. (c, None))\<rparr>"

definition demoStatic :: "assocResp staticEnv" where
  "demoStatic = \<lparr>se_env = demoEnv, se_opts = demoOptions, se_gz = rev, se_acceptsEncoding = (\<lambda>rq e. True),
     se_setBodyStream = (\<lambda>c r. r\<lparr>ar_body := c\<rparr>)\<rparr>"

definition demoSite :: "assocResp staticHandler" where
  "demoSite = (newStatic demoFS [StaticContentReplacer (Some schemeReplacer), StaticGzipContent])
     \<lparr>extcache := [''/app.js'' \<mapsto> ''text/javascript'']\<rparr>"

abbreviation demoEntries :: "(bytes \<times> bool \<times> goErr option) list" where
  "demoEntries \<equiv> [(''.'', True, None), (''app.js'', False, None)]"

lemma demo_embedded:
  "\<exists>a'. StaticEmbedded demoRegistrar ''/'' demoFS demoEntries [StaticContentReplacer (Some schemeReplacer), StaticGzipContent]
     \<lparr>app_defaultMux = newMux assocOps, app_routers = (\<lambda>_. newMux assocOps), app_switch = None\<rparr> =
     (a', demoSite, [''gz:*/app.js'' \<mapsto> ''app.js''], StaticOk)"
proof -
  have r: "staticRoute ''/app.js''" by (simp add: staticRoute_def HasPrefix_slash ascii_def)
  have n: "methodTable noMatch (newMux assocOps) ''GET'' ''/app.js'' = None"
    by (simp add: methodTable_def newMux_def MethodIndexOf_def)
  obtain m' where H: "Handle noMatch insertionSort ''GET'' ''/app.js'' (Some (\<lambda>c. (c, None))) (newMux assocOps) = (m', HandleOk)"
    using Handle_new [OF insertion.node_sort_axioms static_newMux [of assocOps] _ r n] by blast
  have "filepathExt ''/app.js'' = ''.js''" by code_simp
  moreover have "staticBase ''/'' = ''/''" by code_simp
  ultimately show ?thesis
    using H by (simp add: StaticEmbedded_def newStatic_def staticPath_def staticGet_def Let_def appGet_def appHandle_def onDefault_def
        demoRegistrar_def registerSPA_def demoSite_def)
qed

lemma demo_routes: "embeddedRoutes demoRegistrar (staticBase ''/'') demoEntries demoSite = {(''/app.js'', ''app.js'')}"
proof -
  have "staticBase ''/'' = ''/''" by code_simp
  then show ?thesis by (auto simp: embeddedRoutes_def demoSite_def newStatic_def staticPath_def demoRegistrar_def)
qed

lemma demo_replacer: "hashedBy fillHash schemeReplacer"
  by (auto simp: hashedBy_def schemeReplacer_def goodHash_def Let_def)

lemma fillHash_script: "fillHash hash ''v=%'' = ''v=#'' @ hash"
  by (simp add: fillHash_def)

theorem static_cache_transparent_witness:
  "\<exists>h'. staticRequest demoStatic ''/app.js'' ''app.js''
       (fst (staticRequest demoStatic ''/app.js'' ''app.js'' demoSite (acquireCtx [] (demoRaw\<lparr>fc_Request := demoReq\<lparr>rq_TLS := True\<rparr>\<rparr>))))
       (acquireCtx [] (demoRaw\<lparr>fc_Request := demoReq\<lparr>rq_TLS := False\<rparr>\<rparr>)) =
     (h', serveContent demoStatic True (rev ''v=#p'')
        (staticHeaders demoStatic demoSite ''/app.js'' (acquireCtx [] (demoRaw\<lparr>fc_Request := demoReq\<lparr>rq_TLS := False\<rparr>\<rparr>))), None)"
proof -
  let ?c = "acquireCtx [] (demoRaw\<lparr>fc_Request := demoReq\<lparr>rq_TLS := False\<rparr>\<rparr>)"
  let ?h = "fst (staticRequest demoStatic ''/app.js'' ''app.js'' demoSite (acquireCtx [] (demoRaw\<lparr>fc_Request := demoReq\<lparr>rq_TLS := True\<rparr>\<rparr>)))"
  let ?site = "embeddedRoutes demoRegistrar (staticBase ''/'') demoEntries demoSite"
  have script: "demoFS ''app.js'' = Inr \<lparr>sf_data = ''v=%'', sf_err = None\<rparr>" by (simp add: demoFS_def)
  have ok: "siteOK demoFS fillHash ?site"
    unfolding siteOK_def demo_routes by (auto simp: script HasPrefix_def fillHash_script goodHash_def)
  have f: "ReplacerFunc demoSite = Some schemeReplacer" by (simp add: demoSite_def newStatic_def)
  have m: "(''/app.js'', ''app.js'') \<in> ?site" by (simp add: demo_routes)
  have "staticReach demoStatic ?site [''gz:*/app.js'' \<mapsto> ''app.js''] demoSite ?h"
    using staticReach.request [OF staticReach.start m] .
  moreover have "c_Request (staticHeaders demoStatic demoSite ''/app.js'' ?c) = c_Request ?c" for c
    by (simp add: staticHeaders_def headerSet_def Let_def)
  then have "schemeReplacer (staticHeaders demoStatic demoSite ''/app.js'' ?c) =
      (staticHeaders demoStatic demoSite ''/app.js'' ?c, Inr (''p'', Some (fillHash ''p'')))"
    by (simp add: schemeReplacer_def acquireCtx_def Let_def)
  moreover have "usesGzip demoStatic demoSite ?c" by (simp add: usesGzip_def demoStatic_def demoSite_def newStatic_def)
  moreover have "se_gz demoStatic = rev" by (simp add: demoStatic_def)
  ultimately show ?thesis
    using demo_embedded static_cache_transparent [OF _ ok f demo_replacer _ m script] by (fastforce simp: encoded_def fillHash_script)
qed

end
