(* ===== verification/Cookies.thy ===== *)
theory Cookies
  imports Error_Handler
begin

text \<open>
  Cookies: \<open>src/cookie.go\<close>. A cookie object of the server library is of type \<open>'k\<close> with the calls of \<open>cookieOps\<close>; what
  the library documents of them is the locale \<open>cookie_store\<close>: each attribute holds what was set last, and only
  \<open>SetSameSite\<close> may also switch \<open>Secure\<close> on. \<open>SetPath\<close> stores the path in the library's normal form \<open>normPath\<close>.
  The request's cookies are the list \<open>cookies\<close>; \<open>setCookie\<close> puts a cookie on the response.
\<close>

datatype SameSite = SSDisabled | SSDefault | SSLax | SSStrict | SSNone

record 'k cookieOps =
  k_Acquire :: 'k
  k_SetKey :: "bytes \<Rightarrow> 'k \<Rightarrow> 'k"
  k_Key :: "'k \<Rightarrow> bytes"
  k_SetValue :: "bytes \<Rightarrow> 'k \<Rightarrow> 'k"
  k_Value :: "'k \<Rightarrow> bytes"
  k_SetExpire :: "int \<Rightarrow> 'k \<Rightarrow> 'k"
  k_Expire :: "'k \<Rightarrow> int"
  k_SetMaxAge :: "int \<Rightarrow> 'k \<Rightarrow> 'k"
  k_MaxAge :: "'k \<Rightarrow> int"
  k_SetDomain :: "bytes \<Rightarrow> 'k \<Rightarrow> 'k"
  k_Domain :: "'k \<Rightarrow> bytes"
  k_SetPath :: "bytes \<Rightarrow> 'k \<Rightarrow> 'k"
  k_Path :: "'k \<Rightarrow> bytes"
  k_SetHTTPOnly :: "bool \<Rightarrow> 'k \<Rightarrow> 'k"
  k_HTTPOnly :: "'k \<Rightarrow> bool"
  k_SetSecure :: "bool \<Rightarrow> 'k \<Rightarrow> 'k"
  k_Secure :: "'k \<Rightarrow> bool"
  k_SetSameSite :: "SameSite \<Rightarrow> 'k \<Rightarrow> 'k"
  k_SameSite :: "'k \<Rightarrow> SameSite"

section \<open>Options\<close>

text \<open>\<open>secondsInt\<close> converts a duration to whole seconds through floating point.\<close>

datatype CookieOption =
    CookieSameSite SameSite
  | CookiePath bytes
  | CookieDomain bytes
  | CookieMaxAge int
  | CookieExpires int
  | CookieHTTPOnly bool
  | CookieSecure bool
  | CookieDefaultSecurity

fun applyCookieOption :: "'k cookieOps \<Rightarrow> (int \<Rightarrow> int) \<Rightarrow> CookieOption \<Rightarrow> 'k \<Rightarrow> 'k" where
  "applyCookieOption ko secondsInt (CookieSameSite o') c = k_SetSameSite ko o' c"
| "applyCookieOption ko secondsInt (CookiePath o') c = k_SetPath ko o' c"
| "applyCookieOption ko secondsInt (CookieDomain o') c = k_SetDomain ko o' c"
| "applyCookieOption ko secondsInt (CookieMaxAge o') c = k_SetMaxAge ko (secondsInt o') c"
| "applyCookieOption ko secondsInt (CookieExpires o') c = k_SetExpire ko o' c"
| "applyCookieOption ko secondsInt (CookieHTTPOnly o') c = k_SetHTTPOnly ko o' c"
| "applyCookieOption ko secondsInt (CookieSecure o') c = k_SetSecure ko o' c"
| "applyCookieOption ko secondsInt CookieDefaultSecurity c = c"

section \<open>Reading\<close>

definition cookieGet :: "(bytes \<times> bytes) list \<Rightarrow> bytes \<Rightarrow> bytes" where
  "cookieGet cookies name = (case map_of cookies name of Some v \<Rightarrow> v | None \<Rightarrow> [])"

text \<open>The iterators stop when the caller asks them to.\<close>

fun yieldLoop :: "('a \<Rightarrow> 's \<Rightarrow> bool \<times> 's) \<Rightarrow> 'a list \<Rightarrow> 's \<Rightarrow> 's" where
  "yieldLoop yield [] s = s"
| "yieldLoop yield (x # xs) s = (case yield x s of (True, s) \<Rightarrow> yieldLoop yield xs s | (False, s) \<Rightarrow> s)"

definition cookieKeys :: "(bytes \<times> bytes) list \<Rightarrow> (bytes \<Rightarrow> 's \<Rightarrow> bool \<times> 's) \<Rightarrow> 's \<Rightarrow> 's" where
  "cookieKeys cookies yield = yieldLoop (\<lambda>(k, v). yield k) cookies"

definition cookieAll :: "(bytes \<times> bytes) list \<Rightarrow> (bytes \<times> bytes \<Rightarrow> 's \<Rightarrow> bool \<times> 's) \<Rightarrow> 's \<Rightarrow> 's" where
  "cookieAll cookies yield = yieldLoop yield cookies"

section \<open>Writing\<close>

definition securePrefix :: "bytes \<Rightarrow> bytes" where
  "securePrefix basePath = (if basePath = [] then ''__Host-'' else ''__Secure-'')"

definition enforceSecurity :: "'k cookieOps \<Rightarrow> bytes \<Rightarrow> bool \<Rightarrow> 'k \<Rightarrow> 'k" where
  "enforceSecurity ko basePath secure c =
     (let c = k_SetPath ko basePath (k_SetDomain ko [] (k_SetHTTPOnly ko True c)) in
      if secure then k_SetSecure ko True c else c)"

definition writeCookie ::
  "'k cookieOps \<Rightarrow> (int \<Rightarrow> int) \<Rightarrow> bool \<Rightarrow> bool \<Rightarrow> bytes \<Rightarrow> bytes \<Rightarrow> ('k \<Rightarrow> 'k) \<Rightarrow> CookieOption list \<Rightarrow> 'k" where
  "writeCookie ko secondsInt isTLS isDevelopment basePath name setup opts =
     (let defaultSecurity = (\<exists>opt \<in> set opts. opt = CookieDefaultSecurity);
          secure = (defaultSecurity \<and> (isTLS \<or> \<not> isDevelopment));
          name = (if secure then securePrefix basePath @ name else name);
          cookie = setup (k_SetKey ko name (k_Acquire ko));
          cookie = (if defaultSecurity then k_SetSameSite ko SSLax cookie else cookie);
          cookie = foldl (\<lambda>c opt. applyCookieOption ko secondsInt opt c) cookie opts
      in if defaultSecurity then enforceSecurity ko basePath secure cookie else cookie)"

text \<open>\<open>deleteTime\<close> is the library's expiry date that deletes a cookie.\<close>

definition cookieSet ::
  "'k cookieOps \<Rightarrow> (int \<Rightarrow> int) \<Rightarrow> ('k \<Rightarrow> 'r \<Rightarrow> 'r) \<Rightarrow> bool \<Rightarrow> bytes \<Rightarrow> ProxyOptions \<Rightarrow> bytes \<Rightarrow> bytes \<Rightarrow> CookieOption list \<Rightarrow>
   'r Ctx \<Rightarrow> 'r Ctx" where
  "cookieSet ko secondsInt setCookie isDevelopment basePath po name val opts c =
     onResponse (setCookie (writeCookie ko secondsInt (IsTLS po c) isDevelopment basePath name (k_SetValue ko val) opts)) c"

definition cookieClear ::
  "'k cookieOps \<Rightarrow> (int \<Rightarrow> int) \<Rightarrow> int \<Rightarrow> ('k \<Rightarrow> 'r \<Rightarrow> 'r) \<Rightarrow> bool \<Rightarrow> bytes \<Rightarrow> ProxyOptions \<Rightarrow> bytes \<Rightarrow> CookieOption list \<Rightarrow>
   'r Ctx \<Rightarrow> 'r Ctx" where
  "cookieClear ko secondsInt deleteTime setCookie isDevelopment basePath po name opts c =
     onResponse (setCookie (writeCookie ko secondsInt (IsTLS po c) isDevelopment basePath name (k_SetExpire ko deleteTime) opts)) c"

section \<open>The library's cookie\<close>

locale cookie_store =
  fixes ko :: "'k cookieOps" and normPath :: "bytes \<Rightarrow> bytes"
  assumes key_key: "k_Key ko (k_SetKey ko n c) = n"
    and key_other: "k_Key ko (k_SetValue ko v c) = k_Key ko c" "k_Key ko (k_SetExpire ko t c) = k_Key ko c"
      "k_Key ko (k_SetMaxAge ko i c) = k_Key ko c" "k_Key ko (k_SetDomain ko d c) = k_Key ko c"
      "k_Key ko (k_SetPath ko p c) = k_Key ko c" "k_Key ko (k_SetHTTPOnly ko b c) = k_Key ko c"
      "k_Key ko (k_SetSecure ko b c) = k_Key ko c" "k_Key ko (k_SetSameSite ko s c) = k_Key ko c"
    and value_value: "k_Value ko (k_SetValue ko v c) = v"
    and value_other: "k_Value ko (k_SetMaxAge ko i c) = k_Value ko c" "k_Value ko (k_SetDomain ko d c) = k_Value ko c"
      "k_Value ko (k_SetPath ko p c) = k_Value ko c" "k_Value ko (k_SetHTTPOnly ko b c) = k_Value ko c"
      "k_Value ko (k_SetSecure ko b c) = k_Value ko c" "k_Value ko (k_SetSameSite ko s c) = k_Value ko c"
      "k_Value ko (k_SetExpire ko t c) = k_Value ko c"
    and http: "k_HTTPOnly ko (k_SetHTTPOnly ko b c) = b" "k_HTTPOnly ko (k_SetDomain ko d c) = k_HTTPOnly ko c"
      "k_HTTPOnly ko (k_SetPath ko p c) = k_HTTPOnly ko c" "k_HTTPOnly ko (k_SetSecure ko b c) = k_HTTPOnly ko c"
    and domain: "k_Domain ko (k_SetDomain ko d c) = d" "k_Domain ko (k_SetPath ko p c) = k_Domain ko c"
      "k_Domain ko (k_SetSecure ko b c) = k_Domain ko c"
    and path: "k_Path ko (k_SetPath ko p c) = normPath p" "k_Path ko (k_SetSecure ko b c) = k_Path ko c"
    and secure: "k_Secure ko (k_SetSecure ko b c) = b"
begin

lemmas laws = key_key key_other value_value value_other http domain path secure

lemma option_key [simp]: "k_Key ko (applyCookieOption ko si opt c) = k_Key ko c"
  by (cases opt) (simp_all add: key_other)

lemma options_key [simp]: "k_Key ko (foldl (\<lambda>c opt. applyCookieOption ko si opt c) c opts) = k_Key ko c"
  by (induction opts arbitrary: c) simp_all

lemma option_value [simp]: "k_Value ko (applyCookieOption ko si opt c) = k_Value ko c"
  by (cases opt) (simp_all add: value_other)

lemma options_value [simp]: "k_Value ko (foldl (\<lambda>c opt. applyCookieOption ko si opt c) c opts) = k_Value ko c"
  by (induction opts arbitrary: c) simp_all

lemma write_value:
  "k_Value ko (writeCookie ko si tls dev base name (k_SetValue ko v) opts) = v"
  by (simp add: writeCookie_def enforceSecurity_def Let_def laws)

lemma write_key:
  assumes "\<And>c. k_Key ko (setup c) = k_Key ko c"
  shows "k_Key ko (writeCookie ko si tls dev base name setup opts) =
    (if CookieDefaultSecurity \<in> set opts \<and> (tls \<or> \<not> dev) then securePrefix base @ name else name)"
  by (simp add: writeCookie_def enforceSecurity_def Let_def laws assms)

lemma write_enforced:
  assumes "CookieDefaultSecurity \<in> set opts"
  shows "k_HTTPOnly ko (writeCookie ko si tls dev base name setup opts)"
    "k_Domain ko (writeCookie ko si tls dev base name setup opts) = []"
    "k_Path ko (writeCookie ko si tls dev base name setup opts) = normPath base"
    "tls \<or> \<not> dev \<Longrightarrow> k_Secure ko (writeCookie ko si tls dev base name setup opts)"
  using assms by (auto simp: writeCookie_def enforceSecurity_def Let_def laws)

end

text \<open>A cookie as a record, with the library's rules: a path is never empty, and \<open>SameSite=None\<close> needs \<open>Secure\<close>.\<close>

record plainCookie =
  pc_Key :: bytes
  pc_Value :: bytes
  pc_Expire :: int
  pc_MaxAge :: int
  pc_Domain :: bytes
  pc_Path :: bytes
  pc_HTTPOnly :: bool
  pc_Secure :: bool
  pc_SameSite :: SameSite

definition slashPath :: "bytes \<Rightarrow> bytes" where
  "slashPath p = (if HasPrefix p ''/'' then p else slash # p)"

definition plainCookies :: "plainCookie cookieOps" where
  "plainCookies = \<lparr>k_Acquire = \<lparr>pc_Key = [], pc_Value = [], pc_Expire = 0, pc_MaxAge = 0, pc_Domain = [], pc_Path = [],
       pc_HTTPOnly = False, pc_Secure = False, pc_SameSite = SSDisabled\<rparr>,
     k_SetKey = (\<lambda>v c. c\<lparr>pc_Key := v\<rparr>), k_Key = pc_Key, k_SetValue = (\<lambda>v c. c\<lparr>pc_Value := v\<rparr>), k_Value = pc_Value,
     k_SetExpire = (\<lambda>v c. c\<lparr>pc_Expire := v\<rparr>), k_Expire = pc_Expire, k_SetMaxAge = (\<lambda>v c. c\<lparr>pc_MaxAge := v\<rparr>), k_MaxAge = pc_MaxAge,
     k_SetDomain = (\<lambda>v c. c\<lparr>pc_Domain := v\<rparr>), k_Domain = pc_Domain,
     k_SetPath = (\<lambda>v c. c\<lparr>pc_Path := slashPath v\<rparr>), k_Path = pc_Path,
     k_SetHTTPOnly = (\<lambda>v c. c\<lparr>pc_HTTPOnly := v\<rparr>), k_HTTPOnly = pc_HTTPOnly,
     k_SetSecure = (\<lambda>v c. c\<lparr>pc_Secure := v\<rparr>), k_Secure = pc_Secure,
     k_SetSameSite = (\<lambda>v c. c\<lparr>pc_SameSite := v, pc_Secure := (v = SSNone \<or> pc_Secure c)\<rparr>), k_SameSite = pc_SameSite\<rparr>"

interpretation plainCookies: cookie_store plainCookies slashPath
  by unfold_locales (simp_all add: plainCookies_def)

section \<open>Properties\<close>

text \<open>
  C32. Default security cannot be downgraded. A cookie set with \<open>CookieDefaultSecurity\<close> among its options, in any
  order and whatever the others are, is HTTP-only, has no domain and the base path as its path, and unless it is
  sent over plain HTTP in development it is secure and its name has the prefix \<open>__Host-\<close> (no base path)
  or \<open>__Secure-\<close>; its value is the one given.
\<close>

theorem cookie_default_security:
  assumes "cookie_store ko normPath" "CookieDefaultSecurity \<in> set opts"
  shows "\<exists>k. cookieSet ko secondsInt setCookie dev basePath po name val opts c = onResponse (setCookie k) c \<and>
     k_Value ko k = val \<and> k_HTTPOnly ko k \<and> k_Domain ko k = [] \<and> k_Path ko k = normPath basePath \<and>
     (if IsTLS po c \<or> \<not> dev
      then k_Secure ko k \<and> k_Key ko k = (if basePath = [] then ''__Host-'' else ''__Secure-'') @ name
      else k_Key ko k = name)"
  using assms cookie_store.write_value [OF assms(1)] cookie_store.write_enforced [OF assms]
    cookie_store.write_key [OF assms(1), of "k_SetValue ko val"] cookie_store.key_other(1) [OF assms(1)]
  by (intro exI [of _ "writeCookie ko secondsInt (IsTLS po c) dev basePath name (k_SetValue ko val) opts"])
    (simp add: cookieSet_def securePrefix_def)

theorem cookie_default_security_witness:
  "\<exists>k. c_Response (cookieSet plainCookies id Cons False [] defaultProxyOptions ''sid'' ''42''
       [CookieSecure False, CookieDefaultSecurity, CookieHTTPOnly False, CookieDomain ''evil'']
       (acquireCtx [] \<lparr>fc_Request = demoReq\<lparr>rq_TLS := True\<rparr>, fc_Response = [], fc_UserValues = Map.empty\<rparr>)) = [k] \<and>
     pc_Key k = ''__Host-sid'' \<and> pc_Secure k \<and> pc_HTTPOnly k \<and> pc_Domain k = [] \<and> pc_Path k = ''/''"
proof -
  let ?opts = "[CookieSecure False, CookieDefaultSecurity, CookieHTTPOnly False, CookieDomain ''evil'']"
  let ?c = "acquireCtx [] \<lparr>fc_Request = demoReq\<lparr>rq_TLS := True\<rparr>, fc_Response = [] :: plainCookie list, fc_UserValues = Map.empty\<rparr>"
  have m: "CookieDefaultSecurity \<in> set ?opts" by simp
  have f: "k_Key plainCookies = pc_Key" "k_Secure plainCookies = pc_Secure" "k_HTTPOnly plainCookies = pc_HTTPOnly"
    "k_Domain plainCookies = pc_Domain" "k_Path plainCookies = pc_Path" by (simp_all add: plainCookies_def)
  have r: "c_Response ?c = []" by (simp add: acquireCtx_def)
  obtain k where k: "cookieSet plainCookies id Cons False [] defaultProxyOptions ''sid'' ''42'' ?opts ?c = onResponse (Cons k) ?c"
    "pc_HTTPOnly k" "pc_Domain k = []" "pc_Path k = slashPath []" "pc_Secure k" "pc_Key k = ''__Host-'' @ ''sid''"
    using cookie_default_security [OF plainCookies.cookie_store_axioms m, of id Cons False "[]" defaultProxyOptions "''sid''" "''42''" ?c]
    unfolding f by (auto split: if_splits)
  show ?thesis
    unfolding k(1) using k(2-6) r by (intro exI [of _ k]) (simp add: slashPath_def HasPrefix_def)
qed

end
