(* ===== verification/Upstream.thy ===== *)
theory Upstream
  imports Cookies Responses
begin

text \<open>
  The upstream proxy: \<open>src/upstream.go\<close> and \<open>src/internal/proxy\<close>. Upstreams are taken in turn, the request
  is copied without its hop-by-hop headers and sent by a client that is a parameter with a state of its own, the network, and the body
  and the cookies of the answer are rewritten. The decoders and encoders of bodies, the cookies of a response and the sender are
  the fields of \<open>proxyEnv\<close>; a decoder answers \<^const>\<open>None\<close> when it fails.
\<close>

section \<open>Replacing bytes\<close>

text \<open>\<open>bytes.ReplaceAll\<close>: an empty pattern matches before and after every rune.\<close>

function runeChunks :: "bytes \<Rightarrow> bytes list" where
  "runeChunks s =
     (if s = [] then [] else take (snd (DecodeRune s)) s # runeChunks (drop (snd (DecodeRune s)) s))"
  by pat_completeness auto
termination
  by (relation "measure length") (auto simp: DecodeRune_width)

declare runeChunks.simps [simp del]

function replaceScan :: "bytes \<Rightarrow> bytes \<Rightarrow> bytes \<Rightarrow> bytes" where
  "replaceScan old new s =
     (if s = [] \<or> old = [] then s
      else if HasPrefix s old then new @ replaceScan old new (drop (length old) s)
      else hd s # replaceScan old new (tl s))"
  by pat_completeness auto
termination
  by (relation "measure (\<lambda>(old, new, s). length s)") auto

declare replaceScan.simps [simp del]

definition ReplaceAll :: "bytes \<Rightarrow> bytes \<Rightarrow> bytes \<Rightarrow> bytes" where
  "ReplaceAll s old new =
     (if old = [] then new @ concat (map (\<lambda>c. c @ new) (runeChunks s)) else replaceScan old new s)"

section \<open>Hop-by-hop headers\<close>

definition hopHeaders :: "bytes list" where
  "hopHeaders = [''Connection'', ''Proxy-Connection'', ''Keep-Alive'', ''Proxy-Authenticate'', ''Proxy-Authorization'',
     ''Te'', ''Trailer'', ''Transfer-Encoding'', ''Upgrade'']"

text \<open>\<open>StripHeaders\<close> over anything that can delete a header.\<close>

definition StripHeaders :: "(bytes \<Rightarrow> 'h \<Rightarrow> 'h) \<Rightarrow> 'h \<Rightarrow> 'h" where
  "StripHeaders del headers = foldl (\<lambda>hs h. del h hs) headers hopHeaders"

section \<open>The response body\<close>

record 'r proxyEnv =
  px_env :: "'r srvEnv"
  px_gunzip :: "bytes \<Rightarrow> bytes option"
  px_inflate :: "bytes \<Rightarrow> bytes option"
  px_unbrotli :: "bytes \<Rightarrow> bytes option"
  px_gzip :: "bytes \<Rightarrow> bytes"
  px_deflate :: "bytes \<Rightarrow> bytes"
  px_brotli :: "bytes \<Rightarrow> bytes"
  px_ResetBody :: "'r \<Rightarrow> 'r"

record BodyRewriter =
  contentTypes :: "bytes list"
  replaceRules :: "(bytes \<times> bytes) list"
  br_BasePath :: bytes
  RewriteBaseURL :: bool

definition NewBodyRewriter :: BodyRewriter where
  "NewBodyRewriter = \<lparr>contentTypes = [''text/plain'', ''text/html'', ''text/css'', ''text/javascript'', ''application/javascript'',
       ''application/x-javascript'', ''application/json'', ''application/xml'', ''application/xhtml''],
     replaceRules = [], br_BasePath = [], RewriteBaseURL = True\<rparr>"

definition AddReplace :: "bytes \<Rightarrow> bytes \<Rightarrow> BodyRewriter \<Rightarrow> BodyRewriter" where
  "AddReplace from' to' r = r\<lparr>replaceRules := replaceRules r @ [(from', to')]\<rparr>"

definition getDecodedBody :: "'r proxyEnv \<Rightarrow> 'r \<Rightarrow> bytes" where
  "getDecodedBody px resp =
     (let ro = e_ro (px_env px); enc = r_PeekHeader ro ''Content-Encoding'' resp; body = r_Body ro resp;
          orNil = (\<lambda>d. case d of Some b \<Rightarrow> b | None \<Rightarrow> []) in
      if enc = ''gzip'' then orNil (px_gunzip px body)
      else if enc = ''deflate'' then orNil (px_inflate px body)
      else if enc = ''br'' then orNil (px_unbrotli px body)
      else body)"

definition setEncodedBody :: "'r proxyEnv \<Rightarrow> bytes \<Rightarrow> 'r \<Rightarrow> 'r" where
  "setEncodedBody px body resp =
     (let ro = e_ro (px_env px); enc = r_PeekHeader ro ''Content-Encoding'' resp in
      if length body = 0 then px_ResetBody px resp
      else if enc = ''gzip'' then r_SetBody ro (px_gzip px body) resp
      else if enc = ''deflate'' then r_SetBody ro (px_deflate px body) resp
      else if enc = ''br'' then r_SetBody ro (px_brotli px body) resp
      else r_SetBody ro body resp)"

definition trimScheme :: "bytes \<Rightarrow> bytes" where
  "trimScheme url = (case Index url '':'' of None \<Rightarrow> url | Some i \<Rightarrow> drop (i + 1) url)"

definition rewriterEnabled :: "BodyRewriter \<Rightarrow> bool" where
  "rewriterEnabled r \<longleftrightarrow> length (replaceRules r) > 0 \<or> RewriteBaseURL r"

definition isRewritable :: "BodyRewriter \<Rightarrow> bytes \<Rightarrow> bool" where
  "isRewritable r ct \<longleftrightarrow> (\<exists>ctb \<in> set (contentTypes r). HasPrefix ct ctb)"

definition rewriteBody :: "BodyRewriter \<Rightarrow> bytes \<Rightarrow> bytes \<Rightarrow> bytes \<Rightarrow> bytes" where
  "rewriteBody r baseURL upstream body =
     (let body = foldl (\<lambda>b (from', to'). ReplaceAll b from' to') body (replaceRules r) in
      if RewriteBaseURL r then
        let baseURL = TrimRight baseURL slash; upstream = TrimRight upstream slash;
            body = ReplaceAll body upstream baseURL
        in ReplaceAll body (trimScheme upstream) (trimScheme baseURL)
      else body)"

definition RewriteResponse :: "'r proxyEnv \<Rightarrow> BodyRewriter \<Rightarrow> bytes \<Rightarrow> bytes \<Rightarrow> 'r \<Rightarrow> 'r" where
  "RewriteResponse px r baseURL upstream resp =
     (if \<not> rewriterEnabled r then resp
      else if \<not> isRewritable r (r_ContentType (e_ro (px_env px)) resp) then resp
      else let body = getDecodedBody px resp in
        if length body = 0 then resp
        else setEncodedBody px (rewriteBody r baseURL upstream body) resp)"

section \<open>The response cookies\<close>

text \<open>
  \<open>parse\<close> fills an acquired cookie from its text, \<open>hasDomain\<close> tells whether \<open>Domain()\<close> is not nil, and
  \<open>cookies\<close> are those of the response with their texts.
\<close>

fun rewriteCookiesLoop ::
  "'k cookieOps \<Rightarrow> (bytes \<Rightarrow> 'k \<Rightarrow> 'k option) \<Rightarrow> ('k \<Rightarrow> bool) \<Rightarrow> ('k \<Rightarrow> 'r \<Rightarrow> 'r) \<Rightarrow> bool \<Rightarrow> bytes \<Rightarrow>
   (bytes \<times> bytes) list \<Rightarrow> 'r \<Rightarrow> 'r" where
  "rewriteCookiesLoop ko parse hasDomain setCookie tls host [] resp = resp"
| "rewriteCookiesLoop ko parse hasDomain setCookie tls host ((k, v) # cs) resp =
     (case parse v (k_SetKey ko k (k_Acquire ko)) of
        None \<Rightarrow> resp
      | Some c \<Rightarrow>
          let c = (if \<not> tls \<and> k_Secure ko c then k_SetSecure ko False c else c);
              c = (if hasDomain c then k_SetDomain ko host c else c)
          in rewriteCookiesLoop ko parse hasDomain setCookie tls host cs (setCookie c resp))"

record ('k, 'r) respCookies =
  rc_ops :: "'k cookieOps"
  rc_parse :: "bytes \<Rightarrow> 'k \<Rightarrow> 'k option"
  rc_hasDomain :: "'k \<Rightarrow> bool"
  rc_set :: "'k \<Rightarrow> 'r \<Rightarrow> 'r"
  rc_cookies :: "'r \<Rightarrow> (bytes \<times> bytes) list"

definition RewriteCookies :: "('k, 'r) respCookies \<Rightarrow> bool \<Rightarrow> bytes \<Rightarrow> 'r \<Rightarrow> 'r" where
  "RewriteCookies rc tls host resp =
     rewriteCookiesLoop (rc_ops rc) (rc_parse rc) (rc_hasDomain rc) (rc_set rc) tls host (rc_cookies rc resp) resp"

section \<open>The proxy\<close>

record proxyUpstream =
  up_Scheme :: bytes
  up_Host :: bytes
  up_Path :: bytes
  up_BaseURL :: bytes

record proxyOptions =
  op_BasePath :: bytes
  op_InsecureSkipVerify :: bool
  op_BodyRewriter :: BodyRewriter
  op_Upstream :: "proxyUpstream list"

datatype ProxyOption =
    ProxyUpstreamInsecureSkipVerify bool
  | bodyRewriterRule bytes bytes
  | ProxyUpstreamBodyReplaceURL bool
  | proxyUpstreams "proxyUpstream list"

fun applyProxyOption :: "ProxyOption \<Rightarrow> proxyOptions \<Rightarrow> proxyOptions" where
  "applyProxyOption (ProxyUpstreamInsecureSkipVerify o') opts = opts\<lparr>op_InsecureSkipVerify := o'\<rparr>"
| "applyProxyOption (bodyRewriterRule from' to') opts = opts\<lparr>op_BodyRewriter := AddReplace from' to' (op_BodyRewriter opts)\<rparr>"
| "applyProxyOption (ProxyUpstreamBodyReplaceURL o') opts =
     opts\<lparr>op_BodyRewriter := (op_BodyRewriter opts)\<lparr>RewriteBaseURL := o'\<rparr>\<rparr>"
| "applyProxyOption (proxyUpstreams o') opts = opts\<lparr>op_Upstream := op_Upstream opts @ o'\<rparr>"

definition ProxyUpstream :: "url list \<Rightarrow> ProxyOption" where
  "ProxyUpstream upstream = proxyUpstreams
     (map (\<lambda>v. \<lparr>up_Scheme = u_Scheme v, up_Host = u_Host v, up_Path = TrimRight (u_Path v) slash,
                up_BaseURL = TrimRight (urlString v) slash\<rparr>) upstream)"

text \<open>A proxy: whether its client skips verification and its buffer sizes, the options and the turn.\<close>

record Proxy =
  p_InsecureSkipVerify :: bool
  p_ReadBufferSize :: int
  p_WriteBufferSize :: int
  p_options :: proxyOptions
  p_upstreamIndex :: "64 word"

definition newUpstreamProxy :: "int \<Rightarrow> int \<Rightarrow> bytes \<Rightarrow> ProxyOption list \<Rightarrow> Proxy" where
  "newUpstreamProxy requestReadBufferSize responseWriteBufferSize basePath options =
     (let opt = foldl (\<lambda>o' option. applyProxyOption option o')
        \<lparr>op_BasePath = TrimRight basePath slash, op_InsecureSkipVerify = True, op_BodyRewriter = NewBodyRewriter, op_Upstream = []\<rparr> options
      in \<lparr>p_InsecureSkipVerify = op_InsecureSkipVerify opt, p_ReadBufferSize = responseWriteBufferSize,
          p_WriteBufferSize = requestReadBufferSize, p_options = opt, p_upstreamIndex = 0\<rparr>)"

text \<open>The request that is sent.\<close>

record upReq =
  ur_Method :: bytes
  ur_URI :: bytes
  ur_Scheme :: bytes
  ur_Host :: bytes
  ur_Protocol :: bytes
  ur_Headers :: "(bytes \<times> bytes) list"
  ur_Body :: bytes

definition delHeader :: "bytes \<Rightarrow> (bytes \<times> bytes) list \<Rightarrow> (bytes \<times> bytes) list" where
  "delHeader k hs = filter (\<lambda>(n, v). lowerKey n \<noteq> lowerKey k) hs"

definition upstreamURI :: "proxyUpstream \<Rightarrow> bytes \<Rightarrow> bytes \<Rightarrow> bytes \<Rightarrow> bytes \<Rightarrow> bytes" where
  "upstreamURI upstream path basePath optBasePath q =
     up_Path upstream @ TrimPrefix (TrimPrefix path basePath) optBasePath @ (if length q > 0 then ''?'' @ q else [])"

definition upstreamRequest ::
  "ProxyOptions \<Rightarrow> bytes \<Rightarrow> bytes \<Rightarrow> proxyUpstream \<Rightarrow> bytes \<Rightarrow> 'r Ctx \<Rightarrow> upReq" where
  "upstreamRequest po basePath protocol upstream optBasePath ctx =
     (let rq = c_Request ctx in
      \<lparr>ur_Method = rq_Method rq, ur_URI = upstreamURI upstream (c_path ctx) basePath optBasePath (rq_QueryString rq),
       ur_Scheme = up_Scheme upstream, ur_Host = up_Host upstream,
       ur_Protocol = (if IsTLS po ctx \<and> protocol = ''HTTP/2'' then ''HTTP/1.1'' else protocol),
       ur_Headers = StripHeaders delHeader (rq_All rq), ur_Body = rq_Body rq\<rparr>)"

definition badGateway :: "'r srvEnv \<Rightarrow> 'r Ctx \<Rightarrow> 'r Ctx" where
  "badGateway ev ctx = respText (e_ro ev) (e_StatusMessage ev 502) (setStatusCode (e_ro ev) 502 ctx)"

definition nextUpstream :: "Proxy \<Rightarrow> Proxy" where
  "nextUpstream p = p\<lparr>p_upstreamIndex := (p_upstreamIndex p + 1) mod word_of_nat (length (op_Upstream (p_options p)))\<rparr>"

definition currentUpstream :: "Proxy \<Rightarrow> proxyUpstream" where
  "currentUpstream p = op_Upstream (p_options p) ! unat (p_upstreamIndex p)"

definition proxyAnswer ::
  "'r proxyEnv \<Rightarrow> ('k, 'r) respCookies \<Rightarrow> bytes \<Rightarrow> bytes \<Rightarrow> ProxyOptions \<Rightarrow> proxyOptions \<Rightarrow> proxyUpstream \<Rightarrow> 'r Ctx \<Rightarrow> 'r Ctx" where
  "proxyAnswer px rc muxHost basePath po opt upstream ctx =
     (let ctx = onResponse (StripHeaders (r_DelHeader (e_ro (px_env px)))) ctx;
          ctx = onResponse (RewriteCookies rc (IsTLS po ctx) (requestHost muxHost po ctx)) ctx
      in if rewriterEnabled (op_BodyRewriter opt)
         then onResponse (RewriteResponse px (op_BodyRewriter opt) (BaseURL muxHost basePath po ctx @ op_BasePath opt)
                (up_BaseURL upstream)) ctx
         else ctx)"

text \<open>
  \<open>Do\<close> sends a request: given whether certificates go unchecked, the request, the response to fill and the state of
  the network, it returns whether it succeeded and what it left in the response, and the next state of the network.
\<close>

type_synonym ('r, 'n) httpDo = "bool \<Rightarrow> upReq \<Rightarrow> 'r \<Rightarrow> 'n \<Rightarrow> (bool \<times> 'r) \<times> 'n"

definition proxyHandler ::
  "'r proxyEnv \<Rightarrow> ('k, 'r) respCookies \<Rightarrow> ('r, 'n) httpDo \<Rightarrow> (fhReq \<Rightarrow> bytes) \<Rightarrow> bytes \<Rightarrow> bytes \<Rightarrow> ProxyOptions \<Rightarrow>
   'r Ctx \<Rightarrow> Proxy \<times> 'n \<Rightarrow> 'r Ctx \<times> Proxy \<times> 'n" where
  "proxyHandler px rc Do protocolOf muxHost basePath po ctx st =
     (let (p, net) = st in
      if length (op_Upstream (p_options p)) = 0 then (badGateway (px_env px) ctx, p, net)
      else
        let p = nextUpstream p; upstream = currentUpstream p;
            req = upstreamRequest po basePath (protocolOf (c_Request ctx)) upstream (op_BasePath (p_options p)) ctx;
            ((ok, resp), net) = Do (p_InsecureSkipVerify p) req (c_Response ctx) net;
            ctx = onResponse (\<lambda>_. resp) ctx
        in if \<not> ok then (badGateway (px_env px) ctx, p, net)
           else (proxyAnswer px rc muxHost basePath po (p_options p) upstream ctx, p, net))"

section \<open>Taking turns\<close>

lemma nextUpstream_frame [simp]:
  "p_options (nextUpstream p) = p_options p" "p_InsecureSkipVerify (nextUpstream p) = p_InsecureSkipVerify p"
  by (simp_all add: nextUpstream_def)

lemma nextUpstream_index:
  assumes "0 < length (op_Upstream (p_options p))" "length (op_Upstream (p_options p)) < 2 ^ 64"
    "unat (p_upstreamIndex p) < length (op_Upstream (p_options p))"
  shows "unat (p_upstreamIndex (nextUpstream p)) = Suc (unat (p_upstreamIndex p)) mod length (op_Upstream (p_options p))"
proof -
  let ?n = "length (op_Upstream (p_options p))" and ?i = "p_upstreamIndex p"
  have n: "unat (word_of_nat ?n :: 64 word) = ?n" using assms(2) by (simp add: unat_of_nat)
  have "unat (?i + 1) = Suc (unat ?i)"
    using assms(2,3) unat_add_lem [of ?i 1] by simp
  then show ?thesis unfolding nextUpstream_def by (simp add: unat_mod n)
qed

text \<open>A network that records the requests it is given, in their order, and otherwise behaves as any \<open>Do\<close>.\<close>

definition recording :: "('r, 'n) httpDo \<Rightarrow> ('r, 'n \<times> upReq list) httpDo" where
  "recording Do skip req resp net = (let (res, w) = Do skip req resp (fst net) in (res, w, snd net @ [req]))"

text \<open>The state after a sequence of requests, whatever their answers.\<close>

definition proxyRun ::
  "'r proxyEnv \<Rightarrow> ('k, 'r) respCookies \<Rightarrow> ('r, 'n) httpDo \<Rightarrow> (fhReq \<Rightarrow> bytes) \<Rightarrow> bytes \<Rightarrow> bytes \<Rightarrow> ProxyOptions \<Rightarrow>
   'r Ctx list \<Rightarrow> Proxy \<times> 'n \<Rightarrow> Proxy \<times> 'n" where
  "proxyRun px rc Do protocolOf muxHost basePath po ctxs st =
     foldl (\<lambda>st ctx. snd (proxyHandler px rc Do protocolOf muxHost basePath po ctx st)) st ctxs"

text \<open>A request that was made for an upstream.\<close>

definition sentTo :: "upReq \<Rightarrow> proxyUpstream \<Rightarrow> bool" where
  "sentTo req u \<longleftrightarrow> ur_Scheme req = up_Scheme u \<and> ur_Host req = up_Host u \<and> HasPrefix (ur_URI req) (up_Path u)"

lemma proxyHandler_recorded:
  assumes "op_Upstream (p_options p) = ups" "0 < length ups" "length ups < 2 ^ 64" "unat (p_upstreamIndex p) < length ups"
  shows "\<exists>p' w' req. snd (proxyHandler px rc (recording Do) pf mh bp po ctx (p, w, reqs)) = (p', w', reqs @ [req]) \<and>
    op_Upstream (p_options p') = ups \<and> unat (p_upstreamIndex p') = Suc (unat (p_upstreamIndex p)) mod length ups \<and>
    sentTo req (ups ! unat (p_upstreamIndex p'))"
proof -
  let ?p = "nextUpstream p"
  let ?req = "upstreamRequest po bp (pf (c_Request ctx)) (currentUpstream ?p) (op_BasePath (p_options p)) ctx"
  have "\<exists>w'. snd (proxyHandler px rc (recording Do) pf mh bp po ctx (p, w, reqs)) = (?p, w', reqs @ [?req])"
    using assms(1,2) by (auto simp: proxyHandler_def recording_def Let_def split: prod.splits)
  moreover have "sentTo ?req (ups ! unat (p_upstreamIndex ?p))"
    using assms(1) by (simp add: sentTo_def upstreamRequest_def upstreamURI_def currentUpstream_def Let_def)
  moreover have "unat (p_upstreamIndex ?p) = Suc (unat (p_upstreamIndex p)) mod length ups"
    using nextUpstream_index [of p] assms by simp
  ultimately show ?thesis using assms(1) by (metis nextUpstream_frame(1))
qed

lemma turn_mod: "Suc (a mod n + k) mod n = Suc (a + k) mod (n :: nat)"
  by (metis add_Suc add_Suc_right mod_add_left_eq)

lemma proxyRun_recorded:
  assumes "op_Upstream (p_options p) = ups" "0 < length ups" "length ups < 2 ^ 64" "unat (p_upstreamIndex p) < length ups"
  shows "\<exists>p' w' new. proxyRun px rc (recording Do) pf mh bp po ctxs (p, w, reqs) = (p', w', reqs @ new) \<and>
    op_Upstream (p_options p') = ups \<and> unat (p_upstreamIndex p') < length ups \<and>
    list_all2 sentTo new (map (\<lambda>k. ups ! ((Suc (unat (p_upstreamIndex p)) + k) mod length ups)) [0..<length ctxs])"
  using assms
proof (induction ctxs arbitrary: p w reqs)
  case Nil
  then show ?case by (simp add: proxyRun_def)
next
  case (Cons c cs)
  let ?i = "unat (p_upstreamIndex p)" and ?n = "length ups"
  obtain p1 w1 req where 1: "snd (proxyHandler px rc (recording Do) pf mh bp po c (p, w, reqs)) = (p1, w1, reqs @ [req])"
    "op_Upstream (p_options p1) = ups" "unat (p_upstreamIndex p1) = Suc ?i mod ?n" "sentTo req (ups ! (Suc ?i mod ?n))"
    using proxyHandler_recorded [OF Cons.prems, of px rc Do pf mh bp po c w reqs] by metis
  have "unat (p_upstreamIndex p1) < ?n" using 1(3) Cons.prems(2) by simp
  from Cons.IH [OF 1(2) Cons.prems(2,3) this, of w1 "reqs @ [req]"] obtain p2 w2 new where
    2: "proxyRun px rc (recording Do) pf mh bp po cs (p1, w1, reqs @ [req]) = (p2, w2, reqs @ req # new)"
    "op_Upstream (p_options p2) = ups" "unat (p_upstreamIndex p2) < ?n"
    "list_all2 sentTo new (map (\<lambda>k. ups ! ((Suc (Suc ?i mod ?n) + k) mod ?n)) [0..<length cs])"
    unfolding 1(3) by auto
  have "map (\<lambda>k. ups ! ((Suc (Suc ?i mod ?n) + k) mod ?n)) [0..<length cs] =
      map (\<lambda>k. ups ! ((Suc ?i + k) mod ?n)) [Suc 0..<Suc (length cs)]"
    unfolding map_Suc_upt [symmetric] by (simp add: turn_mod del: upt_Suc)
  with 1(4) 2(4) have "list_all2 sentTo (req # new) (map (\<lambda>k. ups ! ((Suc ?i + k) mod ?n)) [0..<length (c # cs)])"
    by (simp add: upt_conv_Cons del: upt_Suc)
  moreover have "proxyRun px rc (recording Do) pf mh bp po (c # cs) (p, w, reqs) = (p2, w2, reqs @ req # new)"
    using 2(1) 1(1) by (simp add: proxyRun_def)
  ultimately show ?case using 2(2,3) by blast
qed

text \<open>A full turn of a cyclic counter visits everything once.\<close>

lemma mset_rotate1: "mset (rotate1 xs) = mset xs"
  by (cases xs) simp_all

lemma mset_rotate: "mset (map (\<lambda>k. xs ! ((a + k) mod length xs)) [0..<length xs]) = mset xs"
proof -
  have "map (\<lambda>k. xs ! ((a + k) mod length xs)) [0..<length xs] = rotate a xs"
    by (rule nth_equalityI) (simp_all add: nth_rotate add.commute)
  moreover have "mset (rotate a xs) = mset xs"
    by (induction a) (simp_all add: mset_rotate1)
  ultimately show ?thesis by simp
qed

section \<open>What the upstream and the client see\<close>

lemma StripHeaders_list: "StripHeaders delHeader hs = filter (\<lambda>(n, v). lowerKey n \<notin> lowerKey ` set hopHeaders) hs"
proof -
  have "foldl (\<lambda>hs h. delHeader h hs) hs ks = filter (\<lambda>(n, v). lowerKey n \<notin> lowerKey ` set ks) hs" for ks
    by (induction ks arbitrary: hs) (auto simp: delHeader_def intro!: filter_cong)
  then show ?thesis by (simp add: StripHeaders_def)
qed

lemma replaceScan_absent: "Index s old = None \<Longrightarrow> replaceScan old new s = s"
proof (induction s)
  case (Cons c cs)
  then show ?case by (subst replaceScan.simps) (auto split: if_splits)
qed (simp add: replaceScan.simps)

lemma replaceScan_hit:
  "old \<noteq> [] \<Longrightarrow> Index s old = Some i \<Longrightarrow> replaceScan old new s = take i s @ new @ replaceScan old new (drop (i + length old) s)"
proof (induction s arbitrary: i)
  case (Cons c cs)
  then show ?case by (subst replaceScan.simps) (auto split: if_splits)
qed (simp split: if_splits)

text \<open>The rewritten base URL is rewritten again when it starts with the URL of the upstream.\<close>

lemma base_url_twice:
  "rewriteBody NewBodyRewriter ''http://a/x'' ''http://a'' ''<http://a/>'' = ''<http://a/x/x/>''"
  by code_simp

text \<open>The client decodes the rewritten body, whatever its encoding, when the decoders invert the encoders.\<close>

lemma RewriteResponse_decoded:
  assumes "response_store (e_ro (px_env px))" "\<And>b. px_gunzip px (px_gzip px b) = Some b"
    "\<And>b. px_inflate px (px_deflate px b) = Some b" "\<And>b. px_unbrotli px (px_brotli px b) = Some b"
    "rewriterEnabled r" "isRewritable r (r_ContentType (e_ro (px_env px)) resp)"
    "getDecodedBody px resp \<noteq> []" "rewriteBody r baseURL up (getDecodedBody px resp) \<noteq> []"
  shows "getDecodedBody px (RewriteResponse px r baseURL up resp) = rewriteBody r baseURL up (getDecodedBody px resp)"
proof -
  let ?b = "rewriteBody r baseURL up (getDecodedBody px resp)"
  have "RewriteResponse px r baseURL up resp = setEncodedBody px ?b resp"
    using assms(5-7) by (simp add: RewriteResponse_def Let_def)
  moreover have "getDecodedBody px (setEncodedBody px b resp) = b" if "b \<noteq> []" for b
    using that assms(2-4) response_store.peek_body [OF assms(1)] response_store.body_body [OF assms(1)]
    by (simp add: getDecodedBody_def setEncodedBody_def Let_def)
  ultimately show ?thesis using assms(8) by simp
qed

section \<open>Properties\<close>

text \<open>
  C35. The upstreams take turns: whatever requests came before, and whatever the network answers, as many successive
  requests as there are upstreams are sent to each of them once. What is sent is what the client of the proxy is given: the
  requests that a recording network holds have the scheme, the host and the path of their upstreams.
\<close>

theorem proxy_round_robin:
  assumes "op_Upstream (p_options (newUpstreamProxy rb wb base options)) = ups" "0 < length ups" "length ups < 2 ^ 64"
    "length ctxs = length ups"
  shows "\<exists>p w old new turn.
    proxyRun px rc (recording Do) protocolOf muxHost basePath po (before @ ctxs) (newUpstreamProxy rb wb base options, net, []) =
      (p, w, old @ new) \<and>
    length old = length before \<and> list_all2 sentTo new turn \<and> mset turn = mset ups"
proof -
  let ?p = "newUpstreamProxy rb wb base options" and ?run = "proxyRun px rc (recording Do) protocolOf muxHost basePath po"
  have i: "unat (p_upstreamIndex ?p) < length ups" using assms(2) by (simp add: newUpstreamProxy_def Let_def)
  obtain p1 w1 old where 1: "?run before (?p, net, []) = (p1, w1, old)" "op_Upstream (p_options p1) = ups"
    "unat (p_upstreamIndex p1) < length ups" "length old = length before"
    using proxyRun_recorded [OF assms(1-3) i, of px rc Do protocolOf muxHost basePath po before net "[]"]
    by (auto dest: list_all2_lengthD)
  obtain p2 w2 new where 2: "?run ctxs (p1, w1, old) = (p2, w2, old @ new)"
    "list_all2 sentTo new (map (\<lambda>k. ups ! ((Suc (unat (p_upstreamIndex p1)) + k) mod length ups)) [0..<length ups])"
    using proxyRun_recorded [OF 1(2) assms(2,3) 1(3), of px rc Do protocolOf muxHost basePath po ctxs w1 old] assms(4) by auto
  have "?run (before @ ctxs) (?p, net, []) = (p2, w2, old @ new)" using 1(1) 2(1) by (simp add: proxyRun_def)
  with 1(4) 2(2) mset_rotate [of ups "Suc (unat (p_upstreamIndex p1))"] show ?thesis by blast
qed

definition demoUpstream :: "bytes \<Rightarrow> url" where
  "demoUpstream host = \<lparr>u_Scheme = ''http'', u_Opaque = [], u_Userinfo = [], u_Host = host, u_Path = ''/api/'', u_RawPath = [],
     u_RawQuery = [], u_Fragment = [], u_OmitHost = False, u_ForceQuery = False\<rparr>"

definition demoProxyEnv :: "assocResp proxyEnv" where
  "demoProxyEnv = \<lparr>px_env = demoEnv, px_gunzip = Some, px_inflate = Some, px_unbrotli = Some, px_gzip = id, px_deflate = id,
     px_brotli = id, px_ResetBody = (\<lambda>r. r\<lparr>ar_body := []\<rparr>)\<rparr>"

definition noCookies :: "(plainCookie, assocResp) respCookies" where
  "noCookies = \<lparr>rc_ops = plainCookies, rc_parse = (\<lambda>_ c. Some c), rc_hasDomain = (\<lambda>_. False), rc_set = (\<lambda>_ r. r), rc_cookies = (\<lambda>_. [])\<rparr>"

text \<open>A network on which every request fails; the third request goes to the first upstream of the second turn.\<close>

theorem proxy_round_robin_witness:
  "let reqs = snd (snd (proxyRun demoProxyEnv noCookies (recording (\<lambda>_ _ r n. ((False, r), n))) (\<lambda>_. ''HTTP/1.1'') [] [] defaultProxyOptions
      (replicate 3 (acquireCtx [] demoRaw))
      (newUpstreamProxy 8192 8192 ''/app'' [ProxyUpstream [demoUpstream ''a'', demoUpstream ''b'']], (), []))) in
   length reqs = 3 \<and> mset (map ur_Host (tl reqs)) = {#''a'', ''b''#}"
proof -
  let ?p = "newUpstreamProxy 8192 8192 ''/app'' [ProxyUpstream [demoUpstream ''a'', demoUpstream ''b'']]" and ?c = "acquireCtx [] demoRaw"
  obtain u v where u: "op_Upstream (p_options ?p) = [u, v]" "up_Host u = ''a''" "up_Host v = ''b''"
    by (simp add: newUpstreamProxy_def ProxyUpstream_def demoUpstream_def Let_def)
  obtain p w old new turn where r: "proxyRun demoProxyEnv noCookies (recording (\<lambda>_ _ r n. ((False, r), n))) (\<lambda>_. ''HTTP/1.1'') [] []
      defaultProxyOptions ([?c] @ [?c, ?c]) (?p, (), []) = (p, w, old @ new)" "length old = length [?c]"
      "list_all2 sentTo new turn" "mset turn = mset [u, v]"
    using proxy_round_robin [OF u(1), of "[?c, ?c]" demoProxyEnv noCookies "\<lambda>_ _ r n. ((False, r), n)" "\<lambda>_. ''HTTP/1.1''" "[]" "[]"
      defaultProxyOptions "[?c]" "()"] by auto
  have "map ur_Host new = map up_Host turn"
    using r(3) by (induction rule: list_all2_induct) (simp_all add: sentTo_def)
  moreover have "mset (map up_Host turn) = image_mset up_Host (mset [u, v])" using r(4) by (simp only: mset_map)
  ultimately have "mset (map ur_Host new) = {#''a'', ''b''#}" using u(2,3) by simp
  moreover have "length turn = 2" using r(4) by (metis size_mset length_Cons list.size(3) numeral_2_eq_2)
  then have "length new = 2" using r(3) by (simp add: list_all2_lengthD)
  moreover obtain q where "old = [q]" using r(2) by (cases old) auto
  moreover have "replicate 3 ?c = [?c] @ [?c, ?c]" by (simp add: numeral_3_eq_3)
  ultimately show ?thesis using r(1) by (simp add: Let_def)
qed

end
