(* ===== verification/Config.thy ===== *)
theory Config
  imports Responses Rate_Limit
begin

text \<open>
  The configuration sections: \<open>src/config\<close>. Binding a section tells the configuration library its default values and the
  environment variables that override them; the calls are recorded in order, a \<open>viper\<close> being the list of them.
  The environment is a function \<open>env\<close> (an unset variable is empty), the parser of URLs is \<open>parse\<close>, and
  \<open>sub\<close> binds a section with the core library. Validating a section hands its fields and their tags to the library's validator
  \<open>valid\<close>, which answers with an error or nil.
\<close>

datatype confVal = CBool bool | CInt int | CStr bytes | CStrs "bytes list" | CDuration int

datatype viperCall = SetDefault bytes confVal | BindEnv bytes bytes | BindPFlag bytes bytes

type_synonym viper = "viperCall list"

type_synonym bindFn = "bytes \<Rightarrow> viper \<Rightarrow> viper"

type_synonym validator = "(confVal \<times> bytes) list \<Rightarrow> goErr option"


section \<open>Addresses of the server\<close>

text \<open>\<open>URL.Hostname\<close> and \<open>URL.Port\<close>.\<close>

definition validOptionalPort :: "bytes \<Rightarrow> bool" where
  "validOptionalPort port \<longleftrightarrow> port = [] \<or> (hd port = colon \<and> (\<forall>c \<in> set (tl port). isDigit c))"

definition splitHostPort :: "bytes \<Rightarrow> bytes \<times> bytes" where
  "splitHostPort hostPort =
     (let (host, port) = (case LastIndex hostPort '':'' of
            Some i \<Rightarrow> if validOptionalPort (drop i hostPort) then (take i hostPort, drop (i + 1) hostPort) else (hostPort, [])
          | None \<Rightarrow> (hostPort, []))
      in (if HasPrefix host ''['' \<and> HasSuffix host '']'' then butlast (tl host) else host, port))"

definition Hostname :: "url \<Rightarrow> bytes" where "Hostname u = fst (splitHostPort (u_Host u))"

definition Port :: "url \<Rightarrow> bytes" where "Port u = snd (splitHostPort (u_Host u))"

definition serverUrls :: "(bytes \<Rightarrow> bytes) \<Rightarrow> bytes list" where
  "serverUrls env = Split (env ''SERVER_URLS'') (CHR '';'')"

definition urlPort :: "url \<Rightarrow> int \<Rightarrow> int" where
  "urlPort u port = (case ParseInt (Port u) of Inr p \<Rightarrow> p | Inl _ \<Rightarrow> port)"

record listener =
  ls_Enabled :: bool
  ls_Address :: bytes
  ls_Port :: int

text \<open>The loop over \<open>SERVER_URLS\<close> of the plain and of the encrypted listener.\<close>

fun httpLoop :: "(bytes \<Rightarrow> url option) \<Rightarrow> bytes list \<Rightarrow> listener \<Rightarrow> listener" where
  "httpLoop parse [] ls = ls"
| "httpLoop parse (servu # urls) ls =
     (let servu = TrimSpace servu in
      if length servu = 0 then httpLoop parse urls ls
      else case parse servu of
        None \<Rightarrow> httpLoop parse urls ls
      | Some u \<Rightarrow>
          if map lowerByte (u_Scheme u) \<noteq> ''http'' then httpLoop parse urls (ls\<lparr>ls_Enabled := False\<rparr>)
          else \<lparr>ls_Enabled = True, ls_Address = Hostname u, ls_Port = urlPort u (ls_Port ls)\<rparr>)"

fun httpsLoop :: "(bytes \<Rightarrow> url option) \<Rightarrow> bytes list \<Rightarrow> listener \<Rightarrow> listener" where
  "httpsLoop parse [] ls = ls"
| "httpsLoop parse (servu # urls) ls =
     (let servu = TrimSpace servu in
      if length servu = 0 then httpsLoop parse urls ls
      else case parse servu of
        None \<Rightarrow> httpsLoop parse urls ls
      | Some u \<Rightarrow>
          if map lowerByte (u_Scheme u) \<noteq> ''https'' then httpsLoop parse urls ls
          else \<lparr>ls_Enabled = True, ls_Address = Hostname u, ls_Port = urlPort u (ls_Port ls)\<rparr>)"

definition listenerDefaults :: "listener \<Rightarrow> bindFn" where
  "listenerDefaults ls pre v = v @ [SetDefault (pre @ ''.enabled'') (CBool (ls_Enabled ls)),
     SetDefault (pre @ ''.address'') (CStr (ls_Address ls)), SetDefault (pre @ ''.port'') (CInt (ls_Port ls))]"

definition httpListener :: "(bytes \<Rightarrow> url option) \<Rightarrow> (bytes \<Rightarrow> bytes) \<Rightarrow> listener" where
  "httpListener parse env = httpLoop parse (serverUrls env) \<lparr>ls_Enabled = True, ls_Address = ''0.0.0.0'', ls_Port = 8080\<rparr>"

definition httpsListener :: "(bytes \<Rightarrow> url option) \<Rightarrow> (bytes \<Rightarrow> bytes) \<Rightarrow> listener" where
  "httpsListener parse env = httpsLoop parse (serverUrls env) \<lparr>ls_Enabled = False, ls_Address = ''0.0.0.0'', ls_Port = 4443\<rparr>"

definition ServerHTTP_Bind :: "(bytes \<Rightarrow> url option) \<Rightarrow> (bytes \<Rightarrow> bytes) \<Rightarrow> bindFn" where
  "ServerHTTP_Bind parse env = listenerDefaults (httpListener parse env)"

definition ServerHTTPS_Bind :: "(bytes \<Rightarrow> url option) \<Rightarrow> (bytes \<Rightarrow> bytes) \<Rightarrow> bindFn" where
  "ServerHTTPS_Bind parse env pre v = listenerDefaults (httpsListener parse env) pre v @
     [BindEnv (pre @ ''.certificate_pem_file'') ''SERVER_HTTPS_CERTIFICATE_PEM_FILE'']"

definition serverPath :: "(bytes \<Rightarrow> url option) \<Rightarrow> (bytes \<Rightarrow> bytes) \<Rightarrow> bytes" where
  "serverPath parse env =
     (let (servu, _, _) = Cut (env ''SERVER_URLS'') '';'' in
      if length servu > 0 then
        (case parse servu of Some u \<Rightarrow> if length (u_Path u) > 0 then u_Path u else ''/'' | None \<Rightarrow> ''/'')
      else ''/'')"

definition Server_Bind :: "(bindFn \<Rightarrow> bindFn) \<Rightarrow> (bytes \<Rightarrow> url option) \<Rightarrow> (bytes \<Rightarrow> bytes) \<Rightarrow> bindFn" where
  "Server_Bind sub parse env pre v =
     (let v = v @ [SetDefault (pre @ ''.path'') (CStr (serverPath parse env)),
            SetDefault (pre @ ''.read_timeout'') (CDuration (30 * second)),
            SetDefault (pre @ ''.write_timeout'') (CDuration (10 * second)),
            SetDefault (pre @ ''.idle_timeout'') (CDuration (75 * second)),
            SetDefault (pre @ ''.max_request_body_size'') (CInt 4194304),
            SetDefault (pre @ ''.shutdown_timeout'') (CDuration (30 * second)),
            BindEnv (pre @ ''.path'') ''BASE_PATH'',
            BindEnv (pre @ ''.read_timeout'') ''SERVER_READ_TIMEOUT'',
            BindEnv (pre @ ''.write_timeout'') ''SERVER_WRITE_TIMEOUT'',
            BindEnv (pre @ ''.idle_timeout'') ''SERVER_IDLE_TIMEOUT'',
            BindEnv (pre @ ''.max_request_body_size'') ''SERVER_MAX_REQUEST_BODY_SIZE'',
            BindEnv (pre @ ''.shutdown_timeout'') ''SERVER_SHUTDOWN_TIMEOUT'']
      in sub (ServerHTTPS_Bind parse env) (pre @ ''.https'') (sub (ServerHTTP_Bind parse env) (pre @ ''.http'') v))"

section \<open>The other sections\<close>

definition corsDefaults :: "(bytes \<Rightarrow> url option) \<Rightarrow> (bytes \<Rightarrow> bytes) \<Rightarrow> bytes list" where
  "corsDefaults parse env = concat (map (\<lambda>addr.
      if length addr = 0 then []
      else case parse (TrimSpace addr) of
        Some o' \<Rightarrow> if length (u_Host o') > 0 then [u_Scheme o' @ ''://'' @ u_Host o'] else []
      | None \<Rightarrow> []) (Split (env ''CORS_ORIGINS'') (CHR '';'')))"

definition CORS_Bind :: "(bytes \<Rightarrow> url option) \<Rightarrow> (bytes \<Rightarrow> bytes) \<Rightarrow> bindFn" where
  "CORS_Bind parse env pre v = v @ [SetDefault (pre @ ''.origins'') (CStrs (corsDefaults parse env))]"

text \<open>A list from an environment variable, with the entries trimmed and the empty ones left out.\<close>

definition envList :: "bytes \<Rightarrow> bytes list" where
  "envList val = filter (\<lambda>addr. length addr \<noteq> 0) (map TrimSpace (Split val (CHR '';'')))"

definition envListOr :: "(bytes \<Rightarrow> bytes) \<Rightarrow> bytes \<Rightarrow> bytes list \<Rightarrow> bytes list" where
  "envListOr env name addrs = (if length (env name) > 0 then envList (env name) else addrs)"

definition Healthz_Bind :: "(bytes \<Rightarrow> bytes) \<Rightarrow> bindFn" where
  "Healthz_Bind env pre v =
     (let addrs = envListOr env ''HEALTHZ_TRUSTED_IPS''
            [''127.0.0.0/8'', ''::1/128'', ''10.0.0.0/8'', ''172.16.0.0/12'', ''192.168.0.0/16'', ''fc00::/7'']
      in v @ [SetDefault (pre @ ''.enabled'') (CBool True), SetDefault (pre @ ''.address'') (CStrs addrs),
              BindEnv (pre @ ''.enabled'') ''HEALTHZ_ENABLED''])"

definition Metrics_Bind :: "(bytes \<Rightarrow> bytes) \<Rightarrow> bindFn" where
  "Metrics_Bind env pre v =
     (let addrs = envListOr env ''METRICS_TRUSTED_IPS'' [''127.0.0.1'']
      in v @ [SetDefault (pre @ ''.enabled'') (CBool True), SetDefault (pre @ ''.path'') (CStr ''/metrics''),
              SetDefault (pre @ ''.address'') (CStrs addrs), BindEnv (pre @ ''.enabled'') ''METRICS_ENABLED'',
              BindEnv (pre @ ''.path'') ''METRICS_PATH''])"

definition Paging_Bind :: "int \<Rightarrow> bindFn" where
  "Paging_Bind defaultPageSize pre v = v @ [SetDefault (pre @ ''.default_page_size'') (CInt defaultPageSize),
     SetDefault (pre @ ''.max_page_size'') (CInt 100), BindEnv (pre @ ''.default_page_size'') ''PAGING_DEFAULT_PAGE_SIZE'',
     BindEnv (pre @ ''.max_page_size'') ''PAGING_MAX_PAGE_SIZE'']"

definition Proxy_Bind :: "(bytes \<Rightarrow> bytes) \<Rightarrow> bindFn" where
  "Proxy_Bind env pre v =
     (let addrs = envListOr env ''REVERSE_PROXY_TRUSTED_IPS'' [''127.0.0.1''];
          headers = envListOr env ''REVERSE_PROXY_TRUSTED_HEADERS'' [''X-Real-IP'', ''X-Forwarded-For'']
      in v @ [SetDefault (pre @ ''.address'') (CStrs addrs), SetDefault (pre @ ''.limit'') (CInt 1),
              SetDefault (pre @ ''.trusted_headers'') (CStrs headers), BindEnv (pre @ ''.limit'') ''REVERSE_PROXY_LIMIT''])"

definition RateLimit_Bind :: bindFn where
  "RateLimit_Bind pre v = v @ [SetDefault (pre @ ''.enabled'') (CBool False),
     SetDefault (pre @ ''.strategy'') (CStr ''fixed-window''), SetDefault (pre @ ''.limit'') (CInt 60),
     SetDefault (pre @ ''.window'') (CDuration (60 * second)), SetDefault (pre @ ''.rate'') (CInt 1),
     SetDefault (pre @ ''.burst'') (CInt 60), BindEnv (pre @ ''.enabled'') ''RATELIMIT_ENABLED'',
     BindEnv (pre @ ''.strategy'') ''RATELIMIT_STRATEGY'', BindEnv (pre @ ''.limit'') ''RATELIMIT_LIMIT'',
     BindEnv (pre @ ''.window'') ''RATELIMIT_WINDOW'', BindEnv (pre @ ''.rate'') ''RATELIMIT_RATE'',
     BindEnv (pre @ ''.burst'') ''RATELIMIT_BURST'', BindEnv (pre @ ''.wait_limit'') ''RATELIMIT_WAIT_LIMIT'']"

definition Configuration_Bind ::
  "(bindFn \<Rightarrow> bindFn) \<Rightarrow> (bytes \<Rightarrow> url option) \<Rightarrow> (bytes \<Rightarrow> bytes) \<Rightarrow> int \<Rightarrow> bindFn \<Rightarrow> viper \<Rightarrow> viper" where
  "Configuration_Bind sub parse env defaultPageSize clientBind v =
     (let v = sub (Server_Bind sub parse env) ''server'' v;
          v = sub (CORS_Bind parse env) ''cors'' v;
          v = sub (Paging_Bind defaultPageSize) ''paging'' v;
          v = sub (Proxy_Bind env) ''proxy'' v;
          v = sub (Metrics_Bind env) ''metrics'' v;
          v = sub (Healthz_Bind env) ''healthz'' v;
          v = sub RateLimit_Bind ''rate_limit'' v
      in sub clientBind ''http_client'' v)"

definition BindCmd :: "viper \<Rightarrow> viper" where
  "BindCmd v = v @ [BindPFlag ''server.port'' ''port'']"

section \<open>The configuration and its validation\<close>

record ServerHTTPS = listener +
  CertificatePEMFile :: bytes

record Server =
  sv_HTTP :: "listener option"
  sv_HTTPS :: "ServerHTTPS option"
  sv_Path :: bytes
  ReadTimeout :: int
  WriteTimeout :: int
  IdleTimeout :: int
  MaxRequestBodySize :: int
  ShutdownTimeout :: int

record PagingConf =
  pg_DefaultPageSize :: int
  pg_MaxPageSize :: int

record ProxyConf =
  px_Address :: "bytes list"
  px_Limit :: int
  px_TrustedHeaders :: "bytes list"

record MetricsConf =
  mt_Enabled :: bool
  mt_Path :: bytes
  mt_Address :: "bytes list"
  mt_SkipPaths :: "bytes list"

record HealthzConf =
  hz_Enabled :: bool
  hz_Address :: "bytes list"

text \<open>\<open>'h\<close> is the configuration of the HTTP client, which belongs to the core library.\<close>

record ('f, 'h) Configuration =
  cf_Server :: Server
  cf_CORS :: "bytes list"
  cf_Paging :: PagingConf
  cf_Proxy :: ProxyConf
  cf_Metrics :: MetricsConf
  cf_Healthz :: HealthzConf
  cf_RateLimit :: "'f RateLimitConfig"
  cf_HTTPClient :: 'h

text \<open>The tags of the fields; \<open>rateVal\<close> presents a floating-point number.\<close>

definition listenerTags :: "'z listener_scheme \<Rightarrow> (confVal \<times> bytes) list" where
  "listenerTags s = [(CStr (ls_Address s), ''ip_addr|hostname|fqdn''), (CInt (ls_Port s), ''required,min=1,max=65535'')]"

definition httpsTags :: "ServerHTTPS \<Rightarrow> (confVal \<times> bytes) list" where
  "httpsTags s = listenerTags s @ [(CStr (CertificatePEMFile s), ''omitempty,file'')]"

definition serverTags :: "Server \<Rightarrow> (confVal \<times> bytes) list" where
  "serverTags s = [(CDuration (ReadTimeout s), ''omitempty,min=0''), (CDuration (WriteTimeout s), ''omitempty,min=0''),
     (CDuration (IdleTimeout s), ''omitempty,min=0''), (CInt (MaxRequestBodySize s), ''omitempty,min=0''),
     (CDuration (ShutdownTimeout s), ''omitempty,min=0'')]"

definition pagingTags :: "PagingConf \<Rightarrow> (confVal \<times> bytes) list" where
  "pagingTags c = [(CInt (pg_DefaultPageSize c), ''required,min=1''), (CInt (pg_MaxPageSize c), ''required,min=1'')]"

definition proxyTags :: "ProxyConf \<Rightarrow> (confVal \<times> bytes) list" where
  "proxyTags c = [(CStrs (px_Address c), ''dive,required,ip_addr|cidr|eq=*''), (CInt (px_Limit c), ''min=0,max=10'')]"

definition rateLimitTags :: "('f \<Rightarrow> confVal) \<Rightarrow> 'f RateLimitConfig \<Rightarrow> (confVal \<times> bytes) list" where
  "rateLimitTags rateVal c = [(CStr (rl_Strategy c), ''required,oneof=fixed-window token-bucket''),
     (CInt (rl_Limit c), ''required_if=Strategy fixed-window,omitempty,gt=0''),
     (CDuration (rl_Window c), ''required_if=Strategy fixed-window,omitempty,gt=0''),
     (rateVal (rl_Rate c), ''required_if=Strategy token-bucket,omitempty,gt=0''),
     (CInt (rl_Burst c), ''required_if=Strategy token-bucket,omitempty,gt=0''),
     (CDuration (rl_WaitLimit c), ''omitempty,min=0'')]"

definition ServerHTTP_Validate :: "validator \<Rightarrow> listener \<Rightarrow> goErr option" where
  "ServerHTTP_Validate valid s = valid (listenerTags s)"

definition ServerHTTPS_Validate :: "validator \<Rightarrow> ServerHTTPS \<Rightarrow> goErr option" where
  "ServerHTTPS_Validate valid s = valid (httpsTags s)"

definition Server_Validate :: "validator \<Rightarrow> Server \<Rightarrow> goErr option" where
  "Server_Validate valid s =
     (case (case sv_HTTP s of Some h \<Rightarrow> ServerHTTP_Validate valid h | None \<Rightarrow> None) of
        Some err \<Rightarrow> Some err
      | None \<Rightarrow> (case (case sv_HTTPS s of Some h \<Rightarrow> ServerHTTPS_Validate valid h | None \<Rightarrow> None) of
          Some err \<Rightarrow> Some err
        | None \<Rightarrow> valid (serverTags s)))"

definition CORS_Validate :: "validator \<Rightarrow> bytes list \<Rightarrow> goErr option" where
  "CORS_Validate valid origins = valid [(CStrs origins, ''dive,required,url'')]"

definition Paging_Validate :: "validator \<Rightarrow> PagingConf \<Rightarrow> goErr option" where
  "Paging_Validate valid c = valid (pagingTags c)"

definition Proxy_Validate :: "validator \<Rightarrow> ProxyConf \<Rightarrow> goErr option" where
  "Proxy_Validate valid c = valid (proxyTags c)"

definition Metrics_Validate :: "validator \<Rightarrow> MetricsConf \<Rightarrow> goErr option" where
  "Metrics_Validate valid c =
     (if \<not> mt_Enabled c then None else valid [(CStrs (mt_Address c), ''dive,required,ip_addr|cidr|eq=*'')])"

definition Healthz_Validate :: "validator \<Rightarrow> HealthzConf \<Rightarrow> goErr option" where
  "Healthz_Validate valid c =
     (if \<not> hz_Enabled c then None else valid [(CStrs (hz_Address c), ''dive,required,ip_addr|cidr|eq=*'')])"

definition RateLimit_Validate :: "validator \<Rightarrow> ('f \<Rightarrow> confVal) \<Rightarrow> 'f RateLimitConfig \<Rightarrow> goErr option" where
  "RateLimit_Validate valid rateVal c = (if \<not> rl_Enabled c then None else valid (rateLimitTags rateVal c))"

fun firstErr :: "goErr option list \<Rightarrow> goErr option" where
  "firstErr [] = None"
| "firstErr (Some err # es) = Some err"
| "firstErr (None # es) = firstErr es"

definition Configuration_Validate ::
  "validator \<Rightarrow> ('f \<Rightarrow> confVal) \<Rightarrow> ('h \<Rightarrow> goErr option) \<Rightarrow> ('f, 'h) Configuration \<Rightarrow> goErr option" where
  "Configuration_Validate valid rateVal validClient c = firstErr
     [Server_Validate valid (cf_Server c), CORS_Validate valid (cf_CORS c), Proxy_Validate valid (cf_Proxy c),
      Metrics_Validate valid (cf_Metrics c), Healthz_Validate valid (cf_Healthz c),
      RateLimit_Validate valid rateVal (cf_RateLimit c), validClient (cf_HTTPClient c)]"

text \<open>The sections that are validated; the page sizes are not among them.\<close>

lemma firstErr_None: "firstErr es = None \<longleftrightarrow> (\<forall>e \<in> set es. e = None)"
  by (induction es rule: firstErr.induct) auto

lemma paging_not_validated:
  "Configuration_Validate valid rv vc (c\<lparr>cf_Paging := p\<rparr>) = Configuration_Validate valid rv vc c"
  by (simp add: Configuration_Validate_def)

section \<open>The listeners\<close>

text \<open>The URLs of the variable that can be parsed.\<close>

definition listedUrls :: "(bytes \<Rightarrow> url option) \<Rightarrow> bytes list \<Rightarrow> url list" where
  "listedUrls parse es = concat (map (\<lambda>e. case (if TrimSpace e = [] then None else parse (TrimSpace e)) of
      Some u \<Rightarrow> [u] | None \<Rightarrow> []) es)"

definition schemeIs :: "bytes \<Rightarrow> url \<Rightarrow> bool" where
  "schemeIs sch u \<longleftrightarrow> map lowerByte (u_Scheme u) = sch"

lemma listedUrls_Cons:
  "listedUrls parse (e # es) = (case (if TrimSpace e = [] then None else parse (TrimSpace e)) of
      Some u \<Rightarrow> [u] | None \<Rightarrow> []) @ listedUrls parse es"
  by (simp add: listedUrls_def)

lemma httpLoop_listed:
  "httpLoop parse es ls = (case List.find (schemeIs ''http'') (listedUrls parse es) of
     Some u \<Rightarrow> \<lparr>ls_Enabled = True, ls_Address = Hostname u, ls_Port = urlPort u (ls_Port ls)\<rparr>
   | None \<Rightarrow> if listedUrls parse es = [] then ls else ls\<lparr>ls_Enabled := False\<rparr>)"
proof (induction es arbitrary: ls)
  case (Cons e es)
  show ?case
  proof (cases "if TrimSpace e = [] then None else parse (TrimSpace e)")
    case None
    then have "httpLoop parse (e # es) ls = httpLoop parse es ls" by (simp add: Let_def split: if_splits)
    with Cons.IH None show ?thesis by (simp add: listedUrls_Cons)
  next
    case (Some u)
    then have e: "TrimSpace e \<noteq> []" "parse (TrimSpace e) = Some u" by (simp_all split: if_splits)
    show ?thesis
    proof (cases "schemeIs ''http'' u")
      case True
      with e show ?thesis by (simp add: listedUrls_Cons schemeIs_def Let_def)
    next
      case False
      with e have "httpLoop parse (e # es) ls = httpLoop parse es (ls\<lparr>ls_Enabled := False\<rparr>)"
        by (simp add: schemeIs_def Let_def)
      with Cons.IH e False show ?thesis by (simp add: listedUrls_Cons split: option.splits)
    qed
  qed
qed (simp add: listedUrls_def)

lemma httpsLoop_listed:
  "httpsLoop parse es ls = (case List.find (schemeIs ''https'') (listedUrls parse es) of
     Some u \<Rightarrow> \<lparr>ls_Enabled = True, ls_Address = Hostname u, ls_Port = urlPort u (ls_Port ls)\<rparr>
   | None \<Rightarrow> ls)"
proof (induction es arbitrary: ls)
  case (Cons e es)
  show ?case
  proof (cases "if TrimSpace e = [] then None else parse (TrimSpace e)")
    case None
    then have "httpsLoop parse (e # es) ls = httpsLoop parse es ls" by (simp add: Let_def split: if_splits)
    with Cons.IH None show ?thesis by (simp add: listedUrls_Cons)
  next
    case (Some u)
    then have e: "TrimSpace e \<noteq> []" "parse (TrimSpace e) = Some u" by (simp_all split: if_splits)
    then show ?thesis using Cons.IH by (simp add: listedUrls_Cons schemeIs_def Let_def)
  qed
qed (simp add: listedUrls_def)

section \<open>Properties\<close>

text \<open>
  C38. What the server listens on by default: with no URL in \<open>SERVER_URLS\<close> only plain HTTP on 0.0.0.0:8080; otherwise exactly
  the schemes that are listed, each at the host of the first URL of its scheme, and at its port when it has one.
\<close>

theorem server_urls:
  "let us = listedUrls parse (Split (env ''SERVER_URLS'') (CHR '';'')) in
     ServerHTTP_Bind parse env pre v = listenerDefaults (case List.find (schemeIs ''http'') us of
           Some u \<Rightarrow> \<lparr>ls_Enabled = True, ls_Address = Hostname u, ls_Port = urlPort u 8080\<rparr>
         | None \<Rightarrow> \<lparr>ls_Enabled = (us = []), ls_Address = ''0.0.0.0'', ls_Port = 8080\<rparr>) pre v \<and>
     ServerHTTPS_Bind parse env pre v = listenerDefaults (case List.find (schemeIs ''https'') us of
           Some u \<Rightarrow> \<lparr>ls_Enabled = True, ls_Address = Hostname u, ls_Port = urlPort u 4443\<rparr>
         | None \<Rightarrow> \<lparr>ls_Enabled = False, ls_Address = ''0.0.0.0'', ls_Port = 4443\<rparr>) pre v @
       [BindEnv (pre @ ''.certificate_pem_file'') ''SERVER_HTTPS_CERTIFICATE_PEM_FILE'']"
  unfolding Let_def ServerHTTP_Bind_def ServerHTTPS_Bind_def httpListener_def httpsListener_def serverUrls_def
    httpLoop_listed httpsLoop_listed
  by (cases "List.find (schemeIs ''http'') (listedUrls parse (Split (env ''SERVER_URLS'') (CHR '';'')))";
      cases "List.find (schemeIs ''https'') (listedUrls parse (Split (env ''SERVER_URLS'') (CHR '';'')))") simp_all

end
