(* ===== verification/Server_Setup.thy ===== *)
theory Server_Setup
  imports Config Route_Group
begin

text \<open>
  From the configuration to a running application: \<open>RouterOptions.ApplyConfig\<close> of \<open>src/router.go\<close>, the configuration
  of \<open>src/app.go\<close> and the assembly of a server in \<open>src/server\<close>. \<open>ready\<close> is the core library's test that a configuration is
  loaded, \<open>pip\<close> and \<open>pcidr\<close> parse addresses and networks, \<open>load\<close> is the core library's loading of a configuration.
  The middlewares that a server installs are the fields of \<open>middlewareSet\<close>. The CORS middleware holds a pointer to the options of the
  router; here it gets the options as they are when it is installed, so changes of them on a server that is already assembled are left out.
\<close>

section \<open>Applying a configuration\<close>

definition routerApplyConfig ::
  "(bytes \<Rightarrow> ip option) \<Rightarrow> (bytes \<Rightarrow> ipNet option) \<Rightarrow> ('f, 'h) Configuration \<Rightarrow> 'r RouterOptions \<Rightarrow> 'r RouterOptions" where
  "routerApplyConfig pip pcidr conf r =
     (let r = (if length (sv_Path (cf_Server conf)) > 0 then r\<lparr>ro_BasePath := sv_Path (cf_Server conf)\<rparr> else r);
          r = (if length (cf_CORS conf) > 0 then r\<lparr>ro_CORS := SetOrigins (cf_CORS conf) (ro_CORS r)\<rparr> else r);
          po = (poClear (ro_Proxy r))\<lparr>po_TrustedHeaders := px_TrustedHeaders (cf_Proxy conf), po_ForwardLimit := px_Limit (cf_Proxy conf)\<rparr>
      in r\<lparr>ro_Proxy := foldl (\<lambda>po p. poAdd pip pcidr p po) po (px_Address (cf_Proxy conf))\<rparr>)"

record ('r, 'f, 'h) webApp =
  wa_app :: "'r App"
  wa_config :: "('f, 'h) Configuration option"
  MetricsOptions :: MetricsOptions
  HealthzOptions :: TrustedSource
  RequestReadBufferSize :: int
  ResponseWriteBufferSize :: int

definition newWebApp :: "'r respOps \<Rightarrow> ('r, 'f, 'h) webApp" where
  "newWebApp ro = \<lparr>wa_app = \<lparr>app_defaultMux = newMux ro, app_routers = (\<lambda>_. newMux ro), app_switch = None\<rparr>, wa_config = None,
     MetricsOptions = defaultMetricsOptions, HealthzOptions = defaultHealthzTrustedSource,
     RequestReadBufferSize = 8192, ResponseWriteBufferSize = 8192\<rparr>"

definition appRouterOptions :: "('r, 'f, 'h) webApp \<Rightarrow> 'r RouterOptions" where
  "appRouterOptions a = m_RouterOptions (app_defaultMux (wa_app a))"

definition SetConfig ::
  "(('f, 'h) Configuration \<Rightarrow> bool) \<Rightarrow> ('f, 'h) Configuration \<Rightarrow> ('r, 'f, 'h) webApp \<Rightarrow> ('r, 'f, 'h) webApp" where
  "SetConfig ready conf a =
     (case wa_config a of
        Some c \<Rightarrow> if ready c then a else a\<lparr>wa_config := Some conf\<rparr>
      | None \<Rightarrow> a\<lparr>wa_config := Some conf\<rparr>)"

definition appConfig :: "(('f, 'h) Configuration \<Rightarrow> bool) \<Rightarrow> ('r, 'f, 'h) webApp \<Rightarrow> panicVal + ('f, 'h) Configuration" where
  "appConfig ready a =
     (case wa_config a of
        Some c \<Rightarrow> if ready c then Inr c else Inl (PanicStr ''configuration is not loaded'')
      | None \<Rightarrow> Inl (PanicStr ''configuration is not loaded''))"

definition onWebMux :: "('r mux \<Rightarrow> 'r mux) \<Rightarrow> ('r, 'f, 'h) webApp \<Rightarrow> ('r, 'f, 'h) webApp" where
  "onWebMux f a = a\<lparr>wa_app := (wa_app a)\<lparr>app_defaultMux := f (app_defaultMux (wa_app a))\<rparr>\<rparr>"

definition refillTrust ::
  "(bytes \<Rightarrow> ip option) \<Rightarrow> (bytes \<Rightarrow> ipNet option) \<Rightarrow> bool \<Rightarrow> bytes list \<Rightarrow> TrustedSource \<Rightarrow> TrustedSource" where
  "refillTrust pip pcidr enabled addrs t = (if enabled then foldl (\<lambda>t p. tsAdd pip pcidr p t) (tsClear t) addrs else t)"

definition ApplyConfig ::
  "(bytes \<Rightarrow> ip option) \<Rightarrow> (bytes \<Rightarrow> ipNet option) \<Rightarrow> (('f, 'h) Configuration \<Rightarrow> bool) \<Rightarrow> ('r, 'f, 'h) webApp \<Rightarrow>
   panicVal + ('r, 'f, 'h) webApp" where
  "ApplyConfig pip pcidr ready a =
     (case appConfig ready a of
        Inl p \<Rightarrow> Inl p
      | Inr conf \<Rightarrow>
          let a = onWebMux (\<lambda>m. m\<lparr>m_RouterOptions := routerApplyConfig pip pcidr conf (m_RouterOptions m)\<rparr>) a;
              mo = MetricsOptions a
          in Inr (a\<lparr>MetricsOptions := mo\<lparr>mo_TrustedSource :=
                      refillTrust pip pcidr (mt_Enabled (cf_Metrics conf)) (mt_Address (cf_Metrics conf)) (mo_TrustedSource mo)\<rparr>,
                    HealthzOptions :=
                      refillTrust pip pcidr (hz_Enabled (cf_Healthz conf)) (hz_Address (cf_Healthz conf)) (HealthzOptions a)\<rparr>))"

section \<open>Assembling a server\<close>

text \<open>A configuration object \<open>'c\<close> of the caller; one that is not given is a fresh one.\<close>

datatype ('c, 'r) serverOption =
    serverAppOptions "'c option"
  | disableAutoRateLimitOpt
  | rateLimitOptionsOpt "'r RateLimitOption list"

record ('c, 'r) serverOptions =
  appOpt :: "'c option"
  disableAutoRateLimit :: bool
  rateLimitOptions :: "'r RateLimitOption list"

fun applyServerOption :: "('c, 'r) serverOption \<Rightarrow> ('c, 'r) serverOptions \<Rightarrow> ('c, 'r) serverOptions" where
  "applyServerOption (serverAppOptions o') opt = opt\<lparr>appOpt := o'\<rparr>"
| "applyServerOption disableAutoRateLimitOpt opt = opt\<lparr>disableAutoRateLimit := True\<rparr>"
| "applyServerOption (rateLimitOptionsOpt o') opt = opt\<lparr>rateLimitOptions := rateLimitOptions opt @ o'\<rparr>"

record ('c, 'r, 'f, 'h) serverLib =
  sl_ro :: "'r respOps"
  sl_newConf :: 'c
  sl_configurable :: "'c \<Rightarrow> bool"
  sl_load :: "'c \<Rightarrow> goErr + ('f, 'h) Configuration"
  sl_ready :: "('f, 'h) Configuration \<Rightarrow> bool"
  sl_pip :: "bytes \<Rightarrow> ip option"
  sl_pcidr :: "bytes \<Rightarrow> ipNet option"

definition newApp :: "('c, 'r, 'f, 'h) serverLib \<Rightarrow> 'c option \<Rightarrow> goErr + ('r, 'f, 'h) webApp" where
  "newApp sl opt =
     (let c = (case opt of None \<Rightarrow> sl_newConf sl | Some c \<Rightarrow> c) in
      if \<not> sl_configurable sl c then Inl (plainErr ''configuration must implement Configurable interface'')
      else case sl_load sl c of
        Inl err \<Rightarrow> Inl err
      | Inr conf \<Rightarrow> Inr (SetConfig (sl_ready sl) conf (newWebApp (sl_ro sl))))"

record ('r, 'f) middlewareSet =
  mw_RealIP :: "'r RequestHandlerFunc"
  mw_RequestLogger :: "'r RequestHandlerFunc"
  mw_Metrics :: "bytes \<Rightarrow> 'r RequestHandlerFunc"
  mw_CORS :: "CORSOptions \<Rightarrow> 'r RequestHandlerFunc"
  mw_RateLimit :: "'f RateLimitConfig \<Rightarrow> 'r RateLimitOption list \<Rightarrow> 'r RequestHandlerFunc"

definition installMiddlewares ::
  "('r, 'f) middlewareSet \<Rightarrow> ('c, 'r) serverOptions \<Rightarrow> ('f, 'h) Configuration \<Rightarrow> ('r, 'f, 'h) webApp \<Rightarrow> ('r, 'f, 'h) webApp" where
  "installMiddlewares mw opt conf a =
     (let a = onWebMux (UsePriority [mw_RealIP mw]) a;
          a = onWebMux (UsePriority [mw_RequestLogger mw]) a;
          a = (if mt_Enabled (cf_Metrics conf) then onWebMux (Use [mw_Metrics mw (mt_Path (cf_Metrics conf))]) a else a);
          a = onWebMux (Use [mw_CORS mw (ro_CORS (appRouterOptions a))]) a
      in if \<not> disableAutoRateLimit opt \<and> rl_Enabled (cf_RateLimit conf)
         then onWebMux (Use [mw_RateLimit mw (cf_RateLimit conf) (rateLimitOptions opt)]) a else a)"

datatype ('r, 'f, 'h) newServer = ServerReady "('r, 'f, 'h) webApp" | ServerError goErr | ServerPanic panicVal

definition serverNew ::
  "('c, 'r, 'f, 'h) serverLib \<Rightarrow> ('r, 'f) middlewareSet \<Rightarrow> ('c, 'r) serverOption list \<Rightarrow> ('r, 'f, 'h) newServer" where
  "serverNew sl mw opts =
     (let opt = foldl (\<lambda>opt o'. applyServerOption o' opt) \<lparr>appOpt = None, disableAutoRateLimit = False, rateLimitOptions = []\<rparr> opts in
      case newApp sl (appOpt opt) of
        Inl err \<Rightarrow> ServerError err
      | Inr a \<Rightarrow> (case ApplyConfig (sl_pip sl) (sl_pcidr sl) (sl_ready sl) a of
          Inl p \<Rightarrow> ServerPanic p
        | Inr a \<Rightarrow> (case appConfig (sl_ready sl) a of
            Inl p \<Rightarrow> ServerPanic p
          | Inr conf \<Rightarrow> ServerReady (installMiddlewares mw opt conf a))))"

section \<open>The health command\<close>

text \<open>
  The URL that the command asks, and whether it skips the verification of the certificate; nothing if it follows a nil pointer.
\<close>

definition healthURL :: "listener option \<Rightarrow> ServerHTTPS option \<Rightarrow> bytes \<Rightarrow> (bytes \<times> bool) option" where
  "healthURL http https healthzPath =
     (let fmt = (\<lambda>scheme addr port insecure.
            let addr = (if addr = [] \<or> addr = ''0.0.0.0'' then ''localhost'' else addr)
            in (scheme @ ''://'' @ addr @ '':'' @ showInt port @ healthzPath, insecure)) in
      case http of
        None \<Rightarrow> None
      | Some h \<Rightarrow>
          if \<not> ls_Enabled h
          then (case https of None \<Rightarrow> None | Some s \<Rightarrow> Some (fmt ''https'' (ls_Address s) (ls_Port s) True))
          else Some (fmt ''http'' (ls_Address h) (ls_Port h) False))"

text \<open>\<open>get\<close> is the request that the client makes; the result of the command is its exit code.\<close>

definition HealthCommand ::
  "('c, 'r, 'f, 'h) serverLib \<Rightarrow> (bytes \<times> bool \<Rightarrow> goErr option) \<Rightarrow> bytes \<Rightarrow> 'c option \<Rightarrow> panicVal + nat" where
  "HealthCommand sl get healthzPath opt =
     (case newApp sl opt of
        Inl err \<Rightarrow> Inr 1
      | Inr a \<Rightarrow> (case appConfig (sl_ready sl) a of
          Inl p \<Rightarrow> Inl p
        | Inr c \<Rightarrow> (case healthURL (sv_HTTP (cf_Server c)) (sv_HTTPS (cf_Server c)) healthzPath of
            None \<Rightarrow> Inl nilDeref
          | Some url \<Rightarrow> (case get url of Some err \<Rightarrow> Inr 1 | None \<Rightarrow> Inr 0))))"

text \<open>A server that listens on every address over plain HTTP is asked on the local host.\<close>

lemma health_command_local:
  assumes "newApp sl opt = Inr a" "appConfig (sl_ready sl) a = Inr c" "sv_HTTP (cf_Server c) = Some h" "ls_Enabled h"
    and "ls_Address h = ''0.0.0.0''"
  shows "HealthCommand sl get path opt =
    Inr (if get (''http://localhost:'' @ showInt (ls_Port h) @ path, False) = None then 0 else 1)"
  using assms by (simp add: HealthCommand_def healthURL_def split: option.splits)

section \<open>The assembled server\<close>

lemma installMiddlewares_frame:
  "MetricsOptions (installMiddlewares mw opt conf a) = MetricsOptions a"
  "HealthzOptions (installMiddlewares mw opt conf a) = HealthzOptions a"
  "appRouterOptions (installMiddlewares mw opt conf a) = appRouterOptions a"
  by (simp_all add: installMiddlewares_def Let_def onWebMux_def appRouterOptions_def Use_def UsePriority_def)

lemma installMiddlewares_chain:
  assumes "middlewares (app_defaultMux (wa_app a)) = []" "priorityMiddlewares (app_defaultMux (wa_app a)) = []"
  shows "Chain (app_defaultMux (wa_app (installMiddlewares mw opt conf a))) h =
    mw_RealIP mw (mw_RequestLogger mw
      ((if mt_Enabled (cf_Metrics conf) then mw_Metrics mw (mt_Path (cf_Metrics conf)) else id)
        (mw_CORS mw (ro_CORS (appRouterOptions a))
          ((if \<not> disableAutoRateLimit opt \<and> rl_Enabled (cf_RateLimit conf)
            then mw_RateLimit mw (cf_RateLimit conf) (rateLimitOptions opt) else id) h))))"
  using assms
  by (auto simp: installMiddlewares_def Let_def onWebMux_def appRouterOptions_def Use_def UsePriority_def Chain_def)

lemma ApplyConfig_ready:
  assumes "wa_config a = Some conf" "ready conf"
  shows "\<exists>a'. ApplyConfig pip pcidr ready a = Inr a' \<and> wa_config a' = Some conf \<and>
    middlewares (app_defaultMux (wa_app a')) = middlewares (app_defaultMux (wa_app a)) \<and>
    priorityMiddlewares (app_defaultMux (wa_app a')) = priorityMiddlewares (app_defaultMux (wa_app a)) \<and>
    appRouterOptions a' = routerApplyConfig pip pcidr conf (appRouterOptions a) \<and>
    mo_TrustedSource (MetricsOptions a') = refillTrust pip pcidr (mt_Enabled (cf_Metrics conf)) (mt_Address (cf_Metrics conf)) (mo_TrustedSource (MetricsOptions a)) \<and>
    HealthzOptions a' = refillTrust pip pcidr (hz_Enabled (cf_Healthz conf)) (hz_Address (cf_Healthz conf)) (HealthzOptions a)"
  using assms by (simp add: ApplyConfig_def appConfig_def Let_def onWebMux_def appRouterOptions_def)

lemma refill_trusted:
  "IsTrusted (refillTrust pip pcidr enabled addrs t) ip \<longleftrightarrow>
     (if enabled then \<exists>s \<in> set addrs. trustEntry pip pcidr s ip else IsTrusted t ip)"
  by (simp add: refillTrust_def source.trusted_from_clear)

lemma routerApplyConfig_sel:
  "ro_BasePath (routerApplyConfig pip pcidr conf r) =
     (if sv_Path (cf_Server conf) \<noteq> [] then sv_Path (cf_Server conf) else ro_BasePath r)"
  "ro_CORS (routerApplyConfig pip pcidr conf r) =
     (if cf_CORS conf \<noteq> [] then SetOrigins (cf_CORS conf) (ro_CORS r) else ro_CORS r)"
  by (simp_all add: routerApplyConfig_def Let_def)

lemma applied_proxy:
  assumes "ip \<noteq> []"
  shows "IsTrustedProxy (ro_Proxy (routerApplyConfig pip pcidr conf r)) (TCPAddr ip) \<longleftrightarrow>
     (\<exists>s \<in> set (px_Address (cf_Proxy conf)). trustEntry pip pcidr s ip)"
proof -
  have h: "IsTrustedProxy (p\<lparr>po_TrustedHeaders := hs, po_ForwardLimit := l\<rparr>) adr = IsTrustedProxy p adr" for p hs l adr
    by (simp add: IsTrustedProxy_def split: option.splits)
  have c: "poAdd pip pcidr s (p\<lparr>po_TrustedHeaders := hs, po_ForwardLimit := l\<rparr>) =
      (poAdd pip pcidr s p)\<lparr>po_TrustedHeaders := hs, po_ForwardLimit := l\<rparr>" for s p hs l
    by (simp add: poAdd_def split: option.splits)
  have "foldl (\<lambda>po s. poAdd pip pcidr s po) (p\<lparr>po_TrustedHeaders := hs, po_ForwardLimit := l\<rparr>) es =
      (foldl (\<lambda>po s. poAdd pip pcidr s po) p es)\<lparr>po_TrustedHeaders := hs, po_ForwardLimit := l\<rparr>" for p hs l es
    by (induction es arbitrary: p) (simp_all only: foldl.simps c)
  then show ?thesis
    using assms by (simp add: routerApplyConfig_def Let_def h proxy.trusted_from_clear proxyEntry_def)
qed

section \<open>Properties\<close>

text \<open>
  C37. A server made from a configuration that loads runs every handler inside RealIP, the request logger, the metrics if
  enabled, CORS and the rate limiter if enabled and not switched off, in this order; it trusts exactly the
  configured proxies, shows the enabled health and metrics endpoints to exactly the configured addresses, and allows
  exactly the configured origins, if any.
\<close>

theorem server_assembled:
  assumes "opt = foldl (\<lambda>opt o'. applyServerOption o' opt) \<lparr>appOpt = None, disableAutoRateLimit = False, rateLimitOptions = []\<rparr> opts"
    and "c = (case appOpt opt of None \<Rightarrow> sl_newConf sl | Some c \<Rightarrow> c)"
    and "sl_configurable sl c" "sl_load sl c = Inr conf" "sl_ready sl conf"
  shows "\<exists>a. serverNew sl mw opts = ServerReady a \<and>
    (\<forall>h. Chain (app_defaultMux (wa_app a)) h = mw_RealIP mw (mw_RequestLogger mw
      ((if mt_Enabled (cf_Metrics conf) then mw_Metrics mw (mt_Path (cf_Metrics conf)) else id)
        (mw_CORS mw (ro_CORS (appRouterOptions a))
          ((if \<not> disableAutoRateLimit opt \<and> rl_Enabled (cf_RateLimit conf)
            then mw_RateLimit mw (cf_RateLimit conf) (rateLimitOptions opt) else id) h))))) \<and>
    (\<forall>ip. ip \<noteq> [] \<longrightarrow> (IsTrustedProxy (ro_Proxy (appRouterOptions a)) (TCPAddr ip) \<longleftrightarrow>
       (\<exists>s \<in> set (px_Address (cf_Proxy conf)). trustEntry (sl_pip sl) (sl_pcidr sl) s ip))) \<and>
    (\<forall>ip. IsTrusted (HealthzOptions a) ip \<longleftrightarrow> (if hz_Enabled (cf_Healthz conf)
       then \<exists>s \<in> set (hz_Address (cf_Healthz conf)). trustEntry (sl_pip sl) (sl_pcidr sl) s ip
       else IsTrusted defaultHealthzTrustedSource ip)) \<and>
    (\<forall>ip. IsTrusted (mo_TrustedSource (MetricsOptions a)) ip \<longleftrightarrow> (if mt_Enabled (cf_Metrics conf)
       then \<exists>s \<in> set (mt_Address (cf_Metrics conf)). trustEntry (sl_pip sl) (sl_pcidr sl) s ip
       else IsTrusted (mo_TrustedSource defaultMetricsOptions) ip)) \<and>
    (cf_CORS conf \<noteq> [] \<longrightarrow> (\<forall>origin. ValidOrigin (ro_CORS (appRouterOptions a)) origin \<longleftrightarrow>
       ''*'' \<in> set (cf_CORS conf) \<or> origin \<in> set (cf_CORS conf)))"
proof -
  let ?a0 = "SetConfig (sl_ready sl) conf (newWebApp (sl_ro sl))"
  have a0: "newApp sl (appOpt opt) = Inr ?a0" using assms(2-4) by (simp add: newApp_def)
  have c0: "wa_config ?a0 = Some conf" "middlewares (app_defaultMux (wa_app ?a0)) = []"
    "priorityMiddlewares (app_defaultMux (wa_app ?a0)) = []"
    "mo_TrustedSource (MetricsOptions ?a0) = mo_TrustedSource defaultMetricsOptions"
    "HealthzOptions ?a0 = defaultHealthzTrustedSource"
    by (simp_all add: SetConfig_def newWebApp_def newMux_def)
  obtain a1 where a1: "ApplyConfig (sl_pip sl) (sl_pcidr sl) (sl_ready sl) ?a0 = Inr a1" "wa_config a1 = Some conf"
    "middlewares (app_defaultMux (wa_app a1)) = []" "priorityMiddlewares (app_defaultMux (wa_app a1)) = []"
    "appRouterOptions a1 = routerApplyConfig (sl_pip sl) (sl_pcidr sl) conf (appRouterOptions ?a0)"
    "mo_TrustedSource (MetricsOptions a1) = refillTrust (sl_pip sl) (sl_pcidr sl) (mt_Enabled (cf_Metrics conf))
       (mt_Address (cf_Metrics conf)) (mo_TrustedSource defaultMetricsOptions)"
    "HealthzOptions a1 = refillTrust (sl_pip sl) (sl_pcidr sl) (hz_Enabled (cf_Healthz conf))
       (hz_Address (cf_Healthz conf)) defaultHealthzTrustedSource"
    using ApplyConfig_ready [of ?a0 conf "sl_ready sl" "sl_pip sl" "sl_pcidr sl", OF c0(1) assms(5)] unfolding c0(2-5) by blast
  have "appConfig (sl_ready sl) a1 = Inr conf" using a1(2) assms(5) by (simp add: appConfig_def)
  with a0 a1(1) have N: "serverNew sl mw opts = ServerReady (installMiddlewares mw opt conf a1)"
    unfolding serverNew_def Let_def assms(1) [symmetric] by simp
  have O: "cf_CORS conf \<noteq> [] \<longrightarrow> (\<forall>origin. ValidOrigin (ro_CORS (appRouterOptions a1)) origin \<longleftrightarrow>
       ''*'' \<in> set (cf_CORS conf) \<or> origin \<in> set (cf_CORS conf))"
    using cors_origins a1(5) by (simp add: routerApplyConfig_sel)
  show ?thesis
    by (intro exI [of _ "installMiddlewares mw opt conf a1"] conjI allI impI)
      (use N O installMiddlewares_chain [OF a1(3,4), of mw opt conf] applied_proxy a1(5) in
        \<open>simp_all add: installMiddlewares_frame a1(6,7) refill_trusted\<close>)
qed

definition demoConf :: "(nat, unit) Configuration" where
  "demoConf = \<lparr>cf_Server = \<lparr>sv_HTTP = None, sv_HTTPS = None, sv_Path = ''/'', ReadTimeout = 0, WriteTimeout = 0, IdleTimeout = 0,
       MaxRequestBodySize = 0, ShutdownTimeout = 0\<rparr>, cf_CORS = [''https://a.example''],
     cf_Paging = \<lparr>pg_DefaultPageSize = 20, pg_MaxPageSize = 100\<rparr>,
     cf_Proxy = \<lparr>px_Address = [''gw''], px_Limit = 1, px_TrustedHeaders = []\<rparr>,
     cf_Metrics = \<lparr>mt_Enabled = True, mt_Path = ''/metrics'', mt_Address = [''ops''], mt_SkipPaths = []\<rparr>,
     cf_Healthz = \<lparr>hz_Enabled = True, hz_Address = [''ops'']\<rparr>,
     cf_RateLimit = \<lparr>rl_Enabled = False, rl_Strategy = ''fixed-window'', rl_Limit = 60, rl_Window = 60, rl_Rate = 1, rl_Burst = 60, rl_WaitLimit = 0\<rparr>,
     cf_HTTPClient = ()\<rparr>"

definition demoLib :: "((nat, unit) Configuration, assocResp, nat, unit) serverLib" where
  "demoLib = \<lparr>sl_ro = assocOps, sl_newConf = demoConf, sl_configurable = (\<lambda>_. True), sl_load = Inr, sl_ready = (\<lambda>_. True),
     sl_pip = (\<lambda>s. if s = ''gw'' then Some [10, 0, 0, 1] else if s = ''ops'' then Some [10, 0, 0, 2] else None), sl_pcidr = (\<lambda>_. None)\<rparr>"

definition demoMiddlewares :: "(assocResp, nat) middlewareSet" where
  "demoMiddlewares = \<lparr>mw_RealIP = id, mw_RequestLogger = id, mw_Metrics = (\<lambda>_. id),
     mw_CORS = (\<lambda>opts h. CORS assocOps opts (Some h)), mw_RateLimit = (\<lambda>_ _. id)\<rparr>"

theorem server_assembled_witness:
  "\<exists>a. serverNew demoLib demoMiddlewares [] = ServerReady a \<and>
     IsTrustedProxy (ro_Proxy (appRouterOptions a)) (TCPAddr [10, 0, 0, 1]) \<and>
     \<not> IsTrusted (HealthzOptions a) [10, 0, 0, 1] \<and>
     (\<forall>h. Chain (app_defaultMux (wa_app a)) h = CORS assocOps (ro_CORS (appRouterOptions a)) (Some h))"
proof -
  let ?opt = "foldl (\<lambda>opt o'. applyServerOption o' opt) \<lparr>appOpt = None, disableAutoRateLimit = False, rateLimitOptions = []\<rparr>
    ([] :: ((nat, unit) Configuration, assocResp) serverOption list)"
  have c: "demoConf = (case appOpt ?opt of None \<Rightarrow> sl_newConf demoLib | Some c \<Rightarrow> c)" by (simp add: demoLib_def)
  have l: "sl_configurable demoLib demoConf" "sl_load demoLib demoConf = Inr demoConf" "sl_ready demoLib demoConf"
    by (simp_all add: demoLib_def)
  have e: "trustEntry (sl_pip demoLib) (sl_pcidr demoLib) ''gw'' [10, 0, 0, 1]"
    "\<not> trustEntry (sl_pip demoLib) (sl_pcidr demoLib) ''ops'' [10, 0, 0, 1]"
    by (simp_all add: trustEntry_def demoLib_def ipEqual_def To4_def)
  have f: "px_Address (cf_Proxy demoConf) = [''gw'']" "hz_Enabled (cf_Healthz demoConf)" "hz_Address (cf_Healthz demoConf) = [''ops'']"
    "mt_Enabled (cf_Metrics demoConf)" "\<not> rl_Enabled (cf_RateLimit demoConf)" by (simp_all add: demoConf_def)
  show ?thesis
    using server_assembled [OF refl c l, of demoMiddlewares] e f by (auto simp: demoMiddlewares_def)
qed

end
