(* ===== verification/Context_State.thy ===== *)
theory Context_State
  imports Error_Handler
begin

text \<open>
  The whole state of a request context and its reuse: \<open>acquireCtx\<close>, \<open>releaseCtx\<close> and \<open>reset\<close> of
  \<open>src/request.go\<close>, the logger of \<open>src/logger.go\<close>, the context interface of \<open>src/context.go\<close> and the body access of
  \<open>src/body.go\<close>. \<open>ctxObj\<close> has every field of the Go structure that is not a pointer back to it; \<open>'q\<close> is the request
  context of the server library, \<open>'m\<close> the router, \<open>'l\<close> the logger and \<open>'f\<close> an uploaded file.
\<close>

section \<open>Fields of the logger\<close>

text \<open>A field has a key and, when it is a string field, its text; other values are opaque.\<close>

record zapField =
  zf_Key :: bytes
  zf_String :: "bytes option"
  zf_Other :: nat

abbreviation zapString :: "bytes \<Rightarrow> bytes \<Rightarrow> zapField" where
  "zapString k v \<equiv> \<lparr>zf_Key = k, zf_String = Some v, zf_Other = 0\<rparr>"

text \<open>The inner loop of \<open>AddLogFields\<close> and \<open>Log\<close>: the first field of the key is replaced, a new one appended.\<close>

fun setField :: "zapField \<Rightarrow> zapField list \<Rightarrow> zapField list" where
  "setField field [] = [field]"
| "setField field (f # fs) = (if zf_Key f = zf_Key field then field # fs else f # setField field fs)"

section \<open>The context interface of the standard library\<close>

text \<open>
  A standard context is what its four methods answer; channels and deadlines are numbers. The value found under a key
  may be the azugo context itself, which is known by its address.
\<close>

datatype ctxKey = requestContextKey | OtherKey bytes

datatype ctxVal = SelfVal nat | OtherVal bytes

record goCtx =
  gc_Deadline :: "int option"
  gc_Done :: "nat option"
  gc_Err :: "goErr option"
  gc_Value :: "ctxKey \<Rightarrow> ctxVal option"

section \<open>The context object\<close>

record ('q, 'm, 'l, 'f) ctxObj =
  x_context :: "'q option"
  x_reqCtx :: "goCtx option"
  x_method :: bytes
  x_path :: bytes
  x_routerPath :: bytes
  x_requestID :: bytes
  x_requestIDStr :: bytes
  x_mux :: "'m option"
  x_user :: "userObj option"
  x_loggerCore :: "'l option"
  x_loggerFields :: "zapField list"
  x_logger :: "'l option"
  x_alwaysHeaders :: "(bytes \<times> bytes) list"
  x_form :: "'f form"

definition nilRequestID :: bytes where
  "nilRequestID = replicate 16 (CHR 0x00)"

definition newCtx :: "('q, 'm, 'l, 'f) ctxObj" where
  "newCtx = \<lparr>x_context = None, x_reqCtx = None, x_method = [], x_path = [], x_routerPath = [], x_requestID = nilRequestID,
     x_requestIDStr = [], x_mux = None, x_user = None, x_loggerCore = None, x_loggerFields = [], x_logger = None,
     x_alwaysHeaders = [], x_form = NilArgs\<rparr>"

text \<open>\<open>Reset\<close> of the form: only a multipart form has files to remove from the request.\<close>

fun formReset :: "('q \<Rightarrow> 'q) \<Rightarrow> 'f form \<Rightarrow> 'q option \<Rightarrow> 'q option" where
  "formReset removeFiles (MultiPartArgs m) q = map_option removeFiles q"
| "formReset removeFiles _ q = q"

definition resetCtx :: "('q, 'm, 'l, 'f) ctxObj \<Rightarrow> ('q, 'm, 'l, 'f) ctxObj" where
  "resetCtx c = c\<lparr>x_form := NilArgs, x_user := None, x_context := None, x_reqCtx := None, x_mux := None,
     x_loggerFields := [], x_loggerCore := None, x_logger := None, x_requestID := nilRequestID, x_requestIDStr := [],
     x_alwaysHeaders := []\<rparr>"

text \<open>The request context that is left to the server library, and the object that goes back to the pool.\<close>

definition releaseCtx :: "('q \<Rightarrow> 'q) \<Rightarrow> ('q, 'm, 'l, 'f) ctxObj \<Rightarrow> 'q option \<times> ('q, 'm, 'l, 'f) ctxObj" where
  "releaseCtx removeFiles c = (formReset removeFiles (x_form c) (x_context c), resetCtx c)"

definition ReplaceLogger :: "'l option \<Rightarrow> ('q, 'm, 'l, 'f) ctxObj \<Rightarrow> ('q, 'm, 'l, 'f) ctxObj" where
  "ReplaceLogger logger c = (case logger of None \<Rightarrow> c | Some l \<Rightarrow> c\<lparr>x_loggerCore := Some l, x_logger := None\<rparr>)"

text \<open>
  \<open>stamp\<close> writes the time into an identifier and \<open>entropy\<close> the random part. The pool gives an object or nothing.
\<close>

record ('r, 'l, 'f) acquireEnv =
  aq_log :: "'l option"
  aq_stamp :: "bytes \<Rightarrow> bytes"
  aq_entropy :: "bytes \<Rightarrow> bytes"
  aq_PostArgs :: "fhReq \<Rightarrow> args"
  aq_MultipartForm :: "fhReq \<Rightarrow> 'f multipartForm option"

text \<open>The method and the path are read if there is a request context; a form is looked for by the method that the object has then.\<close>

definition attachForm ::
  "('r, 'l, 'f) acquireEnv \<Rightarrow> fhReq option \<Rightarrow> ('r reqCtx, 'm, 'l, 'f) ctxObj \<Rightarrow> panicVal + ('r reqCtx, 'm, 'l, 'f) ctxObj" where
  "attachForm ae rqo ctx =
     (if x_method ctx \<in> {MethodPost, MethodPut, MethodPatch, MethodQuery} then
        (case rqo of
           None \<Rightarrow> Inl nilDeref
         | Some rq \<Rightarrow>
             if HasPrefix (rq_ContentType rq) ContentTypeFormURLEncoded then Inr (ctx\<lparr>x_form := PostArgs (aq_PostArgs ae rq)\<rparr>)
             else if HasPrefix (rq_ContentType rq) ContentTypeMultipartFormData then
               (case aq_MultipartForm ae rq of Some form \<Rightarrow> Inr (ctx\<lparr>x_form := MultiPartArgs form\<rparr>) | None \<Rightarrow> Inr ctx)
             else Inr ctx)
      else Inr ctx)"

definition acquirePooled ::
  "('r, 'l, 'f) acquireEnv \<Rightarrow> 'm \<Rightarrow> bytes \<Rightarrow> 'r reqCtx option \<Rightarrow> ('r reqCtx, 'm, 'l, 'f) ctxObj option \<Rightarrow>
   panicVal + ('r reqCtx, 'm, 'l, 'f) ctxObj" where
  "acquirePooled ae m path c v =
     (let rqo = map_option fc_Request c;
          ctx = (case v of Some p \<Rightarrow> p | None \<Rightarrow> newCtx);
          ctx = (case rqo of Some rq \<Rightarrow> ctx\<lparr>x_method := rq_Method rq, x_path := rq_Path rq\<rparr> | None \<Rightarrow> ctx);
          ctx = ctx\<lparr>x_routerPath := path\<rparr>
      in case attachForm ae rqo ctx of
           Inl p \<Rightarrow> Inl p
         | Inr ctx \<Rightarrow>
             let ctx = ctx\<lparr>x_requestID := aq_entropy ae (aq_stamp ae (x_requestID ctx))\<rparr>;
                 ctx = ctx\<lparr>x_context := c\<rparr>;
                 ctx = ctx\<lparr>x_mux := Some m\<rparr>;
                 ctx = ctx\<lparr>x_user := Some anonymousUser\<rparr>
             in Inr (ReplaceLogger (aq_log ae) ctx))"

definition requestIDString :: "(bytes \<Rightarrow> bytes) \<Rightarrow> ('q, 'm, 'l, 'f) ctxObj \<Rightarrow> bytes \<times> ('q, 'm, 'l, 'f) ctxObj" where
  "requestIDString ulidString c =
     (let c = (if x_requestIDStr c = [] then c\<lparr>x_requestIDStr := ulidString (x_requestID c)\<rparr> else c)
      in (x_requestIDStr c, c))"

section \<open>The logger\<close>

definition AddLogFields :: "zapField list \<Rightarrow> ('q, 'm, 'l, 'f) ctxObj \<Rightarrow> ('q, 'm, 'l, 'f) ctxObj" where
  "AddLogFields fds c =
     (if length fds = 0 then c
      else c\<lparr>x_loggerFields := foldl (\<lambda>fs f. setField f fs) (x_loggerFields c) fds, x_logger := None\<rparr>)"

definition LogFields :: "('q, 'm, 'l, 'f) ctxObj \<Rightarrow> zapField list" where
  "LogFields c = x_loggerFields c"

text \<open>The path without the base path, unless nothing would be left.\<close>

definition cleanedPath :: "bytes \<Rightarrow> bytes \<Rightarrow> bytes" where
  "cleanedPath basePath path =
     (if length basePath > 0 \<and> length basePath < length path \<and> basePath = take (length basePath) path
      then drop (length basePath) path else path)"

definition baseLoggerFields ::
  "(bytes \<Rightarrow> bytes) \<Rightarrow> (ip option \<Rightarrow> bytes) \<Rightarrow> bytes \<Rightarrow> ('r reqCtx, 'm, 'l, 'f) ctxObj \<Rightarrow> zapField list \<Rightarrow>
   zapField list \<times> ('r reqCtx, 'm, 'l, 'f) ctxObj" where
  "baseLoggerFields ulidString ipString basePath c fds =
     (let (reqid, c) = requestIDString ulidString c;
          addr = (case x_context c of Some q \<Rightarrow> contextIP (rq_RemoteAddr (fc_Request q)) | None \<Rightarrow> None)
      in (fds @ [zapString ''http.request.id'' reqid, zapString ''http.request.method'' (x_method c),
            zapString ''url.path'' (cleanedPath basePath (x_path c)), zapString ''source.ip'' (ipString addr)], c))"

text \<open>\<open>withFields\<close> derives a logger with fields; \<open>appLog\<close> is the logger of the application.\<close>

definition ctxLog ::
  "(bytes \<Rightarrow> bytes) \<Rightarrow> (ip option \<Rightarrow> bytes) \<Rightarrow> bytes \<Rightarrow> 'l \<Rightarrow> ('l \<Rightarrow> zapField list \<Rightarrow> 'l) \<Rightarrow> ('r reqCtx, 'm, 'l, 'f) ctxObj \<Rightarrow>
   'l \<times> ('r reqCtx, 'm, 'l, 'f) ctxObj" where
  "ctxLog ulidString ipString basePath appLog withFields c =
     (case x_logger c of
        Some l \<Rightarrow> (l, c)
      | None \<Rightarrow>
          let (core, c) = (case x_loggerCore c of Some l \<Rightarrow> (l, c) | None \<Rightarrow> (appLog, c\<lparr>x_loggerCore := Some appLog\<rparr>));
              (fds, c) = (if x_context c \<noteq> None then baseLoggerFields ulidString ipString basePath c [] else ([], c));
              fds = foldl (\<lambda>fs f. setField f fs) fds (x_loggerFields c);
              l = withFields core fds
          in (l, c\<lparr>x_logger := Some l\<rparr>))"

section \<open>The effective context\<close>

definition SetContext :: "goCtx option \<Rightarrow> ('q, 'm, 'l, 'f) ctxObj \<Rightarrow> ('q, 'm, 'l, 'f) ctxObj" where
  "SetContext ctx c = c\<lparr>x_reqCtx := ctx\<rparr>"

text \<open>What an extension answers: nil, the context itself or another context.\<close>

datatype extAnswer = ExtNil | ExtSelf | ExtOther goCtx

definition effectiveContext :: "('q \<Rightarrow> goCtx) \<Rightarrow> extAnswer option \<Rightarrow> ('q, 'm, 'l, 'f) ctxObj \<Rightarrow> 'q \<Rightarrow> goCtx" where
  "effectiveContext base ext c q =
     (case x_reqCtx c of
        Some ctx \<Rightarrow> ctx
      | None \<Rightarrow> (case ext of Some (ExtOther ce) \<Rightarrow> ce | _ \<Rightarrow> base q))"

definition ctxDeadline :: "('q \<Rightarrow> goCtx) \<Rightarrow> extAnswer option \<Rightarrow> ('q, 'm, 'l, 'f) ctxObj option \<Rightarrow> int option" where
  "ctxDeadline base ext c = (case c of None \<Rightarrow> None | Some c \<Rightarrow>
     (case x_context c of None \<Rightarrow> None | Some q \<Rightarrow> gc_Deadline (effectiveContext base ext c q)))"

definition ctxDone :: "('q \<Rightarrow> goCtx) \<Rightarrow> extAnswer option \<Rightarrow> ('q, 'm, 'l, 'f) ctxObj option \<Rightarrow> nat option" where
  "ctxDone base ext c = (case c of None \<Rightarrow> None | Some c \<Rightarrow>
     (case x_context c of None \<Rightarrow> None | Some q \<Rightarrow> gc_Done (effectiveContext base ext c q)))"

definition ctxErr :: "('q \<Rightarrow> goCtx) \<Rightarrow> extAnswer option \<Rightarrow> ('q, 'm, 'l, 'f) ctxObj option \<Rightarrow> goErr option" where
  "ctxErr base ext c = (case c of None \<Rightarrow> None | Some c \<Rightarrow>
     (case x_context c of None \<Rightarrow> None | Some q \<Rightarrow> gc_Err (effectiveContext base ext c q)))"

text \<open>\<open>self\<close> is the address of the context.\<close>

definition ctxValue ::
  "('q \<Rightarrow> goCtx) \<Rightarrow> extAnswer option \<Rightarrow> nat \<Rightarrow> ('q, 'm, 'l, 'f) ctxObj option \<Rightarrow> ctxKey \<Rightarrow> ctxVal option" where
  "ctxValue base ext self c key =
     (case c of None \<Rightarrow> None | Some c \<Rightarrow>
      (case x_context c of None \<Rightarrow> None | Some q \<Rightarrow>
       if key = requestContextKey then Some (SelfVal self)
       else (case x_reqCtx c of
          Some ctx \<Rightarrow> gc_Value ctx key
        | None \<Rightarrow> (case ext of
            Some (ExtOther ce) \<Rightarrow> (case gc_Value ce key of Some v \<Rightarrow> Some v | None \<Rightarrow> gc_Value (base q) key)
          | _ \<Rightarrow> gc_Value (base q) key))))"

text \<open>Any context: nil, an azugo context, or another one, which may carry a request context and answers values.\<close>

datatype anyCtx = NilCtx | AzugoCtx nat | OtherCtx "anyCtx option" "ctxKey \<Rightarrow> ctxVal option"

definition carried :: "anyCtx \<Rightarrow> anyCtx" where
  "carried ctx = (case ctx of OtherCtx (Some inner) _ \<Rightarrow> inner | _ \<Rightarrow> ctx)"

definition RequestContext :: "anyCtx \<Rightarrow> nat option" where
  "RequestContext ctx =
     (case carried ctx of
        NilCtx \<Rightarrow> None
      | AzugoCtx p \<Rightarrow> Some p
      | OtherCtx _ val \<Rightarrow> (case val requestContextKey of Some (SelfVal p) \<Rightarrow> Some p | _ \<Rightarrow> None))"

section \<open>The body\<close>

text \<open>
  \<open>decode\<close> unmarshals into the target \<open>'v\<close> and may leave it changed on an error; \<open>validate\<close> is the \<open>Validate\<close>
  method of the target, if it has one.
\<close>

definition bodyDecode :: "(numErr \<Rightarrow> bytes) \<Rightarrow> (bytes \<Rightarrow> 'v \<Rightarrow> 'v \<times> bytes option) \<Rightarrow> bytes \<Rightarrow> 'v \<Rightarrow> 'v \<times> goErr option" where
  "bodyDecode et decode buf v =
     (if length buf = 0 then (v, Some (reqGoErr et (ParamRequiredError ''body'')))
      else case decode buf v of
        (v, Some err) \<Rightarrow> (v, Some (reqGoErr et (BadRequestError ''invalid content'' (Some err))))
      | (v, None) \<Rightarrow> (v, None))"

definition bodyJSON ::
  "(numErr \<Rightarrow> bytes) \<Rightarrow> (bytes \<Rightarrow> 'v \<Rightarrow> 'v \<times> bytes option) \<Rightarrow> ('r Ctx \<Rightarrow> 'v \<Rightarrow> 'v \<times> goErr option) option \<Rightarrow> 'r Ctx \<Rightarrow> 'v \<Rightarrow>
   'v \<times> goErr option" where
  "bodyJSON et decode validate ctx v =
     (case bodyDecode et decode (rq_Body (c_Request ctx)) v of
        (v, Some err) \<Rightarrow> (v, Some err)
      | (v, None) \<Rightarrow> (case validate of Some f \<Rightarrow> f ctx v | None \<Rightarrow> (v, None)))"

definition bodyXML ::
  "(numErr \<Rightarrow> bytes) \<Rightarrow> (bytes \<Rightarrow> 'v \<Rightarrow> 'v \<times> bytes option) \<Rightarrow> 'r Ctx \<Rightarrow> 'v \<Rightarrow> 'v \<times> goErr option" where
  "bodyXML et decode ctx v = bodyDecode et decode (rq_Body (c_Request ctx)) v"

section \<open>Reuse\<close>

text \<open>The view of a context object that the handlers of this development work on.\<close>

definition ctxView :: "('r reqCtx, 'm, 'l, 'f) ctxObj \<Rightarrow> 'r Ctx" where
  "ctxView x = \<lparr>c_context = the (x_context x), c_method = x_method x, c_path = x_path x, c_routerPath = x_routerPath x,
     c_user = x_user x, c_alwaysHeaders = x_alwaysHeaders x\<rparr>"

lemma setField_keys:
  "distinct (map zf_Key fs) \<Longrightarrow> distinct (map zf_Key (setField f fs)) \<and> set (map zf_Key (setField f fs)) = insert (zf_Key f) (zf_Key ` set fs)"
  by (induction f fs rule: setField.induct) auto

lemma setField_find:
  "List.find (\<lambda>g. zf_Key g = k) (setField f fs) = (if zf_Key f = k then Some f else List.find (\<lambda>g. zf_Key g = k) fs)"
  by (induction f fs rule: setField.induct) auto

lemma setFields_find:
  "List.find (\<lambda>g. zf_Key g = k) (foldl (\<lambda>fs f. setField f fs) fs new) =
     (case List.find (\<lambda>g. zf_Key g = k) (rev new) of Some f \<Rightarrow> Some f | None \<Rightarrow> List.find (\<lambda>g. zf_Key g = k) fs)"
proof (induction new arbitrary: fs rule: rev_induct)
  case (snoc f new)
  then show ?case by (simp add: setField_find)
qed simp

lemma setFields_distinct:
  "distinct (map zf_Key fs) \<Longrightarrow> distinct (map zf_Key (foldl (\<lambda>fs f. setField f fs) fs new))"
  by (induction new arbitrary: fs) (simp_all add: setField_keys)

text \<open>However deep it is wrapped, the azugo context is found again.\<close>

fun withValues :: "(bytes \<times> bytes) list \<Rightarrow> (ctxKey \<Rightarrow> ctxVal option) \<Rightarrow> ctxKey \<Rightarrow> ctxVal option" where
  "withValues [] val = val"
| "withValues ((k, v) # kvs) val = (withValues kvs val)(OtherKey k \<mapsto> OtherVal v)"

lemma withValues_self: "withValues kvs val requestContextKey = val requestContextKey"
  by (induction kvs val rule: withValues.induct) auto

lemma RequestContext_wrapped:
  assumes "x_context c \<noteq> None"
  shows "RequestContext (OtherCtx None (withValues kvs (ctxValue base ext self (Some c)))) = Some self"
  using assms by (auto simp: RequestContext_def carried_def withValues_self ctxValue_def split: option.splits)

lemma attachForm_eq:
  assumes "x_form ctx = NilArgs" "x_method ctx = rq_Method rq"
  shows "attachForm ae (Some rq) ctx = Inr (ctx\<lparr>x_form := acquireForm (aq_PostArgs ae rq) (aq_MultipartForm ae rq) rq\<rparr>)"
proof -
  have "ctx = ctx\<lparr>x_form := NilArgs\<rparr>" using assms(1) by (cases ctx) simp
  then show ?thesis using assms(2) by (auto simp: attachForm_def acquireForm_def split: option.split)
qed

lemma resetCtx_eq:
  "resetCtx old = newCtx\<lparr>x_method := x_method old, x_path := x_path old, x_routerPath := x_routerPath old\<rparr>"
  by (cases old) (simp add: resetCtx_def newCtx_def)

section \<open>Properties\<close>

text \<open>
  C36. Nothing of one request reaches the next through the pool: a context that was used in any way and released is acquired
  as if it were new, field by field, and what the handlers see is the context of the new request alone.
\<close>

theorem context_reuse:
  "\<exists>ctx. acquirePooled ae m path (Some c) (Some (snd (releaseCtx removeFiles old))) = Inr ctx \<and>
     acquirePooled ae m path (Some c) None = Inr ctx \<and> ctxView ctx = acquireCtx path c \<and>
     x_form ctx = acquireForm (aq_PostArgs ae (fc_Request c)) (aq_MultipartForm ae (fc_Request c)) (fc_Request c)"
proof -
  have e: "acquirePooled ae m path (Some c) (Some (resetCtx old)) = acquirePooled ae m path (Some c) None"
    unfolding acquirePooled_def Let_def resetCtx_eq by (simp add: attachForm_eq newCtx_def)
  obtain ctx where "acquirePooled ae m path (Some c) None = Inr ctx" "ctxView ctx = acquireCtx path c"
    "x_form ctx = acquireForm (aq_PostArgs ae (fc_Request c)) (aq_MultipartForm ae (fc_Request c)) (fc_Request c)"
    by (simp add: acquirePooled_def attachForm_eq newCtx_def ReplaceLogger_def ctxView_def acquireCtx_def Let_def split: option.split)
  with e show ?thesis by (simp add: releaseCtx_def)
qed

text \<open>
  Without a request context, as \<open>MockContext\<close> has none, the method of the last request is still there, and after a request with a
  form the acquisition panics.
\<close>

lemma acquire_without_request:
  assumes "x_method old = MethodPost"
  shows "acquirePooled ae m path None (Some (snd (releaseCtx removeFiles old))) = Inl nilDeref"
  using assms by (simp add: acquirePooled_def attachForm_def releaseCtx_def resetCtx_eq)

end
