(* ===== verification/Observe.thy ===== *)
theory Observe
  imports Context_State Healthz
begin

text \<open>
  Metrics and access logging: \<open>src/middleware/metrics.go\<close> and \<open>src/middleware/request_logger.go\<close>. What the metrics
  library records is the list of its updates, each with the name of the metric; sizes are numbers and durations
  are given. The text of the log and its fields are the result of the logger. What the server library tells of a request and a
  response beyond \<^typ>\<open>fhReq\<close> are the fields of \<open>obsEnv\<close>; \<open>ob_quote\<close> is the verb \<open>%q\<close> of package \<open>fmt\<close>.
\<close>

record 'r obsEnv =
  ob_ro :: "'r respOps"
  ob_uf :: "rune \<Rightarrow> rune \<Rightarrow> bool"
  ob_toLower :: "bytes \<Rightarrow> bytes"
  ob_quote :: "bytes \<Rightarrow> bytes"
  ob_Protocol :: "fhReq \<Rightarrow> bytes"
  ob_ContentLength :: "fhReq \<Rightarrow> int"
  ob_uriHost :: "fhReq \<Rightarrow> bytes option"
  ob_respLength :: "'r \<Rightarrow> int"
  ob_IsBodyStream :: "'r \<Rightarrow> bool"
  ob_appendBody :: "bytes \<Rightarrow> 'r \<Rightarrow> 'r"
  ob_prometheus :: bytes

section \<open>Metrics\<close>

record metricsHandler =
  mh_metricsPath :: bytes
  mh_subsystem :: bytes

datatype MetricsOption = MetricsSubsystem bytes

fun applyMetricsOption :: "MetricsOption \<Rightarrow> metricsHandler \<Rightarrow> metricsHandler" where
  "applyMetricsOption (MetricsSubsystem m) p = p\<lparr>mh_subsystem := m\<rparr>"

definition newMetrics :: "bytes \<Rightarrow> MetricsOption list \<Rightarrow> metricsHandler" where
  "newMetrics path options = foldl (\<lambda>p opt. applyMetricsOption opt p) \<lparr>mh_metricsPath = path, mh_subsystem = []\<rparr> options"

definition metricName :: "metricsHandler \<Rightarrow> bytes \<Rightarrow> bytes" where
  "metricName p base = (if mh_subsystem p \<noteq> [] then mh_subsystem p @ ''_'' @ base else base)"

datatype metricUpdate =
    CounterInc bytes
  | HistogramUpdate bytes int
  | SummaryUpdate bytes int

fun negotiateParts :: "bytes list \<Rightarrow> bool" where
  "negotiateParts [] = False"
| "negotiateParts (part # parts) =
     (let (mediaType, params, _) = Cut (TrimSpace part) '';'' in
      if TrimSpace mediaType \<noteq> ''application/openmetrics-text'' then negotiateParts parts
      else \<not> (\<exists>param \<in> set (Split params (CHR '';'')). TrimSpace param = ''q=0''))"

definition negotiateOpenMetrics :: "bytes \<Rightarrow> bool" where
  "negotiateOpenMetrics accept = negotiateParts (Split accept comma)"

definition metricsTrusted :: "MetricsOptions \<Rightarrow> 'r Ctx \<Rightarrow> bool" where
  "metricsTrusted mo c =
     (case contextIP (rq_RemoteAddr (c_Request c)) of Some a \<Rightarrow> IsTrusted (mo_TrustedSource mo) a | None \<Rightarrow> IsTrusted (mo_TrustedSource mo) [])"

definition serveMetrics :: "'r obsEnv \<Rightarrow> 'r Ctx \<Rightarrow> 'r Ctx" where
  "serveMetrics ob ctx =
     (if negotiateOpenMetrics (headerGet ctx ''Accept'')
      then onResponse (ob_appendBody ob (''# EOF'' @ [CHR 0x0A]) \<circ> ob_appendBody ob (ob_prometheus ob))
             (headerSet (ob_ro ob) ''Content-Type'' ''application/openmetrics-text; version=1.0.0; charset=utf-8'' ctx)
      else onResponse (ob_appendBody ob (ob_prometheus ob))
             (headerSet (ob_ro ob) ''Content-Type'' ''text/plain; version=0.0.4; charset=utf-8'' ctx))"

definition computeApproximateRequestSize :: "'r obsEnv \<Rightarrow> 'r Ctx \<Rightarrow> int" where
  "computeApproximateRequestSize ob ctx =
     (let rq = c_Request ctx;
          s = int (length (c_path ctx));
          s = s + (case ob_uriHost ob rq of Some host \<Rightarrow> int (length host) | None \<Rightarrow> 0);
          s = s + int (length (c_method ctx));
          s = s + int (length (ob_Protocol ob rq));
          s = foldl (\<lambda>s (key, val). if key \<noteq> ''Host'' then s + int (length key + length val) else s) s (rq_All rq);
          cl = ob_ContentLength ob rq
      in if cl \<noteq> -1 then s + cl else s)"

definition responseSize :: "'r obsEnv \<Rightarrow> 'r Ctx \<Rightarrow> int" where
  "responseSize ob ctx =
     (let l = ob_respLength ob (c_Response ctx) in
      if l > 0 then l
      else if \<not> ob_IsBodyStream ob (c_Response ctx) then int (length (r_Body (ob_ro ob) (c_Response ctx))) else 0)"

definition metricLabels :: "'r obsEnv \<Rightarrow> int \<Rightarrow> 'r Ctx \<Rightarrow> bytes" where
  "metricLabels ob status ctx =
     (let path = (if c_routerPath ctx = [] then c_path ctx else c_routerPath ctx) in
      [lbrace] @ ''code='' @ ob_quote ob (showInt status) @ '',method='' @ ob_quote ob (c_method ctx) @
      '',path='' @ ob_quote ob path @ [rbrace])"

definition metricUpdates :: "'r obsEnv \<Rightarrow> metricsHandler \<Rightarrow> int \<Rightarrow> 'r Ctx \<Rightarrow> metricUpdate list" where
  "metricUpdates ob p elapsed ctx =
     (let status = r_StatusCode (ob_ro ob) (c_Response ctx); labels = metricLabels ob status ctx in
      [CounterInc (metricName p ''requests_total'' @ labels),
       HistogramUpdate (metricName p ''request_duration_seconds'' @ labels) elapsed,
       SummaryUpdate (metricName p ''request_size_bytes'') (computeApproximateRequestSize ob ctx),
       SummaryUpdate (metricName p ''response_size_bytes'') (responseSize ob ctx)])"

definition metricsMiddleware ::
  "'r obsEnv \<Rightarrow> metricsHandler \<Rightarrow> MetricsOptions \<Rightarrow> ('r Ctx \<Rightarrow> int) \<Rightarrow> 'r RequestHandler \<Rightarrow> 'r Ctx \<Rightarrow>
   ('r Ctx \<times> panicVal option) \<times> metricUpdate list" where
  "metricsMiddleware ob p mo elapsed h ctx =
     (if EqualFold (ob_uf ob) (c_path ctx) (mh_metricsPath p) then
        if metricsTrusted mo ctx then ((serveMetrics ob (SkipRequestLog ctx), None), []) else (h ctx, [])
      else if \<exists>skip \<in> set (mo_SkipPaths mo). HasPrefix (ob_toLower ob (c_path ctx)) skip then (h ctx, [])
      else case h ctx of
          (ctx, Some pan) \<Rightarrow> ((ctx, Some pan), [])
        | (ctx, None) \<Rightarrow>
            if fc_UserValues (c_context ctx) ''__skip_metrics'' = Some (UBool True) then ((ctx, None), [])
            else if r_StatusCode (ob_ro ob) (c_Response ctx) = 404 then ((ctx, None), [])
            else ((ctx, None), metricUpdates ob p (elapsed ctx) ctx))"

section \<open>The access log\<close>

text \<open>The parts of a URI that are logged.\<close>

record logURI =
  lu_Scheme :: bytes
  lu_Host :: bytes
  lu_Path :: bytes
  lu_Username :: bytes
  lu_QueryString :: bytes
  lu_Hash :: bytes

record 'r logEnv = "'r obsEnv" +
  le_BasePath :: bytes
  le_BaseURL :: "'r Ctx \<Rightarrow> bytes"
  le_IsTLS :: "'r Ctx \<Rightarrow> bool"
  le_ID :: "'r Ctx \<Rightarrow> bytes"
  le_LogFields :: "'r Ctx \<Rightarrow> zapField list"
  le_Time :: "'r Ctx \<Rightarrow> bytes"
  le_Duration :: "'r Ctx \<Rightarrow> nat"
  le_URI :: "fhReq \<Rightarrow> logURI"
  le_ipString :: "ip option \<Rightarrow> bytes"
  le_respProtocol :: "'r \<Rightarrow> bytes"

abbreviation zapInt :: "bytes \<Rightarrow> nat \<Rightarrow> zapField" where
  "zapInt k v \<equiv> \<lparr>zf_Key = k, zf_String = None, zf_Other = v\<rparr>"

definition accessLogEnabled :: "(bytes \<Rightarrow> bytes) \<Rightarrow> bool" where
  "accessLogEnabled env \<longleftrightarrow> env ''ACCESS_LOG_ENABLED'' = [] \<or> env ''ACCESS_LOG_ENABLED'' = ''true''"

definition logRemoteIP :: "'r logEnv \<Rightarrow> 'r Ctx \<Rightarrow> bytes" where
  "logRemoteIP le ctx =
     (let remoteIP = (case List.find (\<lambda>f. zf_Key f = ''source.ip'' \<and> zf_String f \<noteq> None) (le_LogFields le ctx) of
            Some f \<Rightarrow> the (zf_String f) | None \<Rightarrow> [])
      in if remoteIP = [] then le_ipString le (contextIP (rq_RemoteAddr (c_Request ctx))) else remoteIP)"

definition orDash :: "bytes \<Rightarrow> bytes" where
  "orDash s = (if length s > 0 then s else ''-'')"

abbreviation dquote :: bytes where "dquote \<equiv> [CHR 0x22]"

definition logMessage :: "'r logEnv \<Rightarrow> 'r Ctx \<Rightarrow> bytes" where
  "logMessage le ctx =
     (let rq = c_Request ctx; resp = c_Response ctx; query = rq_QueryString rq in
      logRemoteIP le ctx @ '' - -'' @ '' ['' @ le_Time le ctx @ ''] '' @ dquote @ c_method ctx @ '' '' @
      cleanedPath (le_BasePath le) (c_path ctx) @ (if length query > 0 then ''?'' @ query else []) @ '' '' @
      le_respProtocol le resp @ dquote @ '' '' @ showInt (r_StatusCode (ob_ro le) resp) @ '' '' @ showInt (ob_respLength le resp) @
      '' '' @ dquote @ orDash (headerGet ctx ''Referer'') @ dquote @
      '' '' @ dquote @ orDash (headerGet ctx ''User-Agent'') @ dquote)"

definition buildFullURI :: "'r logEnv \<Rightarrow> 'r Ctx \<Rightarrow> bytes \<Rightarrow> logURI \<Rightarrow> bytes" where
  "buildFullURI le ctx path u =
     le_BaseURL le ctx @ path @ (if length (lu_QueryString u) > 0 then ''?'' @ lu_QueryString u else []) @
     (if length (lu_Hash u) > 0 then ''#'' @ lu_Hash u else [])"

definition logScheme :: "'r logEnv \<Rightarrow> 'r Ctx \<Rightarrow> bytes \<Rightarrow> bytes" where
  "logScheme le ctx scheme =
     (if scheme = ''http'' \<and> le_IsTLS le ctx then ''https''
      else if scheme = ''https'' \<and> \<not> le_IsTLS le ctx then ''http'' else scheme)"

definition ifAny :: "bytes \<Rightarrow> bytes \<Rightarrow> zapField list" where
  "ifAny k v = (if length v > 0 then [zapString k v] else [])"

definition accessFields :: "'r logEnv \<Rightarrow> 'r Ctx \<Rightarrow> zapField list" where
  "accessFields le ctx =
     (let rq = c_Request ctx; resp = c_Response ctx; u = le_URI le rq; path = cleanedPath (le_BasePath le) (c_path ctx) in
      [zapString ''http.version'' (ob_Protocol le rq), zapString ''http.request.id'' (le_ID le ctx),
       zapString ''http.request.method'' (c_method ctx)] @
      ifAny ''http.request.referer'' (headerGet ctx ''Referer'') @
      ifAny ''http.request.mime_type'' (rq_ContentType rq) @
      ifAny ''user_agent.original'' (headerGet ctx ''User-Agent'') @
      [zapString ''url.full'' (buildFullURI le ctx path u), zapString ''url.original'' (lu_Path u),
       zapString ''url.scheme'' (logScheme le ctx (lu_Scheme u)), zapString ''url.domain'' (lu_Host u), zapString ''url.path'' path] @
      ifAny ''url.username'' (lu_Username u) @
      ifAny ''url.query'' (rq_QueryString rq) @
      ifAny ''url.fragment'' (lu_Hash u) @
      [zapInt ''http.response.status_code'' (nat (r_StatusCode (ob_ro le) resp))] @
      ifAny ''http.response.mime_type'' (r_ContentType (ob_ro le) resp) @
      [zapString ''event.action'' ''http-request'', zapString ''event.category'' ''web'',
       zapInt ''event.duration'' (le_Duration le ctx), zapString ''source.ip'' (logRemoteIP le ctx)])"

fun addMissing :: "zapField list \<Rightarrow> zapField list \<Rightarrow> zapField list" where
  "addMissing [] fs = fs"
| "addMissing (f # new) fs = addMissing new (if \<exists>g \<in> set fs. zf_Key g = zf_Key f then fs else fs @ [f])"

text \<open>The middleware: the handler's result and the entry that is logged, if any.\<close>

definition requestLogger ::
  "'r logEnv \<Rightarrow> bool \<Rightarrow> 'r RequestHandler \<Rightarrow> 'r Ctx \<Rightarrow> ('r Ctx \<times> panicVal option) \<times> (bytes \<times> zapField list) option" where
  "requestLogger le enabled h ctx =
     (case h (setUserValue ''__log_request'' (UBool enabled) ctx) of
        (ctx, Some p) \<Rightarrow> ((ctx, Some p), None)
      | (ctx, None) \<Rightarrow>
          if IsSkipRequestLog ctx then ((ctx, None), None)
          else ((ctx, None), Some (logMessage le ctx, addMissing (le_LogFields le ctx) (accessFields le ctx))))"

section \<open>User values survive the response setters\<close>

abbreviation userVals :: "'r Ctx \<Rightarrow> userValues" where
  "userVals c \<equiv> fc_UserValues (c_context c)"

named_theorems keeps_user \<open>operations that leave the user values alone\<close>

lemma setters_user [keeps_user]:
  "userVals (setStatusCode ro st c) = userVals c" "userVals (setContentType ro ct cs c) = userVals c"
  "userVals (respText ro t c) = userVals c" "userVals (respRaw ro b c) = userVals c" "userVals (headerSet ro k v c) = userVals c"
  by (simp_all add: setStatusCode_def setContentType_def respText_def respRaw_def headerSet_def)

lemma resetForError_user [keeps_user]: "userVals (resetForError ro c) = userVals c"
proof -
  have a: "userVals (applyAlwaysHeaders ro c) = userVals c" for c :: "'a Ctx"
    by (simp add: applyAlwaysHeaders_def)
  have "userVals (captureAlwaysHeaders ro c) = userVals c" by (simp add: captureAlwaysHeaders_def)
  then show ?thesis by (simp add: resetForError_def a)
qed

lemma renderError_user [keeps_user]: "userVals (renderError ev ct resp c) = userVals c"
  by (simp add: renderError_def keeps_user split: option.split)

lemma defaultError_user [keeps_user]: "userVals (defaultError ev ct err c) = userVals c"
  by (simp add: defaultError_def setErrorHeaders_def Let_def keeps_user split: option.split)

text \<open>
  The two user values by which a request asks to be left out of the access log and of the metrics.
\<close>

definition sameMarks :: "'r Ctx \<Rightarrow> 'r Ctx \<Rightarrow> bool" where
  "sameMarks c' c \<longleftrightarrow> userVals c' ''__log_request'' = userVals c ''__log_request'' \<and>
     userVals c' ''__skip_metrics'' = userVals c ''__skip_metrics''"

lemma sameMarks_user: "userVals c' = userVals c \<Longrightarrow> sameMarks c' c"
  by (simp add: sameMarks_def)

lemma sameMarks_trans [trans]: "sameMarks c2 c1 \<Longrightarrow> sameMarks c1 c \<Longrightarrow> sameMarks c2 c"
  by (simp add: sameMarks_def)

text \<open>Handlers of the application that leave the marks alone.\<close>

definition optionsKeepMarks :: "'r RouterOptions \<Rightarrow> bool" where
  "optionsKeepMarks opts \<longleftrightarrow>
     (\<forall>eh e ctx. ErrorHandler opts = Some eh \<longrightarrow> sameMarks (fst (eh ctx e)) ctx) \<and>
     (\<forall>h ctx. ro_NotFound opts = Some h \<longrightarrow> sameMarks (fst (h ctx)) ctx)"

definition checksKeepMarks :: "'r CheckFunc option list \<Rightarrow> bool" where
  "checksKeepMarks checks \<longleftrightarrow> (\<forall>fn ctx. Some fn \<in> set checks \<longrightarrow> sameMarks (fst (fn ctx)) ctx)"

lemma HandleError_marks:
  assumes "optionsKeepMarks opts"
  shows "sameMarks (fst (HandleError ev opts err c)) c"
proof -
  let ?c = "resetForError (e_ro ev) c"
  have c: "sameMarks ?c c" by (rule sameMarks_user) (simp add: keeps_user)
  have d: "sameMarks (defaultError ev ct e c') c" if "sameMarks c' c" for ct e c'
    using sameMarks_user [of "defaultError ev ct e c'" c'] that sameMarks_trans by (simp add: keeps_user)
  show ?thesis
  proof (cases "ErrorHandler opts")
    case None
    with c d show ?thesis by (simp add: HandleError_def Let_def split: option.split)
  next
    case (Some eh)
    show ?thesis
    proof (cases err)
      case None
      with c Some show ?thesis by (simp add: HandleError_def Let_def)
    next
      case e: (Some e)
      obtain c' out where h: "eh ?c e = (c', out)" by force
      have "sameMarks c' c" using assms Some h sameMarks_trans [OF _ c] unfolding optionsKeepMarks_def by (metis fst_conv)
      with Some e h d show ?thesis by (auto simp: HandleError_def Let_def split: sum.split bool.split)
    qed
  qed
qed

lemma NotFound_marks:
  assumes "optionsKeepMarks opts"
  shows "sameMarks (fst (NotFound ev opts c)) c"
proof -
  let ?c = "onResponse (r_Reset (e_ro ev)) c"
  have c: "sameMarks ?c c" by (rule sameMarks_user) simp
  show ?thesis
  proof (cases "ro_NotFound opts")
    case None
    have "sameMarks (fst (NotFound ev opts c)) ?c"
      by (rule sameMarks_user) (simp add: NotFound_def HandleNotFound_def None keeps_user)
    with c show ?thesis by (rule sameMarks_trans [rotated])
  next
    case (Some h)
    then have "sameMarks (fst (NotFound ev opts c)) ?c" using assms by (simp add: NotFound_def HandleNotFound_def optionsKeepMarks_def)
    with c show ?thesis by (rule sameMarks_trans [rotated])
  qed
qed

lemma ctxJSON_marks:
  assumes "optionsKeepMarks opts" "sameMarks c c0"
  shows "sameMarks (fst (ctxJSON ev opts marshal obj c)) c0"
proof -
  let ?c = "onResponse (r_SetContentType (e_ro ev) ContentTypeJSON) c"
  have c: "sameMarks ?c c0" using assms(2) by (simp add: sameMarks_def)
  then show ?thesis
    using sameMarks_trans [OF HandleError_marks [OF assms(1)] c] by (auto simp: ctxJSON_def ctxError_def Let_def sameMarks_def split: sum.split)
qed

lemma checksLoop_marks: "checksKeepMarks checks \<Longrightarrow> sameMarks (fst (checksLoop checks resp ctx)) ctx"
proof (induction checks arbitrary: resp ctx)
  case Nil
  then show ?case by (simp add: sameMarks_def)
next
  case (Cons a fns)
  have rest: "sameMarks (fst (checksLoop fns r c)) c" for r c
    using Cons.IH Cons.prems by (simp add: checksKeepMarks_def)
  show ?case
  proof (cases a)
    case None
    then show ?thesis using rest by simp
  next
    case (Some fn)
    obtain c' out where fn: "fn ctx = (c', out)" by (cases "fn ctx")
    have c: "sameMarks c' ctx" using Cons.prems Some fn unfolding checksKeepMarks_def by (metis fst_conv list.set_intros(1))
    with Some fn sameMarks_trans [OF rest c] show ?thesis by (auto split: sum.split option.split)
  qed
qed

lemma healthz_marks:
  assumes "optionsKeepMarks opts" "checksKeepMarks checks"
  shows "sameMarks (fst (healthzHandler ev opts ts marshal checks ctx)) (SkipMetrics (SkipRequestLog ctx))"
proof (cases "healthzTrusted ts (SkipMetrics (SkipRequestLog ctx))")
  case False
  then show ?thesis using NotFound_marks [OF assms(1)] by (simp add: healthzHandler_def Let_def)
next
  case True
  let ?c = "SkipMetrics (SkipRequestLog ctx)" and ?r = "\<lparr>hr_Status = Pass, hr_Description = []\<rparr>"
  obtain c' out where l: "checksLoop checks ?r ?c = (c', out)" by force
  have c: "sameMarks c' ?c" using checksLoop_marks [OF assms(2), of ?r ?c] l by simp
  then have "sameMarks (setStatusCode (e_ro ev) 503 c') ?c" by (simp add: sameMarks_def keeps_user)
  with c True l show ?thesis using ctxJSON_marks [OF assms(1)] by (auto simp: healthzHandler_def Let_def split: sum.split)
qed

section \<open>The access log has one field for each key\<close>

lemma addMissing_distinct: "distinct (map zf_Key fs) \<Longrightarrow> distinct (map zf_Key (addMissing new fs))"
proof (induction new fs rule: addMissing.induct)
  case (2 f new fs)
  then have "distinct (map zf_Key (if \<exists>g \<in> set fs. zf_Key g = zf_Key f then fs else fs @ [f]))" by auto
  with 2 show ?case by simp
qed simp

lemma find_append: "List.find P (xs @ ys) = (case List.find P xs of Some x \<Rightarrow> Some x | None \<Rightarrow> List.find P ys)"
  by (induction xs) auto

lemma addMissing_find:
  "List.find (\<lambda>f. zf_Key f = k) (addMissing new fs) = (case List.find (\<lambda>f. zf_Key f = k) fs of
     Some f \<Rightarrow> Some f | None \<Rightarrow> List.find (\<lambda>f. zf_Key f = k) new)"
proof (induction new fs rule: addMissing.induct)
  case (2 f new fs)
  show ?case
  proof (cases "\<exists>g \<in> set fs. zf_Key g = zf_Key f")
    case True
    then have "zf_Key f = k \<Longrightarrow> List.find (\<lambda>f. zf_Key f = k) fs \<noteq> None" by (auto simp: find_None_iff)
    with 2 True show ?thesis by (cases "zf_Key f = k") (auto split: option.split)
  next
    case False
    with 2 show ?thesis by (simp add: find_append split: option.split)
  qed
qed (simp split: option.split)

section \<open>Properties\<close>

text \<open>
  C39. Health checks are invisible: inside the request logger and the metrics middleware, whatever their options, the handler of
  the health endpoint leaves no entry in the access log and updates no metric, whether the peer is trusted or not and
  whether the checks pass, fail or panic. The checks and the application's own error and not-found handlers, if any, may do anything
  to the context except change the two user values by which the request asks for it.
\<close>

theorem healthz_invisible:
  assumes "optionsKeepMarks opts" "checksKeepMarks checks"
  shows "snd (metricsMiddleware ob p mo elapsed (healthzHandler ev opts ts marshal checks) ctx) = [] \<and>
    snd (requestLogger le enabled (\<lambda>c. fst (metricsMiddleware ob p mo elapsed (healthzHandler ev opts ts marshal checks) c)) ctx) = None"
proof -
  let ?h = "healthzHandler ev opts ts marshal checks"
  have uv: "userVals c' ''__skip_metrics'' = Some (UBool True)" "IsSkipRequestLog c'" if "?h c = (c', out)" for c c' out
  proof -
    have "sameMarks c' (SkipMetrics (SkipRequestLog c))" using healthz_marks [OF assms, of ev ts marshal c] that by simp
    then show "userVals c' ''__skip_metrics'' = Some (UBool True)" "IsSkipRequestLog c'"
      by (simp_all add: sameMarks_def SkipMetrics_def SkipRequestLog_def setUserValue_def IsSkipRequestLog_def)
  qed
  have m: "snd (metricsMiddleware ob p mo elapsed ?h c) = []" for c
    using uv(1) [of c] by (auto simp: metricsMiddleware_def split: prod.split option.split)
  have l: "IsSkipRequestLog (fst (fst (metricsMiddleware ob p mo elapsed ?h c)))" for c
  proof (cases "EqualFold (ob_uf ob) (c_path c) (mh_metricsPath p) \<and> metricsTrusted mo c")
    case True
    have "userVals (serveMetrics ob (SkipRequestLog c)) = userVals (SkipRequestLog c)"
      by (simp add: serveMetrics_def keeps_user)
    then have "IsSkipRequestLog (serveMetrics ob (SkipRequestLog c))"
      by (simp add: IsSkipRequestLog_def SkipRequestLog_def setUserValue_def)
    with True show ?thesis by (simp add: metricsMiddleware_def)
  next
    case False
    then have "fst (fst (metricsMiddleware ob p mo elapsed ?h c)) = fst (?h c)"
      by (auto simp: metricsMiddleware_def split: prod.split option.split)
    with uv(2) [of c] show ?thesis by (metis prod.collapse)
  qed
  show ?thesis using m l by (auto simp: requestLogger_def split: prod.split option.split) (metis fst_conv)
qed

text \<open>A check that sets a user value and panics, and a not-found handler that sets one.\<close>

theorem healthz_invisible_witness:
  "\<forall>(ob :: assocResp obsEnv) p mo elapsed (le :: assocResp logEnv).
     (let check = (\<lambda>ctx. (setUserValue ''probe'' (UInt 1) ctx, Inl (PanicStr ''no database'')));
          opts = demoOptions\<lparr>ro_NotFound := Some (\<lambda>ctx. (setUserValue ''lost'' (UBool True) ctx, None))\<rparr>;
          h = healthzHandler demoEnv opts defaultHealthzTrustedSource (\<lambda>r. Inr (hr_Description r)) [Some check] in
      snd (metricsMiddleware ob p mo elapsed h (acquireCtx [] demoRaw)) = [] \<and>
      snd (requestLogger le True (\<lambda>c. fst (metricsMiddleware ob p mo elapsed h c)) (acquireCtx [] demoRaw)) = None)"
proof -
  have o: "optionsKeepMarks (demoOptions\<lparr>ro_NotFound := Some (\<lambda>ctx. (setUserValue ''lost'' (UBool True) ctx, None))\<rparr>)"
    by (simp add: optionsKeepMarks_def demoOptions_def sameMarks_def setUserValue_def)
  have c: "checksKeepMarks [Some (\<lambda>ctx :: assocResp Ctx. (setUserValue ''probe'' (UInt 1) ctx, Inl (PanicStr ''no database'')))]"
    by (simp add: checksKeepMarks_def sameMarks_def setUserValue_def)
  show ?thesis unfolding Let_def by (intro allI) (rule healthz_invisible [OF o c])
qed

end
