(* ===== verification/App_Lifecycle.thy ===== *)
theory App_Lifecycle
  imports Server_Setup Go_Url
begin

text \<open>
  Starting and stopping the application (\<open>src/app.go\<close>) and its shared HTTP client (\<open>src/http_client.go\<close>). The listeners
  run in goroutines; what \<open>Start\<close> leaves is the list of the listeners that were launched and its result, an
  error or nil once all of them have ended. The servers, certificates and HTTP clients belong to libraries and are parameters.
\<close>

section \<open>Starting\<close>

record serverConfig =
  sc_ReadBufferSize :: int
  sc_WriteBufferSize :: int
  sc_ReadTimeout :: int
  sc_WriteTimeout :: int
  sc_IdleTimeout :: int
  sc_MaxRequestBodySize :: int

record h2Config =
  h2_PingInterval :: int
  h2_MaxConcurrentStreams :: int

datatype listening = ListenHTTP bytes | ListenTLS bytes bytes bytes

record runState =
  rs_server :: "serverConfig option"
  rs_h2server :: "h2Config option"

definition fasthttpServer :: "('r, 'f, 'h) webApp \<Rightarrow> Server \<Rightarrow> serverConfig" where
  "fasthttpServer a conf = \<lparr>sc_ReadBufferSize = RequestReadBufferSize a, sc_WriteBufferSize = ResponseWriteBufferSize a,
     sc_ReadTimeout = ReadTimeout conf, sc_WriteTimeout = WriteTimeout conf, sc_IdleTimeout = IdleTimeout conf,
     sc_MaxRequestBodySize = MaxRequestBodySize conf\<rparr>"

definition listenAddr :: "bytes \<Rightarrow> int \<Rightarrow> bytes" where
  "listenAddr address port = (if address = ''0.0.0.0'' then [] else address) @ '':'' @ showInt port"

definition httpListening :: "Server \<Rightarrow> listening list" where
  "httpListening conf =
     (case sv_HTTP conf of
        Some h \<Rightarrow> if ls_Enabled h then [ListenHTTP (listenAddr (ls_Address h) (ls_Port h))] else []
      | None \<Rightarrow> [])"

text \<open>\<open>loadPEM\<close> reads a certificate and its key, \<open>devPEM\<close> finds or makes the one for development.\<close>

definition appStart ::
  "(('f, 'h) Configuration \<Rightarrow> bool) \<Rightarrow> goErr option \<Rightarrow> (bytes \<Rightarrow> goErr + bytes \<times> bytes) \<Rightarrow> (goErr + bytes \<times> bytes) \<Rightarrow>
   ('r, 'f, 'h) webApp \<Rightarrow> runState \<Rightarrow> (runState \<times> listening list) \<times> (panicVal + goErr option)" where
  "appStart ready coreStart loadPEM devPEM a rs =
     (case coreStart of
        Some err \<Rightarrow> ((rs, []), Inr (Some err))
      | None \<Rightarrow> (case appConfig ready a of
          Inl p \<Rightarrow> ((rs, []), Inl p)
        | Inr c \<Rightarrow>
            let conf = cf_Server c;
                https = (case sv_HTTPS conf of Some h \<Rightarrow> if ls_Enabled h then Some h else None | None \<Rightarrow> None);
                rs = rs\<lparr>rs_server := Some (fasthttpServer a conf),
                        rs_h2server := map_option (\<lambda>_. \<lparr>h2_PingInterval = 30 * second, h2_MaxConcurrentStreams = 256\<rparr>) https\<rparr>
            in case https of
                None \<Rightarrow> ((rs, httpListening conf), Inr None)
              | Some h \<Rightarrow> (case (if length (CertificatePEMFile h) > 0 then loadPEM (CertificatePEMFile h) else devPEM) of
                  Inl err \<Rightarrow> ((rs, httpListening conf), Inr (Some err))
                | Inr (certData, keyData) \<Rightarrow>
                    ((rs, httpListening conf @ [ListenTLS (listenAddr (ls_Address h) (ls_Port h)) certData keyData]), Inr None))))"

section \<open>Stopping\<close>

datatype stopCall = ShutdownH2 int | ShutdownServer int | CoreStop

text \<open>The calls that are made, each with the time it may take; their errors are only logged.\<close>

definition appStop ::
  "(('f, 'h) Configuration \<Rightarrow> bool) \<Rightarrow> ('r, 'f, 'h) webApp \<Rightarrow> runState \<Rightarrow> runState \<times> (panicVal + stopCall list)" where
  "appStop ready a rs =
     (let server = rs_server rs; h2server = rs_h2server rs; rs = rs\<lparr>rs_server := None, rs_h2server := None\<rparr> in
      case server of
        None \<Rightarrow> (rs, Inr [CoreStop])
      | Some _ \<Rightarrow> (case appConfig ready a of
          Inl p \<Rightarrow> (rs, Inl p)
        | Inr c \<Rightarrow>
            let t = ShutdownTimeout (cf_Server c) in
            (rs, Inr ((if h2server \<noteq> None then [ShutdownH2 t] else []) @ [ShutdownServer t, CoreStop]))))"

lemma stop_twice:
  assumes "appStop ready a rs = (rs', out)"
  shows "appStop ready a rs' = (rs', Inr [CoreStop])"
  using assms by (auto simp: appStop_def Let_def split: option.splits sum.splits)

text \<open>
  When the certificate cannot be loaded, \<open>Start\<close> returns the error although the plain listener is already running.
\<close>

lemma failed_start_listens:
  assumes "appConfig ready a = Inr c" "sv_HTTPS (cf_Server c) = Some h" "ls_Enabled h" "CertificatePEMFile h = []"
  shows "\<exists>rs'. appStart ready None loadPEM (Inl err) a rs = ((rs', httpListening (cf_Server c)), Inr (Some err))"
  using assms by (simp add: appStart_def Let_def)

section \<open>The HTTP client\<close>

text \<open>The options of a client are the configuration, the instrumenter and the user agent, and those that were added.\<close>

datatype ('h, 'o) clientOption = ConfigOption 'h | InstrumenterOption | UserAgentOption bytes | AddedOption 'o

record ('c, 'o) clientState =
  cl_http :: "'c option"
  cl_httpOpts :: "'o list"

definition clientOptions :: "'h \<Rightarrow> bytes \<Rightarrow> bytes \<Rightarrow> 'o list \<Rightarrow> ('h, 'o) clientOption list" where
  "clientOptions conf appName appVer opts =
     [ConfigOption conf, InstrumenterOption, UserAgentOption (appName @ ''/'' @ appVer)] @ map AddedOption opts"

definition HTTPClient ::
  "(('h, 'o) clientOption list \<Rightarrow> 'c) \<Rightarrow> 'h \<Rightarrow> bytes \<Rightarrow> bytes \<Rightarrow> ('c, 'o) clientState \<Rightarrow> 'c \<times> ('c, 'o) clientState" where
  "HTTPClient newClient conf appName appVer st =
     (case cl_http st of
        Some c \<Rightarrow> (c, st)
      | None \<Rightarrow> let c = newClient (clientOptions conf appName appVer (cl_httpOpts st)) in (c, st\<lparr>cl_http := Some c\<rparr>))"

definition AddHTTPClientOption :: "'o \<Rightarrow> ('c, 'o) clientState \<Rightarrow> ('c, 'o) clientState" where
  "AddHTTPClientOption opt st = st\<lparr>cl_httpOpts := cl_httpOpts st @ [opt], cl_http := None\<rparr>"

text \<open>A client is made with all options added so far, and the same one is given until the next is added.\<close>

definition clientFresh :: "(('h, 'o) clientOption list \<Rightarrow> 'c) \<Rightarrow> 'h \<Rightarrow> bytes \<Rightarrow> bytes \<Rightarrow> ('c, 'o) clientState \<Rightarrow> bool" where
  "clientFresh newClient conf appName appVer st \<longleftrightarrow>
     (\<forall>c. cl_http st = Some c \<longrightarrow> c = newClient (clientOptions conf appName appVer (cl_httpOpts st)))"

lemma client_ops_fresh:
  "clientFresh nc conf n v st \<Longrightarrow> clientFresh nc conf n v (snd (HTTPClient nc conf n v st))"
  "clientFresh nc conf n v (AddHTTPClientOption opt st)"
  "clientFresh nc conf n v st \<Longrightarrow> fst (HTTPClient nc conf n v st) = nc (clientOptions conf n v (cl_httpOpts st))"
  by (auto simp: clientFresh_def HTTPClient_def AddHTTPClientOption_def Let_def split: option.splits)

text \<open>
  The lookup and the making of a client are two critical sections: callers that both find none make one each, and the last
  one is kept.
\<close>

datatype clientPC = CIdle | CMake | CGot nat

record clientRun =
  cr_http :: "nat option"
  cr_made :: nat
  cr_pc :: "nat \<Rightarrow> clientPC"

inductive clientStep :: "clientRun \<Rightarrow> clientRun \<Rightarrow> bool" where
  found: "cr_pc s t = CIdle \<Longrightarrow> cr_http s = Some c \<Longrightarrow> clientStep s (s\<lparr>cr_pc := (cr_pc s)(t := CGot c)\<rparr>)"
| missing: "cr_pc s t = CIdle \<Longrightarrow> cr_http s = None \<Longrightarrow> clientStep s (s\<lparr>cr_pc := (cr_pc s)(t := CMake)\<rparr>)"
| make: "cr_pc s t = CMake \<Longrightarrow>
     clientStep s (s\<lparr>cr_http := Some (cr_made s), cr_made := Suc (cr_made s), cr_pc := (cr_pc s)(t := CGot (cr_made s))\<rparr>)"

lemma two_clients:
  "\<exists>s. clientStep\<^sup>*\<^sup>* \<lparr>cr_http = None, cr_made = 0, cr_pc = (\<lambda>_. CIdle)\<rparr> s \<and> cr_pc s 1 = CGot 0 \<and> cr_pc s 2 = CGot 1"
proof -
  let ?s0 = "\<lparr>cr_http = None, cr_made = 0, cr_pc = (\<lambda>_. CIdle)\<rparr>"
  let ?s1 = "?s0\<lparr>cr_pc := (cr_pc ?s0)(1 := CMake)\<rparr>"
  let ?s2 = "?s1\<lparr>cr_pc := (cr_pc ?s1)(2 := CMake)\<rparr>"
  let ?s3 = "?s2\<lparr>cr_http := Some (cr_made ?s2), cr_made := Suc (cr_made ?s2), cr_pc := (cr_pc ?s2)(1 := CGot (cr_made ?s2))\<rparr>"
  let ?s4 = "?s3\<lparr>cr_http := Some (cr_made ?s3), cr_made := Suc (cr_made ?s3), cr_pc := (cr_pc ?s3)(2 := CGot (cr_made ?s3))\<rparr>"
  have "clientStep ?s0 ?s1" by (rule missing) simp_all
  moreover have "clientStep ?s1 ?s2" by (rule missing) simp_all
  moreover have "clientStep ?s2 ?s3" by (rule make) simp
  moreover have "clientStep ?s3 ?s4" by (rule make) simp
  ultimately have "clientStep\<^sup>*\<^sup>* ?s0 ?s4" by (meson converse_rtranclp_into_rtranclp rtranclp.rtrancl_refl)
  then show ?thesis by (intro exI [of _ ?s4]) simp
qed

section \<open>Form values of a map\<close>

text \<open>\<open>MapToURLValues\<close>: a list of strings is joined, any other value is printed.\<close>

datatype formVal = FormStrings "bytes list" | FormPrinted bytes

definition MapToURLValues :: "(bytes \<times> formVal) list \<Rightarrow> bytes" where
  "MapToURLValues m = ValuesEncode (map (\<lambda>(key, val). (key, case val of FormStrings v \<Rightarrow> Join v '','' | FormPrinted v \<Rightarrow> v)) m)"

end
