(* ===== verification/Test_Client.thy ===== *)
theory Test_Client
  imports Cookies Context_State App_Lifecycle "HOL-Library.AList" "HOL-Library.Multiset"
begin

text \<open>
  The client and the application for tests that the package exports: \<open>src/testing_client.go\<close> and
  \<open>src/testing_testapp.go\<close>. Requests \<open>'q\<close>, responses \<open>'p\<close> and the connection to the server, whose state is \<open>'s\<close>,
  belong to the server library: their calls are the fields of \<open>clientLib\<close>, their laws the locales below. The jar is an
  association list; \<open>cl_order\<close> is the order in which Go walks through that map.
\<close>

section \<open>The client\<close>

record ('q, 'p, 'k, 's) clientLib =
  cq_Acquire :: 'q
  cq_SetMethod :: "bytes \<Rightarrow> 'q \<Rightarrow> 'q"
  cq_SetRequestURI :: "bytes \<Rightarrow> 'q \<Rightarrow> 'q"
  cq_SetHost :: "bytes \<Rightarrow> 'q \<Rightarrow> 'q"
  cq_SetCookie :: "bytes \<Rightarrow> bytes \<Rightarrow> 'q \<Rightarrow> 'q"
  cq_AddHeader :: "bytes \<Rightarrow> bytes \<Rightarrow> 'q \<Rightarrow> 'q"
  cq_SetBoundary :: "bytes \<Rightarrow> 'q \<Rightarrow> 'q"
  cq_AddQuery :: "bytes \<Rightarrow> bytes \<Rightarrow> 'q \<Rightarrow> 'q"
  cq_SetBodyStream :: "bytes \<Rightarrow> 'q \<Rightarrow> 'q"
  cq_SetBodyRaw :: "bytes \<Rightarrow> 'q \<Rightarrow> 'q"
  cq_Cookie :: "bytes \<Rightarrow> 'q \<Rightarrow> bytes option"
  cl_maxBody :: nat
  cl_order :: "(bytes \<times> bytes) list \<Rightarrow> (bytes \<times> bytes) list"
  cl_Do :: "'q \<Rightarrow> 's \<Rightarrow> (goErr + 'p) \<times> 's"
  cl_Cookies :: "'p \<Rightarrow> (bytes \<times> bytes) list"
  cl_Parse :: "bytes \<Rightarrow> 'k option"
  cl_deleteTime :: int

record TestClient =
  tc_cookies :: "(bytes \<times> bytes) list"

definition newTestClient :: TestClient where
  "newTestClient = \<lparr>tc_cookies = []\<rparr>"

type_synonym 'q TestClientOption = "TestClient \<Rightarrow> 'q \<Rightarrow> TestClient \<times> 'q"

definition applyOptions :: "'q TestClientOption list \<Rightarrow> TestClient \<Rightarrow> 'q \<Rightarrow> TestClient \<times> 'q" where
  "applyOptions options c request = foldl (\<lambda>(c, request) option'. option' c request) (c, request) options"

definition WithHost :: "('q, 'p, 'k, 's) clientLib \<Rightarrow> bytes \<Rightarrow> 'q TestClientOption" where
  "WithHost lib host = (\<lambda>c r. (c, cq_SetHost lib host r))"

definition WithCookie :: "('q, 'p, 'k, 's) clientLib \<Rightarrow> bytes \<Rightarrow> bytes \<Rightarrow> 'q TestClientOption" where
  "WithCookie lib name v = (\<lambda>c r. (c, cq_SetCookie lib name v r))"

definition WithHeader :: "('q, 'p, 'k, 's) clientLib \<Rightarrow> bytes \<Rightarrow> bytes \<Rightarrow> 'q TestClientOption" where
  "WithHeader lib key v = (\<lambda>c r. (c, cq_AddHeader lib key v r))"

definition WithMultiPartFormBoundary :: "('q, 'p, 'k, 's) clientLib \<Rightarrow> bytes \<Rightarrow> 'q TestClientOption" where
  "WithMultiPartFormBoundary lib boundary = (\<lambda>c r. (c, cq_SetBoundary lib boundary r))"

text \<open>The parameters are listed in the order in which the map is walked through.\<close>

definition WithQuery :: "('q, 'p, 'k, 's) clientLib \<Rightarrow> (bytes \<times> formVal) list \<Rightarrow> 'q TestClientOption" where
  "WithQuery lib params = (\<lambda>c r. (c, foldl (\<lambda>r (key, val).
     cq_AddQuery lib key (case val of FormStrings v \<Rightarrow> Join v '','' | FormPrinted v \<Rightarrow> v) r) r params))"

definition jarCookies :: "TestClient \<Rightarrow> (bytes \<times> bytes) list" where
  "jarCookies c = foldl (\<lambda>result (k, v). AList.update k v result) [] (tc_cookies c)"

definition ClearCookies :: "TestClient \<Rightarrow> TestClient" where
  "ClearCookies c = c\<lparr>tc_cookies := []\<rparr>"

section \<open>Calls\<close>

definition testRequest ::
  "('q, 'p, 'k, 's) clientLib \<Rightarrow> bytes \<Rightarrow> bytes \<Rightarrow> bytes \<Rightarrow> 'q TestClientOption list \<Rightarrow> TestClient \<Rightarrow> TestClient \<times> 'q" where
  "testRequest lib meth endpoint body options c =
     (let req = cq_SetRequestURI lib endpoint (cq_SetMethod lib meth (cq_Acquire lib));
          req = foldl (\<lambda>req (name, v). cq_SetCookie lib name v req) req (cl_order lib (tc_cookies c));
          (c, req) = applyOptions options c req
      in (c, if length body > cl_maxBody lib then cq_SetBodyStream lib body req
             else if length body > 0 then cq_SetBodyRaw lib body req else req))"

definition jarUpdate ::
  "('q, 'p, 'k, 's) clientLib \<Rightarrow> 'k cookieOps \<Rightarrow> bytes \<times> bytes \<Rightarrow> (bytes \<times> bytes) list \<Rightarrow> (bytes \<times> bytes) list" where
  "jarUpdate lib ko kv jar =
     (case cl_Parse lib (snd kv) of
        None \<Rightarrow> jar
      | Some cookie \<Rightarrow>
          if length (k_Value ko cookie) = 0 \<or> k_Expire ko cookie = cl_deleteTime lib then AList.delete (fst kv) jar
          else AList.update (fst kv) (k_Value ko cookie) jar)"

type_synonym ('p, 's) callResult = "(goErr + 'p) \<times> TestClient \<times> 's"

definition CallRaw ::
  "('q, 'p, 'k, 's) clientLib \<Rightarrow> 'k cookieOps \<Rightarrow> bytes \<Rightarrow> bytes \<Rightarrow> bytes \<Rightarrow> 'q TestClientOption list \<Rightarrow> TestClient \<Rightarrow> 's \<Rightarrow>
   ('p, 's) callResult" where
  "CallRaw lib ko meth endpoint body options c s =
     (let (c, req) = testRequest lib meth endpoint body options c in
      case cl_Do lib req s of
        (Inl err, s) \<Rightarrow> (Inl err, c, s)
      | (Inr resp, s) \<Rightarrow> (Inr resp, c\<lparr>tc_cookies := foldl (\<lambda>jar kv. jarUpdate lib ko kv jar) (tc_cookies c) (cl_Cookies lib resp)\<rparr>, s))"

definition testCall ::
  "('q, 'p, 'k, 's) clientLib \<Rightarrow> 'k cookieOps \<Rightarrow> bytes \<Rightarrow> bytes \<Rightarrow> bytes \<Rightarrow> 'q TestClientOption list \<Rightarrow> TestClient \<Rightarrow> 's \<Rightarrow>
   ('p, 's) callResult" where
  "testCall lib ko meth endpoint body options = CallRaw lib ko meth (''http://test'' @ endpoint) body options"

text \<open>The calls without a body, with a body, with a value as JSON, with a map as a form, and with a multipart form.\<close>

definition tcGet where "tcGet lib ko endpoint options = testCall lib ko MethodGet endpoint [] options"
definition tcHead where "tcHead lib ko endpoint options = testCall lib ko MethodHead endpoint [] options"
definition tcDelete where "tcDelete lib ko endpoint options = testCall lib ko MethodDelete endpoint [] options"
definition tcConnect where "tcConnect lib ko endpoint options = testCall lib ko MethodConnect endpoint [] options"
definition tcOptions where "tcOptions lib ko endpoint options = testCall lib ko MethodOptions endpoint [] options"
definition tcTrace where "tcTrace lib ko endpoint options = testCall lib ko MethodTrace endpoint [] options"

definition tcQuery where "tcQuery lib ko endpoint body options = testCall lib ko MethodQuery endpoint body options"
definition tcPatch where "tcPatch lib ko endpoint body options = testCall lib ko MethodPatch endpoint body options"
definition tcPut where "tcPut lib ko endpoint body options = testCall lib ko MethodPut endpoint body options"
definition tcPost where "tcPost lib ko endpoint body options = testCall lib ko MethodPost endpoint body options"

definition sendJSON ::
  "('q, 'p, 'k, 's) clientLib \<Rightarrow> ('j \<Rightarrow> goErr + bytes) \<Rightarrow> (bytes \<Rightarrow> 'q TestClientOption list \<Rightarrow> TestClient \<Rightarrow> 's \<Rightarrow> ('p, 's) callResult) \<Rightarrow>
   'j \<Rightarrow> 'q TestClientOption list \<Rightarrow> TestClient \<Rightarrow> 's \<Rightarrow> ('p, 's) callResult" where
  "sendJSON lib marshal send body options c s =
     (case marshal body of
        Inl err \<Rightarrow> (Inl err, c, s)
      | Inr b \<Rightarrow> send b (options @ [WithHeader lib ''Content-Type'' ContentTypeJSON]) c s)"

definition sendForm ::
  "('q, 'p, 'k, 's) clientLib \<Rightarrow> (bytes \<Rightarrow> 'q TestClientOption list \<Rightarrow> TestClient \<Rightarrow> 's \<Rightarrow> ('p, 's) callResult) \<Rightarrow>
   (bytes \<times> formVal) list \<Rightarrow> 'q TestClientOption list \<Rightarrow> TestClient \<Rightarrow> 's \<Rightarrow> ('p, 's) callResult" where
  "sendForm lib send params options c s =
     send (MapToURLValues params) (options @ [WithHeader lib ''Content-Type'' ContentTypeFormURLEncoded]) c s"

definition sendMultiPart ::
  "('q, 'p, 'k, 's) clientLib \<Rightarrow> (goErr + bytes) \<Rightarrow> ('m \<Rightarrow> bytes \<Rightarrow> goErr + bytes) \<Rightarrow>
   (bytes \<Rightarrow> 'q TestClientOption list \<Rightarrow> TestClient \<Rightarrow> 's \<Rightarrow> ('p, 's) callResult) \<Rightarrow>
   'm \<Rightarrow> 'q TestClientOption list \<Rightarrow> TestClient \<Rightarrow> 's \<Rightarrow> ('p, 's) callResult" where
  "sendMultiPart lib newULID writeForm send form options c s =
     (case newULID of
        Inl err \<Rightarrow> (Inl err, c, s)
      | Inr boundary \<Rightarrow>
          let options = options @ [WithMultiPartFormBoundary lib boundary] in
          case writeForm form boundary of
            Inl err \<Rightarrow> (Inl err, c, s)
          | Inr body \<Rightarrow> send body options c s)"

definition tcQueryJSON where "tcQueryJSON lib ko marshal endpoint = sendJSON lib marshal (tcQuery lib ko endpoint)"
definition tcPatchJSON where "tcPatchJSON lib ko marshal endpoint = sendJSON lib marshal (tcPatch lib ko endpoint)"
definition tcPutJSON where "tcPutJSON lib ko marshal endpoint = sendJSON lib marshal (tcPut lib ko endpoint)"
definition tcPostJSON where "tcPostJSON lib ko marshal endpoint = sendJSON lib marshal (tcPost lib ko endpoint)"

definition tcQueryForm where "tcQueryForm lib ko endpoint = sendForm lib (tcQuery lib ko endpoint)"
definition tcPatchForm where "tcPatchForm lib ko endpoint = sendForm lib (tcPatch lib ko endpoint)"
definition tcPutForm where "tcPutForm lib ko endpoint = sendForm lib (tcPut lib ko endpoint)"
definition tcPostForm where "tcPostForm lib ko endpoint = sendForm lib (tcPost lib ko endpoint)"

definition tcPatchMultiPartForm where
  "tcPatchMultiPartForm lib ko newULID writeForm endpoint = sendMultiPart lib newULID writeForm (tcPatch lib ko endpoint)"
definition tcPutMultiPartForm where
  "tcPutMultiPartForm lib ko newULID writeForm endpoint = sendMultiPart lib newULID writeForm (tcPut lib ko endpoint)"
definition tcPostMultiPartForm where
  "tcPostMultiPartForm lib ko newULID writeForm endpoint = sendMultiPart lib newULID writeForm (tcPost lib ko endpoint)"

section \<open>The application for tests\<close>

text \<open>
  The configuration is put in place before it is loaded, through the pointer; \<open>loadDev\<close> is what loading leaves in it,
  whether or not it fails. The listener is in memory.
\<close>

record ('r, 'f, 'h) testApp =
  ta_App :: "('r, 'f, 'h) webApp"
  ta_run :: runState
  ta_listening :: bool

definition NewTestApp ::
  "'r respOps \<Rightarrow> (('f, 'h) Configuration \<Rightarrow> bool) \<Rightarrow> ('f, 'h) Configuration \<Rightarrow> (('f, 'h) Configuration \<Rightarrow> ('f, 'h) Configuration) \<Rightarrow>
   ('r, 'f, 'h) webApp option \<Rightarrow> ('r, 'f, 'h) testApp" where
  "NewTestApp ro ready newConf loadDev app =
     (let a = (case app of None \<Rightarrow> newWebApp ro | Some a \<Rightarrow> a);
          a = onWebMux (\<lambda>m. m\<lparr>m_RouterOptions := (m_RouterOptions m)\<lparr>ro_Proxy := (ro_Proxy (m_RouterOptions m))\<lparr>po_TrustAll := True\<rparr>\<rparr>\<rparr>) a;
          a = a\<lparr>HealthzOptions := (HealthzOptions a)\<lparr>TrustAll := True\<rparr>\<rparr>;
          a = SetConfig ready (loadDev newConf) a
      in \<lparr>ta_App = a, ta_run = \<lparr>rs_server = None, rs_h2server = None\<rparr>, ta_listening = False\<rparr>)"

definition testApplyConfig ::
  "(('f, 'h) Configuration \<Rightarrow> bool) \<Rightarrow> ('r, 'f, 'h) webApp \<Rightarrow> panicVal + ('r, 'f, 'h) webApp" where
  "testApplyConfig ready a =
     (case appConfig ready a of
        Inl p \<Rightarrow> Inl p
      | Inr conf \<Rightarrow> Inr (if length (sv_Path (cf_Server conf)) > 0
          then onWebMux (\<lambda>m. m\<lparr>m_RouterOptions := (m_RouterOptions m)\<lparr>ro_BasePath := sv_Path (cf_Server conf)\<rparr>\<rparr>) a else a))"

text \<open>A failure to start the core ends a test, and panics in a benchmark.\<close>

datatype startResult = Started | TestFailed | StartPanics panicVal

definition startWith ::
  "(goErr \<Rightarrow> startResult) \<Rightarrow> (('f, 'h) Configuration \<Rightarrow> bool) \<Rightarrow> goErr option \<Rightarrow> ('r, 'f, 'h) testApp \<Rightarrow> ('r, 'f, 'h) testApp \<times> startResult" where
  "startWith failed ready coreStart ta =
     (case testApplyConfig ready (ta_App ta) of
        Inl p \<Rightarrow> (ta, StartPanics p)
      | Inr a \<Rightarrow> (case coreStart of
          Some err \<Rightarrow> (ta\<lparr>ta_App := a\<rparr>, failed err)
        | None \<Rightarrow> (ta\<lparr>ta_App := a, ta_listening := True\<rparr>, Started)))"

definition testStart ::
  "(('f, 'h) Configuration \<Rightarrow> bool) \<Rightarrow> goErr option \<Rightarrow> ('r, 'f, 'h) testApp \<Rightarrow> ('r, 'f, 'h) testApp \<times> startResult" where
  "testStart = startWith (\<lambda>_. TestFailed)"

definition testStartBenchmark ::
  "(('f, 'h) Configuration \<Rightarrow> bool) \<Rightarrow> goErr option \<Rightarrow> ('r, 'f, 'h) testApp \<Rightarrow> ('r, 'f, 'h) testApp \<times> startResult" where
  "testStartBenchmark = startWith (\<lambda>err. StartPanics (PanicErr err))"

text \<open>Stopping closes the listener, if there is one, and stops the application.\<close>

definition testStop ::
  "(('f, 'h) Configuration \<Rightarrow> bool) \<Rightarrow> ('r, 'f, 'h) testApp \<Rightarrow> bool \<times> runState \<times> (panicVal + stopCall list)" where
  "testStop ready ta = (ta_listening ta, appStop ready (ta_App ta) (ta_run ta))"

text \<open>The handler works on the context object; the object goes back to the pool when it ends, with or without a panic.\<close>

definition MockContext ::
  "('r, 'l, 'f) acquireEnv \<Rightarrow> ('r reqCtx \<Rightarrow> 'r reqCtx) \<Rightarrow> 'm \<Rightarrow> (('r reqCtx, 'm, 'l, 'f) ctxObj \<Rightarrow> ('r reqCtx, 'm, 'l, 'f) ctxObj \<times> panicVal option) \<Rightarrow>
   ('r reqCtx, 'm, 'l, 'f) ctxObj option \<Rightarrow> ('r reqCtx, 'm, 'l, 'f) ctxObj option \<times> panicVal option" where
  "MockContext ae removeFiles m fn v =
     (case acquirePooled ae m ''/'' None v of
        Inl p \<Rightarrow> (None, Some p)
      | Inr ctx \<Rightarrow> (case fn ctx of (ctx, p) \<Rightarrow> (Some (snd (releaseCtx removeFiles ctx)), p)))"

lemma test_app_trusts:
  "IsTrustedProxy (ro_Proxy (appRouterOptions (ta_App (NewTestApp ro ready newConf loadDev app)))) a"
  "IsTrusted (HealthzOptions (ta_App (NewTestApp ro ready newConf loadDev app))) ip"
  by (simp_all add: NewTestApp_def Let_def SetConfig_def appRouterOptions_def onWebMux_def IsTrustedProxy_def IsTrusted_def
      split: option.splits)

section \<open>The contracts\<close>

text \<open>
  A request holds one value for each cookie; nothing but setting a cookie, or a header called \<open>Cookie\<close>, changes it. A map is
  walked through in some order.
\<close>

locale client_request =
  fixes lib :: "('q, 'p, 'k, 's) clientLib"
  assumes cookie_new: "cq_Cookie lib n (cq_Acquire lib) = None"
    and cookie_set: "cq_Cookie lib n (cq_SetCookie lib n' v q) = (if n = n' then Some v else cq_Cookie lib n q)"
    and cookie_other: "cq_Cookie lib n (cq_SetMethod lib b q) = cq_Cookie lib n q"
      "cq_Cookie lib n (cq_SetRequestURI lib b q) = cq_Cookie lib n q" "cq_Cookie lib n (cq_SetHost lib b q) = cq_Cookie lib n q"
      "lowerKey h \<noteq> ''cookie'' \<Longrightarrow> cq_Cookie lib n (cq_AddHeader lib h b q) = cq_Cookie lib n q"
      "cq_Cookie lib n (cq_SetBoundary lib b q) = cq_Cookie lib n q" "cq_Cookie lib n (cq_AddQuery lib h b q) = cq_Cookie lib n q"
      "cq_Cookie lib n (cq_SetBodyStream lib b q) = cq_Cookie lib n q" "cq_Cookie lib n (cq_SetBodyRaw lib b q) = cq_Cookie lib n q"
    and order: "mset (cl_order lib jar) = mset jar"

text \<open>An option that leaves the jar and the cookie of a name alone.\<close>

definition keepsCookie :: "('q, 'p, 'k, 's) clientLib \<Rightarrow> bytes \<Rightarrow> 'q TestClientOption \<Rightarrow> bool" where
  "keepsCookie lib n option' \<longleftrightarrow> (\<forall>c q. fst (option' c q) = c \<and> cq_Cookie lib n (snd (option' c q)) = cq_Cookie lib n q)"

definition jarOk :: "TestClient \<Rightarrow> bool" where
  "jarOk c \<longleftrightarrow> distinct (map fst (tc_cookies c))"

lemma jarUpdate_distinct: "distinct (map fst jar) \<Longrightarrow> distinct (map fst (jarUpdate lib ko kv jar))"
  by (auto simp: jarUpdate_def distinct_update distinct_delete split: option.splits)

lemma jarUpdates_distinct: "distinct (map fst jar) \<Longrightarrow> distinct (map fst (foldl (\<lambda>jar kv. jarUpdate lib ko kv jar) jar kvs))"
  by (induction kvs arbitrary: jar) (simp_all add: jarUpdate_distinct)

text \<open>What one cookie of a response makes of the jar's value for its name.\<close>

definition jarValue :: "('q, 'p, 'k, 's) clientLib \<Rightarrow> 'k cookieOps \<Rightarrow> bytes \<Rightarrow> bytes option \<Rightarrow> bytes option" where
  "jarValue lib ko text old =
     (case cl_Parse lib text of
        None \<Rightarrow> old
      | Some cookie \<Rightarrow> if k_Value ko cookie = [] \<or> k_Expire ko cookie = cl_deleteTime lib then None else Some (k_Value ko cookie))"

lemma jarUpdate_map:
  assumes "distinct (map fst jar)"
  shows "map_of (jarUpdate lib ko kv jar) n = (if n = fst kv then jarValue lib ko (snd kv) (map_of jar n) else map_of jar n)"
  by (auto simp: jarUpdate_def jarValue_def update_conv delete_conv split: option.splits)

lemma jarUpdates_map:
  assumes "distinct (map fst jar)" "distinct (map fst kvs)"
  shows "map_of (foldl (\<lambda>jar kv. jarUpdate lib ko kv jar) jar kvs) n =
    (case map_of kvs n of None \<Rightarrow> map_of jar n | Some text \<Rightarrow> jarValue lib ko text (map_of jar n))"
  using assms
proof (induction kvs arbitrary: jar)
  case (Cons kv kvs)
  have "n \<notin> set (map fst kvs) \<Longrightarrow> map_of kvs n = None" by (simp add: map_of_eq_None_iff)
  with Cons show ?case by (auto simp: jarUpdate_distinct jarUpdate_map split: option.splits)
qed simp

context client_request
begin

lemma options_keep:
  assumes "\<forall>option' \<in> set options. keepsCookie lib n option'"
  shows "fst (applyOptions options c q) = c \<and> cq_Cookie lib n (snd (applyOptions options c q)) = cq_Cookie lib n q"
proof -
  have "fst (foldl (\<lambda>(c, q) option'. option' c q) cq options) = fst cq \<and>
      cq_Cookie lib n (snd (foldl (\<lambda>(c, q) option'. option' c q) cq options)) = cq_Cookie lib n (snd cq)" for cq
    using assms
    by (induction options arbitrary: cq) (auto simp: keepsCookie_def split: prod.splits)
  from this [of "(c, q)"] show ?thesis by (simp add: applyOptions_def)
qed

lemma sets_cookie:
  assumes "distinct (map fst kvs)"
  shows "cq_Cookie lib n (foldl (\<lambda>q (name, v). cq_SetCookie lib name v q) q kvs) =
    (case map_of kvs n of None \<Rightarrow> cq_Cookie lib n q | Some v \<Rightarrow> Some v)"
  using assms
proof (induction kvs arbitrary: q)
  case (Cons kv kvs)
  obtain a b where kv: "kv = (a, b)" by fastforce
  have "a \<notin> set (map fst kvs)" using Cons.prems kv by simp
  then have "map_of kvs a = None" by (simp add: map_of_eq_None_iff)
  with Cons show ?case by (auto simp: kv cookie_set split: option.splits)
qed simp

text \<open>The request of a call carries the value of the jar, if the options leave it alone.\<close>

lemma request_cookie:
  assumes "jarOk c" "\<forall>option' \<in> set options. keepsCookie lib n option'"
  shows "fst (testRequest lib meth endpoint body options c) = c"
    "cq_Cookie lib n (snd (testRequest lib meth endpoint body options c)) = map_of (tc_cookies c) n"
proof -
  have d: "distinct (map fst (cl_order lib (tc_cookies c)))"
    using assms(1) order unfolding jarOk_def by (metis mset_map mset_eq_imp_distinct_iff)
  have m: "map_of (cl_order lib (tc_cookies c)) = map_of (tc_cookies c)"
    using map_of_inject_set [OF d, of "tc_cookies c"] mset_eq_setD [OF order] assms(1) unfolding jarOk_def by blast
  note k = options_keep [OF assms(2)]
  let ?q = "foldl (\<lambda>req (name, v). cq_SetCookie lib name v req)
    (cq_SetRequestURI lib endpoint (cq_SetMethod lib meth (cq_Acquire lib))) (cl_order lib (tc_cookies c))"
  have q: "cq_Cookie lib n ?q = map_of (tc_cookies c) n"
    using sets_cookie [OF d, of n] by (simp add: m cookie_other cookie_new split: option.splits)
  show "fst (testRequest lib meth endpoint body options c) = c"
    using k [of c ?q] by (simp add: testRequest_def Let_def split_beta)
  show "cq_Cookie lib n (snd (testRequest lib meth endpoint body options c)) = map_of (tc_cookies c) n"
    using k [of c ?q] q by (simp add: testRequest_def Let_def split_beta cookie_other)
qed

lemma library_options_keep:
  "keepsCookie lib n (WithHost lib host)" "n \<noteq> name \<Longrightarrow> keepsCookie lib n (WithCookie lib name v)"
  "lowerKey key \<noteq> ''cookie'' \<Longrightarrow> keepsCookie lib n (WithHeader lib key v)"
  "keepsCookie lib n (WithMultiPartFormBoundary lib boundary)" "keepsCookie lib n (WithQuery lib params)"
proof -
  have "cq_Cookie lib n (foldl (\<lambda>r (key, val). cq_AddQuery lib key (f val) r) q params) = cq_Cookie lib n q"
    for q and f :: "formVal \<Rightarrow> bytes"
    by (induction params arbitrary: q) (auto simp: cookie_other)
  then show "keepsCookie lib n (WithQuery lib params)" by (simp add: keepsCookie_def WithQuery_def)
qed (simp_all add: keepsCookie_def WithHost_def WithCookie_def WithHeader_def WithMultiPartFormBoundary_def cookie_other cookie_set)

end

text \<open>The expiry date of a cookie, and a cookie on its way from the server to the client.\<close>

locale cookie_expiry = cookie_store ko normPath for ko :: "'k cookieOps" and normPath :: "bytes \<Rightarrow> bytes" +
  assumes expire_expire: "k_Expire ko (k_SetExpire ko t c) = t"
    and expire_other: "k_Expire ko (k_SetKey ko n c) = k_Expire ko c" "k_Expire ko (k_SetValue ko v c) = k_Expire ko c"
      "k_Expire ko (k_SetMaxAge ko i c) = k_Expire ko c" "k_Expire ko (k_SetDomain ko d c) = k_Expire ko c"
      "k_Expire ko (k_SetPath ko p c) = k_Expire ko c" "k_Expire ko (k_SetHTTPOnly ko b c) = k_Expire ko c"
      "k_Expire ko (k_SetSecure ko b c) = k_Expire ko c" "k_Expire ko (k_SetSameSite ko s c) = k_Expire ko c"
    and value_new: "k_Value ko (k_Acquire ko) = []" "k_Value ko (k_SetKey ko n c) = k_Value ko c"
begin

lemma option_expire: "opt \<noteq> CookieExpires t \<Longrightarrow> k_Expire ko c \<noteq> t \<Longrightarrow> k_Expire ko (applyCookieOption ko si opt c) \<noteq> t"
  by (cases opt) (simp_all add: expire_expire expire_other)

lemma options_expire:
  "CookieExpires t \<notin> set opts \<Longrightarrow> k_Expire ko c \<noteq> t \<Longrightarrow> k_Expire ko (foldl (\<lambda>c opt. applyCookieOption ko si opt c) c opts) \<noteq> t"
proof (induction opts arbitrary: c)
  case (Cons opt opts)
  have "opt \<noteq> CookieExpires t" "CookieExpires t \<notin> set opts" using Cons.prems(1) by auto
  then show ?case using Cons.IH option_expire [OF _ Cons.prems(2)] by simp
qed simp

lemma write_expire:
  assumes "CookieExpires t \<notin> set opts" "k_Expire ko (k_Acquire ko) \<noteq> t"
  shows "k_Expire ko (writeCookie ko si tls dev base name (k_SetValue ko v) opts) \<noteq> t"
proof -
  have "k_Expire ko (foldl (\<lambda>c opt. applyCookieOption ko si opt c) c opts) \<noteq> t" if "k_Expire ko c = k_Expire ko (k_Acquire ko)" for c
    using options_expire [OF assms(1)] that assms(2) by simp
  then show ?thesis by (simp add: writeCookie_def enforceSecurity_def Let_def expire_other)
qed

lemma write_expired_value: "k_Value ko (writeCookie ko si tls dev base name (k_SetExpire ko t) opts) = []"
  by (simp add: writeCookie_def enforceSecurity_def Let_def value_other value_new)

end

locale cookie_wire = client_request lib + cookie_expiry ko normPath
  for lib :: "('q, 'p, 'k, 's) clientLib" and ko :: "'k cookieOps" and normPath :: "bytes \<Rightarrow> bytes" +
  fixes setCookie :: "'k \<Rightarrow> 'p \<Rightarrow> 'p" and sendable :: "bytes \<Rightarrow> bool" and enc :: "'k \<Rightarrow> bytes"
  assumes wire_set: "\<exists>xs ys. cl_Cookies lib (setCookie k r) = xs @ (k_Key ko k, enc k) # ys \<and> k_Key ko k \<notin> fst ` set (xs @ ys)"
    and wire_parse: "sendable (k_Key ko k) \<Longrightarrow> sendable (k_Value ko k) \<Longrightarrow>
      \<exists>k'. cl_Parse lib (enc k) = Some k' \<and> k_Value ko k' = k_Value ko k \<and>
        (k_Expire ko k' = cl_deleteTime lib \<longrightarrow> k_Expire ko k = cl_deleteTime lib)"
    and wire_empty: "sendable []"
    and session: "k_Expire ko (k_Acquire ko) \<noteq> cl_deleteTime lib"
begin

lemma jarUpdates_other:
  assumes "distinct (map fst jar)" "n \<notin> fst ` set kvs"
  shows "map_of (foldl (\<lambda>jar kv. jarUpdate lib ko kv jar) jar kvs) n = map_of jar n"
  using assms by (induction kvs arbitrary: jar) (auto simp: jarUpdate_map jarUpdate_distinct)

lemma jarUpdates_wire:
  assumes "distinct (map fst jar)"
  shows "\<exists>old. map_of (foldl (\<lambda>jar kv. jarUpdate lib ko kv jar) jar (cl_Cookies lib (setCookie k r))) (k_Key ko k) = jarValue lib ko (enc k) old"
proof -
  obtain xs ys where x: "cl_Cookies lib (setCookie k r) = xs @ (k_Key ko k, enc k) # ys" "k_Key ko k \<notin> fst ` set (xs @ ys)"
    using wire_set by blast
  let ?jar = "foldl (\<lambda>jar kv. jarUpdate lib ko kv jar) jar xs"
  have d: "distinct (map fst ?jar)" by (rule jarUpdates_distinct [OF assms])
  have y: "k_Key ko k \<notin> fst ` set ys" using x(2) by (simp add: image_Un)
  show ?thesis
    using jarUpdates_other [OF jarUpdate_distinct [OF d, of lib ko "(k_Key ko k, enc k)"] y] jarUpdate_map [OF d, of lib ko "(k_Key ko k, enc k)" "k_Key ko k"]
    by (intro exI [of _ "map_of ?jar (k_Key ko k)"]) (simp add: x(1))
qed

text \<open>A call whose response has the cookie \<open>k\<close> leaves the value of \<open>k\<close> for the next request, or none if \<open>k\<close> is expired.\<close>

lemma call_sets:
  assumes "jarOk c" "\<forall>option' \<in> set options. keepsCookie lib (k_Key ko k) option'"
    and "cl_Do lib (snd (testRequest lib meth endpoint body options c)) s = (Inr (setCookie k r), s')"
    and "sendable (k_Key ko k)" "sendable (k_Value ko k)" "k_Value ko k = [] \<or> k_Expire ko k \<noteq> cl_deleteTime lib"
  shows "\<exists>c'. CallRaw lib ko meth endpoint body options c s = (Inr (setCookie k r), c', s') \<and> jarOk c' \<and>
    map_of (tc_cookies c') (k_Key ko k) = (if k_Value ko k = [] then None else Some (k_Value ko k))"
proof -
  let ?jar = "foldl (\<lambda>jar kv. jarUpdate lib ko kv jar) (tc_cookies c) (cl_Cookies lib (setCookie k r))"
  have c: "fst (testRequest lib meth endpoint body options c) = c" by (rule request_cookie(1) [OF assms(1,2)])
  have r: "CallRaw lib ko meth endpoint body options c s = (Inr (setCookie k r), c\<lparr>tc_cookies := ?jar\<rparr>, s')"
    using assms(3) c by (simp add: CallRaw_def split_beta)
  obtain k' where k': "cl_Parse lib (enc k) = Some k'" "k_Value ko k' = k_Value ko k"
      "k_Expire ko k' = cl_deleteTime lib \<longrightarrow> k_Expire ko k = cl_deleteTime lib"
    using wire_parse [OF assms(4,5)] by blast
  have "jarValue lib ko (enc k) old = (if k_Value ko k = [] then None else Some (k_Value ko k))" for old
    using k' assms(6) by (auto simp: jarValue_def)
  then show ?thesis
    using r jarUpdates_wire [of "tc_cookies c" k r] jarUpdates_distinct [of "tc_cookies c" lib ko] assms(1)
    by (auto simp: jarOk_def)
qed

end

text \<open>A library that keeps cookies in lists, and a server that answers what its state says.\<close>

definition plainWire :: "((bytes \<times> bytes) list, (bytes \<times> bytes) list, plainCookie, (bytes \<times> bytes) list) clientLib" where
  "plainWire = \<lparr>cq_Acquire = [], cq_SetMethod = (\<lambda>_ q. q), cq_SetRequestURI = (\<lambda>_ q. q), cq_SetHost = (\<lambda>_ q. q),
     cq_SetCookie = (\<lambda>n v q. (n, v) # q), cq_AddHeader = (\<lambda>_ _ q. q), cq_SetBoundary = (\<lambda>_ q. q), cq_AddQuery = (\<lambda>_ _ q. q),
     cq_SetBodyStream = (\<lambda>_ q. q), cq_SetBodyRaw = (\<lambda>_ q. q), cq_Cookie = (\<lambda>n q. map_of q n), cl_maxBody = 4194304, cl_order = rev,
     cl_Do = (\<lambda>q s. (Inr s, s)), cl_Cookies = id, cl_Parse = (\<lambda>text. Some ((k_Acquire plainCookies)\<lparr>pc_Value := text\<rparr>)), cl_deleteTime = 1\<rparr>"

definition plainSetCookie :: "plainCookie \<Rightarrow> (bytes \<times> bytes) list \<Rightarrow> (bytes \<times> bytes) list" where
  "plainSetCookie k r = (pc_Key k, pc_Value k) # filter (\<lambda>(n, _). n \<noteq> pc_Key k) r"

interpretation plainWire: client_request plainWire
  by unfold_locales (simp_all add: plainWire_def)

interpretation plainWire: cookie_expiry plainCookies slashPath
  by unfold_locales (simp_all add: plainCookies_def)

interpretation plainWire: cookie_wire plainWire plainCookies slashPath plainSetCookie "\<lambda>_. True" pc_Value
proof unfold_locales
  show "\<exists>xs ys. cl_Cookies plainWire (plainSetCookie k r) = xs @ (k_Key plainCookies k, pc_Value k) # ys \<and>
      k_Key plainCookies k \<notin> fst ` set (xs @ ys)" for k r
    by (intro exI [of _ "[]"] exI [of _ "filter (\<lambda>(n, _). n \<noteq> pc_Key k) r"])
      (auto simp: plainWire_def plainSetCookie_def plainCookies_def)
qed (simp_all add: plainWire_def plainCookies_def)

section \<open>Properties\<close>

text \<open>
  C40. A cookie goes from a handler into the jar and back: when the handler that answers a call sets a cookie whose value is not empty and
  that is not expired by its own options, every later request of the client carries the value under the name the cookie
  was sent with, unless its options say otherwise; when the handler clears the cookie, no later request carries it.
\<close>

theorem cookie_jar_roundtrip:
  assumes "cookie_wire lib ko normPath setCookie sendable enc" "jarOk c"
    and n: "n = (if CookieDefaultSecurity \<in> set opts \<and> (IsTLS po ctx \<or> \<not> dev) then securePrefix basePath @ name else name)"
    and "sendable n" "\<forall>option' \<in> set options. keepsCookie lib n option'"
  shows "(sendable val \<and> val \<noteq> [] \<and> CookieExpires (cl_deleteTime lib) \<notin> set opts \<and>
      cl_Do lib (snd (testRequest lib meth endpoint body options c)) s =
        (Inr (c_Response (cookieSet ko secondsInt setCookie dev basePath po name val opts ctx)), s') \<longrightarrow>
      (\<exists>resp c'. CallRaw lib ko meth endpoint body options c s = (Inr resp, c', s') \<and>
        (\<forall>meth endpoint body options. (\<forall>option' \<in> set options. keepsCookie lib n option') \<longrightarrow>
          cq_Cookie lib n (snd (testRequest lib meth endpoint body options c')) = Some val))) \<and>
    (cl_Do lib (snd (testRequest lib meth endpoint body options c)) s =
        (Inr (c_Response (cookieClear ko secondsInt (cl_deleteTime lib) setCookie dev basePath po name opts ctx)), s') \<longrightarrow>
      (\<exists>resp c'. CallRaw lib ko meth endpoint body options c s = (Inr resp, c', s') \<and>
        (\<forall>meth endpoint body options. (\<forall>option' \<in> set options. keepsCookie lib n option') \<longrightarrow>
          cq_Cookie lib n (snd (testRequest lib meth endpoint body options c')) = None)))"
    (is "(?V \<and> ?Ne \<and> ?Ex \<and> ?Set \<longrightarrow> ?A) \<and> (?Clear \<longrightarrow> ?B)")
proof -
  note w = assms(1)
  note cr = cookie_wire.axioms(1) [OF w] and ce = cookie_wire.axioms(2) [OF w]
  note cs = cookie_expiry.axioms(1) [OF ce]
  let ?k = "\<lambda>f. writeCookie ko secondsInt (IsTLS po ctx) dev basePath name f opts"
  have key: "k_Key ko (?k f) = n" if "\<And>k. k_Key ko (f k) = k_Key ko k" for f
    using cookie_store.write_key [OF cs that] n by simp
  have ks: "k_Key ko (?k (k_SetValue ko val)) = n" "k_Key ko (?k (k_SetExpire ko (cl_deleteTime lib))) = n"
    by (rule key, rule cookie_store.key_other [OF cs])+
  note call = cookie_wire.call_sets [OF w assms(2), of options]
  have later: "cq_Cookie lib n (snd (testRequest lib meth endpoint body options c')) = map_of (tc_cookies c') n"
    if "jarOk c'" "\<forall>option' \<in> set options. keepsCookie lib n option'" for meth endpoint body options c'
    by (rule client_request.request_cookie(2) [OF cr that])
  have ?A if V: ?V ?Ne ?Ex and Do: ?Set
  proof -
    have "k_Expire ko (?k (k_SetValue ko val)) \<noteq> cl_deleteTime lib"
      by (rule cookie_expiry.write_expire [OF ce V(3) cookie_wire.session [OF w]])
    with call [of "?k (k_SetValue ko val)" meth endpoint body s "c_Response ctx" s'] Do V assms(4,5) ks(1)
      cookie_store.write_value [OF cs] obtain c' where
      c': "CallRaw lib ko meth endpoint body options c s = (Inr (setCookie (?k (k_SetValue ko val)) (c_Response ctx)), c', s')"
      "jarOk c'" "map_of (tc_cookies c') n = Some val" by (auto simp: cookieSet_def)
    show ?thesis by (intro exI conjI allI impI, rule c'(1)) (simp add: later [OF c'(2)] c'(3))
  qed
  moreover have ?B if Do: ?Clear
  proof -
    from call [of "?k (k_SetExpire ko (cl_deleteTime lib))" meth endpoint body s "c_Response ctx" s'] Do assms(4,5) ks(2)
      cookie_expiry.write_expired_value [OF ce] cookie_wire.wire_empty [OF w] obtain c' where
      c': "CallRaw lib ko meth endpoint body options c s =
        (Inr (setCookie (?k (k_SetExpire ko (cl_deleteTime lib))) (c_Response ctx)), c', s')"
      "jarOk c'" "map_of (tc_cookies c') n = None" by (auto simp: cookieClear_def)
    show ?thesis by (intro exI conjI allI impI, rule c'(1)) (simp add: later [OF c'(2)] c'(3))
  qed
  ultimately show ?thesis by blast
qed

theorem cookie_jar_roundtrip_witness:
  "\<exists>resp c'. CallRaw plainWire plainCookies MethodGet [] [] [] newTestClient [(''sid'', ''42'')] = (Inr resp, c', [(''sid'', ''42'')]) \<and>
     cq_Cookie plainWire ''sid'' (snd (testRequest plainWire MethodGet [] [] [WithHeader plainWire ''Accept'' ''*/*''] c')) = Some ''42''"
proof -
  define ctx where "ctx = acquireCtx [] \<lparr>fc_Request = demoReq, fc_Response = [] :: (bytes \<times> bytes) list, fc_UserValues = Map.empty\<rparr>"
  have r: "c_Response (cookieSet plainCookies id plainSetCookie False [] defaultProxyOptions ''sid'' ''42'' [] ctx) = [(''sid'', ''42'')]"
    by (simp add: cookieSet_def writeCookie_def plainCookies_def plainSetCookie_def ctx_def acquireCtx_def)
  have k: "\<forall>option' \<in> set [WithHeader plainWire ''Accept'' ''*/*'']. keepsCookie plainWire ''sid'' option'"
    by (simp add: keepsCookie_def WithHeader_def plainWire_def)
  have d: "cl_Do plainWire q s = (Inr s, s)" for q s by (simp add: plainWire_def)
  have j: "jarOk newTestClient" by (simp add: newTestClient_def jarOk_def)
  obtain resp c' where c': "CallRaw plainWire plainCookies MethodGet [] [] [] newTestClient [(''sid'', ''42'')] = (Inr resp, c', [(''sid'', ''42'')])"
    "\<forall>meth endpoint body options. (\<forall>option' \<in> set options. keepsCookie plainWire ''sid'' option') \<longrightarrow>
      cq_Cookie plainWire ''sid'' (snd (testRequest plainWire meth endpoint body options c')) = Some ''42''"
    using cookie_jar_roundtrip [OF plainWire.cookie_wire_axioms j, of "''sid''" "[]" defaultProxyOptions ctx False "[]" "''sid''"
        "[]" "''42''" MethodGet "[]" "[]" "[(''sid'', ''42'')]" id "[(''sid'', ''42'')]", THEN conjunct1, THEN mp]
    by (auto simp: r d)
  show ?thesis by (intro exI conjI, rule c'(1), rule c'(2) [rule_format], rule k [THEN bspec])
qed

end
