(* ===== verification/Spec2Isabelle.thy ===== *)
theory Spec2Isabelle
  imports Radix_Safe Mux_Params RealIP Rate_Limit WS_Federation Healthz Static_Cache Upstream Server_Setup Observe App_Lifecycle Test_Client
begin

text \<open>
  Verification of the azugo web framework: a router over a radix tree, the request context with its typed accessors and
  responses, error handling, middlewares, users and sign-in, static files, an upstream proxy, and the assembly of a server from its
  configuration. Definitions are translated from the Go sources under \<open>src/\<close> and keep their names where HOL allows it.

  \<^bold>\<open>How the program works.\<close> A request of the server library reaches \<open>App.Handler\<close>, which picks a router (\<open>mux\<close>). The router takes the
  tree of the method, looks the path up, wraps the library's request in a pooled \<open>Context\<close>, and runs the handler that was
  registered, chained with the middlewares. A lookup that fails may lead to a redirect, to 405 with an \<open>Allow\<close> header, or to 404. An error
  or a panic of a handler becomes a response in \<open>HandleError\<close>. Around this core, middlewares find the address of the client, write the access
  log, count metrics, answer cross-origin requests and limit rates; handlers serve health checks, static files and upstream
  servers; sign-in with WS-Federation rests on one-time nonces. The configuration sections are bound, validated and applied when a
  server is assembled.

  \<^bold>\<open>Theories and sources.\<close>
  \<^item> \<open>Prelude\<close>, \<open>Strconv\<close>, \<open>Go_Url\<close>: the functions of Go's standard library that the sources call, on strings as lists of bytes.
  \<^item> \<open>Radix_Utils\<close>, \<open>Radix_Node\<close>, \<open>Radix_Tree\<close>: the routing tree of \<open>internal/radix\<close> (pattern scanner, nodes, tree). A node is its fields
    and its children; operations return the changed node; panics are values. Proofs: \<open>Radix_Static\<close>, \<open>Radix_StaticAdd\<close> and
    \<open>Radix_Routes\<close> (the tree of static routes is a finite map), \<open>Radix_Params\<close> (lookups in any tree are sound), \<open>Radix_Pattern\<close> (a route with parameters is found by exactly its instances), \<open>Radix_Wf\<close> and \<open>Radix_Safe\<close>
    (the shape of every tree, and that lookups in it do not panic), \<open>Radix_Find\<close> (the lookup that ignores case).
  \<^item> \<open>Router_Path\<close>: \<open>internal/router/path.go\<close>, cleaning of paths and routes with optional parameters.
  \<^item> \<open>Mux\<close>, \<open>Mux_Serve\<close>: \<open>mux.go\<close>, registration and serving. Proofs: \<open>Mux_Inv\<close> (the invariant), \<open>Mux_Allowed\<close> (all reachable routers, the
    allowed methods), \<open>Mux_Routes\<close> and \<open>Mux_Props\<close> (the router as a table of routes), \<open>Mux_Params\<close> (serving a route with parameters). \<open>Route_Group\<close>: \<open>route_group.go\<close>, and the delegates of \<open>router.go\<close>.
  \<^item> \<open>Request_Values\<close>: \<open>params.go\<close>, \<open>query.go\<close>, \<open>form.go\<close>. \<open>Server_Context\<close>: \<open>request.go\<close>, \<open>header.go\<close>, the setters of \<open>response.go\<close>.
    \<open>Context_State\<close>: the pooled context object, \<open>logger.go\<close>, \<open>context.go\<close>, \<open>body.go\<close>. \<open>Response_Store\<close>: the library's response as a contract.
    \<open>Responses\<close>: the composed responses of \<open>response.go\<close>. \<open>Cookies\<close>: \<open>cookie.go\<close>.
  \<^item> \<open>Errors\<close>, \<open>Error_Handler\<close>: \<open>errors.go\<close> and the error side of \<open>mux.go\<close> and \<open>response.go\<close>.
  \<^item> \<open>Trust\<close>, \<open>RealIP\<close>: \<open>trusted_source.go\<close>, \<open>proxy.go\<close>, \<open>metrics_options.go\<close>, \<open>middleware/realip.go\<close>. \<open>Cors\<close>: \<open>cors_options.go\<close>,
    \<open>middleware/cors.go\<close>. \<open>Rate_Limit\<close>: \<open>middleware/ratelimit.go\<close>. \<open>Observe\<close>: \<open>middleware/metrics.go\<close>, \<open>middleware/request_logger.go\<close>.
    \<open>Healthz\<close>: \<open>healthz/healthz.go\<close>.
  \<^item> \<open>User\<close>: \<open>user/\<close>, \<open>user.go\<close>, \<open>token/claim.go\<close>. \<open>Nonce\<close>: \<open>token/nonce\<close>. \<open>WS_Federation\<close>: \<open>wsfed/\<close>, \<open>internal/wsfed\<close>.
  \<^item> \<open>Static_Files\<close>, \<open>Static_Cache\<close>: \<open>static.go\<close>. \<open>Upstream\<close>: \<open>upstream.go\<close>, \<open>internal/proxy\<close>.
  \<^item> \<open>Config\<close>: \<open>config/\<close>. \<open>Server_Setup\<close>: \<open>server/\<close>, the configuration of \<open>app.go\<close> and \<open>router.go\<close>. \<open>App_Lifecycle\<close>: \<open>Start\<close> and \<open>Stop\<close> of \<open>app.go\<close>,
    \<open>http_client.go\<close>, \<open>internal/utils/convert.go\<close>. \<open>Test_Client\<close>: \<open>testing_client.go\<close>, \<open>testing_testapp.go\<close>.

  \<^bold>\<open>State and effects.\<close> State is passed explicitly: a router, a context, a static handler or a proxy is a record that each operation takes
  and returns. A handler maps a context to the context it leaves and the value it panicked with, if any. Errors are values of
  sums or options, a nil pointer or nil error is \<^const>\<open>None\<close>, and a run-time panic that the code can reach is a branch of the definition. Go
  maps are association lists whose order stands for the order of iteration, and the properties hold for each order. Integers are 64 bits
  wide: parsing refuses what does not fit, and the one product that can overflow is written with \<open>wrap64\<close>.
  Goroutines that share state are step relations: the creation of a limiter (\<open>getStep\<close>), the overlapping verification of a nonce, the first use of the
  HTTP client (\<open>clientStep\<close>).

  \<^bold>\<open>Libraries.\<close> Code that is not part of the repository is a parameter, and what the sources rely on is a locale or a named hypothesis: the
  server library's responses (\<open>response_store\<close>), cookies (\<open>cookie_store\<close>, \<open>cookie_expiry\<close>) and client (\<open>client_request\<close>, \<open>cookie_wire\<close>), the parser of URLs (\<open>url_parser\<close>), sorting
  (\<open>node_sort\<close>), the cache behind the nonces (\<open>bool_cache\<close>, whose deletions may fail, and \<open>deleting_cache\<close>, whose do not); regular expressions, parsers of addresses, encoders, XML and signatures, limiters,
  loggers and metrics are parameters without laws where none are needed. Contracts that the program itself provides are locales as well:
  \<open>route_table\<close> (the tree as a map), \<open>counted_store\<close> and \<open>nonce_store\<close>, \<open>trust_list\<close> (trusted sources and proxies), \<open>typed_values\<close> (query and form), \<open>user_scopes\<close> (both
  kinds of user). Each locale is interpreted, the contracts of the program on its own definitions.

  \<^bold>\<open>What the theorems show.\<close> The tree of static routes refines a finite map, and in every tree a lookup is sound and does not panic; a
  route with parameters is found by exactly its instances, with their values, in the tree and through the router; the
  router keeps its invariant under all operations, refines a table of routes, serves what was registered, redirects only to routes, and answers
  every request; nested groups are joined prefixes; errors are answered with the status and the text they ask for, from a
  form value that does not parse to the response, and headers that must survive an error do. An address
  can only be forged by a trusted proxy; the location of a redirect names no other origin; the security of cookies cannot be
  downgraded; nonces are accepted once, but for deletions that fail, and sign-in responses cannot be replayed when they do not; limits are enforced, one limiter is made, and
  making it ends; caching of static files is invisible; the requests that a proxy sends go to its upstreams in turn; a reused context is a new one; a server is
  assembled as configured; health checks stay out of logs and metrics; a cookie travels from a handler to the client and back.

  \<^bold>\<open>Termination.\<close> No definition uses fuel. Loops are structural recursion or functions with a measure: the scanners of patterns recurse
  on the position in the path, lookups on the tree, expansions of optional parameters on the rest of the route. So every definition
  is total, and where the code can panic the result says so.

  \<^bold>\<open>Departures that the model shows.\<close> Some lemmas show behaviour that the comments of the sources do not promise: \<open>nonce_race\<close> (two
  verifications of a nonce that overlap accept it twice), \<open>nonce_delete_ignored\<close> (so do two that follow each other when the deletion fails), \<open>two_clients\<close>, \<open>failed_start_listens\<close> (an error of \<open>Start\<close> that leaves a listener running),
  \<open>group_proxy_twice\<close>, \<open>base_path_stale\<close>, \<open>base_url_twice\<close>, \<open>paging_not_validated\<close>, \<open>cors_no_credentials\<close>, \<open>unchanged_sticks\<close> and \<open>star_collides\<close> (keys of the static cache),
  \<open>user_json_scopes\<close>, \<open>acquire_without_request\<close>.

  \<^bold>\<open>Not modelled.\<close> The getters of \<open>request.go\<close>, \<open>header.go\<close> and \<open>body.go\<close> that only return a field or forward to the library; \<open>nocopy.go\<close> (a marker
  without behaviour) and \<open>validator.go\<close> (one forwarding call); \<open>internal/utils/copy.go\<close> (a pooled buffer around \<open>io.Copy\<close>); the interfaces that only name
  methods; \<open>_examples\<close>. Of the life cycle, the log lines and the errors of listeners that end, which are only logged; \<open>Run\<close> and
  \<open>RunContext\<close>, which forward to the core library. Instrumentation spans and log lines of the request path have no effect on the results
  and are left out, except the access log itself. Changes of the CORS options of a server that is already assembled are left out
  (the source installs a pointer, the model the value). The turn of the upstream proxy is updated without a lock in the source; the model is sequential there.
\<close>

end
